theory Spec2Isabelle
  imports Main "HOL-Library.Word" "HOL-Library.Sublist"
begin

unbundle bit_operations_syntax

section \<open>The operating system seen by goinit\<close>

text \<open>
  goinit is a sequence of system calls and two subprocesses. The model keeps the part of
  the machine those calls read and write: a tree of directories and regular files with
  their permission bits, the working directory, the umask, the \<open>HOME\<close> variable, and the
  list of calls made so far.

  An absolute path is the list of its components (\<open>/home/u/demo\<close> is
  \<open>[''home'', ''u'', ''demo'']\<close>, the root is \<open>[]\<close>). \<open>os.Getwd\<close> and
  \<open>os.UserHomeDir\<close> return such paths, and \<open>filepath.Join\<close> of one of them with a
  name is computed on the components. A name handed to \<open>os.Stat\<close>, \<open>os.Chdir\<close>,
  \<open>os.Create\<close> or \<open>os.Chmod\<close> is a string, resolved component by component from the
  working directory (from the root when it starts with a slash).

  The process owns every entry it meets and is not the superuser, so the owner's bits
  of a mode are the ones that count. They are enforced where goinit reads a file it did
  not write, the SSH configuration: \<open>os.Open\<close> needs the search bit on every directory
  of the path and the read bit on the entry itself. The calls that build the project
  are modelled without permission failures. There are no symbolic links, and writing
  never runs out of space. Console output is not part of the state.
\<close>

type_synonym path = "string list"

type_synonym perm = "32 word"

definition ModePerm :: perm where
  \<comment> \<open>\<open>os.ModePerm\<close>, octal 777\<close>
  "ModePerm = 511"

definition perm_0666 :: perm where
  \<comment> \<open>octal 666, the mode \<open>os.Create\<close> asks for\<close>
  "perm_0666 = 438"

definition perm_0700 :: perm where
  \<comment> \<open>octal 700, the mode of every \<open>os.Chmod\<close> in the source\<close>
  "perm_0700 = 448"

definition owner_exec :: perm where
  \<comment> \<open>octal 100, the owner's execute bit, the search bit of a directory\<close>
  "owner_exec = 64"

definition owner_read :: perm where
  \<comment> \<open>octal 400, the owner's read bit\<close>
  "owner_read = 256"

definition any_exec :: perm where
  \<comment> \<open>octal 111, the three execute bits\<close>
  "any_exec = 73"

datatype node = Dir perm | File perm string

datatype error =
    ENOENT | EEXIST | ENOTDIR | EISDIR | EBADF | EACCES | EOF
  | HomeNotDefined
  | ExitError
  | TemplateNotExist
  | Errorf string "error option"

text \<open>
  \<open>Errorf msg (Some e)\<close> is \<open>fmt.Errorf(msg, e)\<close> with its \<open>%w\<close> verb; \<open>Errorf msg None\<close>
  is the same call with a nil error, as \<open>mkdir\<close> makes it.
\<close>

datatype event =
    EvStat string
  | EvGetwd
  | EvMkdir path perm
  | EvChdir string
  | EvCreate string
  | EvWrite path string
  | EvChmod string perm
  | EvOpen path
  | EvRead path nat
  | EvExec "string list"

record sys =
  fs :: "path \<rightharpoonup> node"
  cwd :: path
  umask :: perm
  home :: "path option"
  trace :: "event list"

definition record_ev :: "event \<Rightarrow> sys \<Rightarrow> sys" where
  "record_ev e s = s\<lparr>trace := trace s @ [e]\<rparr>"

subsection \<open>Names and paths\<close>

fun splitOn :: "char \<Rightarrow> string \<Rightarrow> string list" where
  "splitOn d [] = [[]]"
| "splitOn d (c # cs) =
     (if c = d then [] # splitOn d cs
      else (case splitOn d cs of [] \<Rightarrow> [[c]] | w # ws \<Rightarrow> (c # w) # ws))"

text \<open>
  \<open>walk f cur cs\<close> follows the components \<open>cs\<close> from the directory \<open>cur\<close>, as the kernel
  does: each step needs a directory to step from; an empty component and \<open>.\<close> stay,
  \<open>..\<close> goes up.
\<close>

fun walk :: "(path \<rightharpoonup> node) \<Rightarrow> path \<Rightarrow> string list \<Rightarrow> error + path" where
  "walk f cur [] = Inr cur"
| "walk f cur (c # cs) =
     (case f cur of
        None \<Rightarrow> Inl ENOENT
      | Some (File m b) \<Rightarrow> Inl ENOTDIR
      | Some (Dir m) \<Rightarrow>
          (if c = [] \<or> c = ''.'' then walk f cur cs
           else if c = ''..'' then walk f (butlast cur) cs
           else walk f (cur @ [c]) cs))"

definition start_dir :: "sys \<Rightarrow> string \<Rightarrow> path" where
  "start_dir s name = (case name of [] \<Rightarrow> cwd s | c # r \<Rightarrow> if c = CHR ''/'' then [] else cwd s)"

definition namei :: "sys \<Rightarrow> string \<Rightarrow> error + path" where
  \<comment> \<open>the entry a name stands for; it has to exist\<close>
  "namei s name =
     (if name = [] then Inl ENOENT
      else (case walk (fs s) (start_dir s name) (splitOn (CHR ''/'') name) of
              Inl e \<Rightarrow> Inl e
            | Inr p \<Rightarrow> (case fs s p of None \<Rightarrow> Inl ENOENT | Some nd \<Rightarrow> Inr p)))"

definition namei_create :: "sys \<Rightarrow> string \<Rightarrow> error + path" where
  \<comment> \<open>where a name would be created: its directory has to exist, the entry need not\<close>
  "namei_create s name =
     (if name = [] then Inl ENOENT
      else (let cs = splitOn (CHR ''/'') name in
            case walk (fs s) (start_dir s name) (butlast cs) of
              Inl e \<Rightarrow> Inl e
            | Inr par \<Rightarrow>
                (case fs s par of
                   None \<Rightarrow> Inl ENOENT
                 | Some (File m b) \<Rightarrow> Inl ENOTDIR
                 | Some (Dir m) \<Rightarrow>
                     (if last cs = [] \<or> last cs = ''.'' \<or> last cs = ''..'' then Inl EISDIR
                      else Inr (par @ [last cs])))))"

fun check_dirs :: "(path \<rightharpoonup> node) \<Rightarrow> path \<Rightarrow> string list \<Rightarrow> error option" where
  "check_dirs f cur [] = None"
| "check_dirs f cur (c # cs) =
     (case f cur of
        None \<Rightarrow> Some ENOENT
      | Some (File m b) \<Rightarrow> Some ENOTDIR
      | Some (Dir m) \<Rightarrow> check_dirs f (cur @ [c]) cs)"

text \<open>
  \<open>check_dirs f [] p\<close> is what the kernel asks of a cleaned absolute path \<open>p\<close>: every
  proper prefix of it is a directory.
\<close>

definition clean_step :: "path \<Rightarrow> string \<Rightarrow> path" where
  "clean_step out c =
     (if c = [] \<or> c = ''.'' then out else if c = ''..'' then butlast out else out @ [c])"

definition filepath_Join :: "path \<Rightarrow> string \<Rightarrow> path" where
  \<comment> \<open>\<open>filepath.Join(dir, name)\<close> (and \<open>path.Join\<close>) for an absolute \<open>dir\<close>: \<open>Clean(dir + "/" + name)\<close>\<close>
  "filepath_Join dir name = foldl clean_step dir (splitOn (CHR ''/'') name)"

subsection \<open>System calls\<close>

definition os_Stat :: "string \<Rightarrow> sys \<Rightarrow> (error + node) \<times> sys" where
  "os_Stat name s =
     (case namei s name of
        Inl e \<Rightarrow> (Inl e, record_ev (EvStat name) s)
      | Inr p \<Rightarrow> (case fs s p of
                   None \<Rightarrow> (Inl ENOENT, record_ev (EvStat name) s)
                 | Some nd \<Rightarrow> (Inr nd, record_ev (EvStat name) s)))"

definition os_Getwd :: "sys \<Rightarrow> (error + path) \<times> sys" where
  "os_Getwd s =
     (case fs s (cwd s) of
        Some (Dir m) \<Rightarrow> (Inr (cwd s), record_ev EvGetwd s)
      | Some (File m b) \<Rightarrow> (Inl ENOENT, record_ev EvGetwd s)
      | None \<Rightarrow> (Inl ENOENT, record_ev EvGetwd s))"

definition os_Mkdir :: "path \<Rightarrow> perm \<Rightarrow> sys \<Rightarrow> error option \<times> sys" where
  "os_Mkdir p m s =
     (let s1 = record_ev (EvMkdir p m) s in
      if p = [] then (Some EEXIST, s1)
      else (case check_dirs (fs s) [] p of
              Some e \<Rightarrow> (Some e, s1)
            | None \<Rightarrow>
                (case fs s p of
                   Some nd \<Rightarrow> (Some EEXIST, s1)
                 | None \<Rightarrow> (None, s1\<lparr>fs := (fs s)(p \<mapsto> Dir (m AND NOT (umask s)))\<rparr>))))"

definition os_Chdir :: "string \<Rightarrow> sys \<Rightarrow> error option \<times> sys" where
  "os_Chdir name s =
     (let s1 = record_ev (EvChdir name) s in
      case namei s name of
        Inl e \<Rightarrow> (Some e, s1)
      | Inr p \<Rightarrow> (case fs s p of
                   Some (Dir m) \<Rightarrow> (None, s1\<lparr>cwd := p\<rparr>)
                 | Some (File m b) \<Rightarrow> (Some ENOTDIR, s1)
                 | None \<Rightarrow> (Some ENOENT, s1)))"

text \<open>
  \<open>os.Create\<close> opens with \<open>O_RDWR|O_CREATE|O_TRUNC\<close> and mode 0666: a new file gets
  0666 less the umask, an existing file is emptied and keeps its mode. The handle it
  returns is the path of the file.
\<close>

definition os_Create :: "string \<Rightarrow> sys \<Rightarrow> (error + path) \<times> sys" where
  "os_Create name s =
     (let s1 = record_ev (EvCreate name) s in
      case namei_create s name of
        Inl e \<Rightarrow> (Inl e, s1)
      | Inr p \<Rightarrow> (case fs s p of
                   Some (Dir m) \<Rightarrow> (Inl EISDIR, s1)
                 | Some (File m b) \<Rightarrow> (Inr p, s1\<lparr>fs := (fs s)(p \<mapsto> File m [])\<rparr>)
                 | None \<Rightarrow> (Inr p, s1\<lparr>fs := (fs s)(p \<mapsto> File (perm_0666 AND NOT (umask s)) [])\<rparr>)))"

definition file_Write :: "path \<Rightarrow> string \<Rightarrow> sys \<Rightarrow> error option \<times> sys" where
  \<comment> \<open>one write at the start of a file that was just emptied\<close>
  "file_Write h bytes s =
     (let s1 = record_ev (EvWrite h bytes) s in
      case fs s h of
        Some (File m b) \<Rightarrow> (None, s1\<lparr>fs := (fs s)(h \<mapsto> File m (bytes @ drop (length bytes) b))\<rparr>)
      | Some (Dir m) \<Rightarrow> (Some EBADF, s1)
      | None \<Rightarrow> (Some EBADF, s1))"

definition set_perm :: "perm \<Rightarrow> node \<Rightarrow> node" where
  "set_perm m nd = (case nd of Dir m0 \<Rightarrow> Dir m | File m0 b \<Rightarrow> File m b)"

definition os_Chmod :: "string \<Rightarrow> perm \<Rightarrow> sys \<Rightarrow> error option \<times> sys" where
  "os_Chmod name m s =
     (let s1 = record_ev (EvChmod name m) s in
      case namei s name of
        Inl e \<Rightarrow> (Some e, s1)
      | Inr p \<Rightarrow> (case fs s p of
                   None \<Rightarrow> (Some ENOENT, s1)
                 | Some nd \<Rightarrow> (None, s1\<lparr>fs := (fs s)(p \<mapsto> set_perm m nd)\<rparr>)))"

fun search_dirs :: "(path \<rightharpoonup> node) \<Rightarrow> path \<Rightarrow> string list \<Rightarrow> error option" where
  "search_dirs f cur [] = None"
| "search_dirs f cur (c # cs) =
     (case f cur of
        None \<Rightarrow> Some ENOENT
      | Some (File m b) \<Rightarrow> Some ENOTDIR
      | Some (Dir m) \<Rightarrow> if m AND owner_exec = 0 then Some EACCES else search_dirs f (cur @ [c]) cs)"

text \<open>
  \<open>search_dirs f [] p\<close> is \<open>check_dirs f [] p\<close> with the permission check of a lookup: every
  proper prefix of \<open>p\<close> is a directory that the owner may search.
\<close>

definition node_mode :: "node \<Rightarrow> perm" where
  "node_mode nd = (case nd of Dir m \<Rightarrow> m | File m b \<Rightarrow> m)"

definition os_Open :: "path \<Rightarrow> sys \<Rightarrow> (error + path) \<times> sys" where
  \<comment> \<open>\<open>os.Open\<close> of a cleaned absolute path, read-only; a directory opens too. Without
      search permission on the way or read permission on the entry it fails with \<open>EACCES\<close>\<close>
  "os_Open p s =
     (let s1 = record_ev (EvOpen p) s in
      case search_dirs (fs s) [] p of
        Some e \<Rightarrow> (Inl e, s1)
      | None \<Rightarrow>
          (case fs s p of
             None \<Rightarrow> (Inl ENOENT, s1)
           | Some nd \<Rightarrow> if node_mode nd AND owner_read = 0 then (Inl EACCES, s1) else (Inr p, s1)))"

definition file_Read :: "path \<Rightarrow> nat \<Rightarrow> sys \<Rightarrow> (error + string) \<times> sys" where
  \<comment> \<open>the first \<open>Read\<close> on a fresh handle, into a buffer of \<open>n\<close> bytes; at end of file it
      returns \<open>0, io.EOF\<close>\<close>
  "file_Read h n s =
     (let s1 = record_ev (EvRead h n) s in
      case fs s h of
        None \<Rightarrow> (Inl EBADF, s1)
      | Some (Dir m) \<Rightarrow> (Inl EISDIR, s1)
      | Some (File m b) \<Rightarrow>
          (if n = 0 then (Inr [], s1)
           else if b = [] then (Inl EOF, s1)
           else (Inr (take n b), s1)))"

definition os_UserHomeDir :: "sys \<Rightarrow> error + path" where
  "os_UserHomeDir s = (case home s of None \<Rightarrow> Inl HomeNotDefined | Some h \<Rightarrow> Inr h)"

text \<open>
  The two external programs, \<open>git\<close> and \<open>go\<close>, are a parameter: given the argument
  vector, the working directory and the file tree, a \<open>tools\<close> function says whether the
  command exits with status 0 and what tree it leaves. A subprocess cannot change the
  working directory or the umask of goinit.
\<close>

type_synonym tools = "string list \<Rightarrow> path \<Rightarrow> (path \<rightharpoonup> node) \<Rightarrow> bool \<times> (path \<rightharpoonup> node)"

definition exec_Run :: "tools \<Rightarrow> string list \<Rightarrow> sys \<Rightarrow> error option \<times> sys" where
  \<comment> \<open>\<open>exec.Command(argv...).Run()\<close>, and \<open>CombinedOutput()\<close> with its output dropped\<close>
  "exec_Run ext argv s =
     (let r = ext argv (cwd s) (fs s);
          s1 = record_ev (EvExec argv) (s\<lparr>fs := snd r\<rparr>)
      in (if fst r then None else Some ExitError, s1))"

text \<open>The embedded template store \<open>templatesFS\<close>: a parameter, a map from names to bytes.\<close>

type_synonym embed_FS = "string \<rightharpoonup> string"

definition embed_ReadFile :: "embed_FS \<Rightarrow> string \<Rightarrow> error + string" where
  "embed_ReadFile tfs name = (case tfs name of None \<Rightarrow> Inl TemplateNotExist | Some b \<Rightarrow> Inr b)"

section \<open>The regular expression of the alias resolver\<close>

text \<open>
  The source compiles one pattern, \<^verbatim>\<open>Host github\.com\n\s+User (?P<user>\w+)\<close>, and calls
  \<open>FindStringSubmatch\<close>. The pattern is a sequence of literal bytes, one greedy repetition
  \<open>\s+\<close> and one capturing group around the greedy repetition \<open>\w+\<close>. The matcher below
  is Go's for such sequences: the leftmost start wins, and at one start a repetition
  tries its longest run first and gives bytes back one at a time. The classes are
  RE2's, ASCII only: \<open>\s\<close> is tab, newline, form feed, carriage return and space; \<open>\w\<close> is
  a digit, a letter or the underscore.
\<close>

datatype atom = Lit char | Plus "char \<Rightarrow> bool" | GroupPlus "char \<Rightarrow> bool"

definition is_space :: "char \<Rightarrow> bool" where
  "is_space c = (c = CHR 0x09 \<or> c = CHR 0x0A \<or> c = CHR 0x0C \<or> c = CHR 0x0D \<or> c = CHR '' '')"

definition is_word :: "char \<Rightarrow> bool" where
  "is_word c =
     (let n = (of_char c :: nat)
      in (48 \<le> n \<and> n \<le> 57) \<or> (65 \<le> n \<and> n \<le> 90) \<or> n = 95 \<or> (97 \<le> n \<and> n \<le> 122))"

fun first_some :: "('a \<Rightarrow> 'b option) \<Rightarrow> 'a list \<Rightarrow> 'b option" where
  "first_some f [] = None"
| "first_some f (k # ks) = (case f k of Some r \<Rightarrow> Some r | None \<Rightarrow> first_some f ks)"

definition run_lengths :: "(char \<Rightarrow> bool) \<Rightarrow> string \<Rightarrow> nat list" where
  \<comment> \<open>the lengths a greedy \<open>+\<close> over the class tries, longest first\<close>
  "run_lengths p s = rev [1..<Suc (length (takeWhile p s))]"

text \<open>
  \<open>match_atoms re s caps\<close> matches the whole of \<open>re\<close> at the start of \<open>s\<close>; it returns the
  text after the match and the captured groups.
\<close>

primrec match_atoms :: "atom list \<Rightarrow> string \<Rightarrow> string list \<Rightarrow> (string \<times> string list) option" where
  "match_atoms [] s caps = Some (s, caps)"
| "match_atoms (a # as) s caps =
     (case a of
        Lit c \<Rightarrow> (case s of [] \<Rightarrow> None | x # xs \<Rightarrow> if x = c then match_atoms as xs caps else None)
      | Plus p \<Rightarrow> first_some (\<lambda>k. match_atoms as (drop k s) caps) (run_lengths p s)
      | GroupPlus p \<Rightarrow>
          first_some (\<lambda>k. match_atoms as (drop k s) (caps @ [take k s])) (run_lengths p s))"

definition submatch_here :: "atom list \<Rightarrow> string \<Rightarrow> string list option" where
  \<comment> \<open>a match starting at the first byte: the matched text, then the groups\<close>
  "submatch_here re s =
     (case match_atoms re s [] of
        None \<Rightarrow> None
      | Some (rest, caps) \<Rightarrow> Some (take (length s - length rest) s # caps))"

fun FindStringSubmatch :: "atom list \<Rightarrow> string \<Rightarrow> string list" where
  "FindStringSubmatch re [] = (case submatch_here re [] of Some m \<Rightarrow> m | None \<Rightarrow> [])"
| "FindStringSubmatch re (c # cs) =
     (case submatch_here re (c # cs) of Some m \<Rightarrow> m | None \<Rightarrow> FindStringSubmatch re cs)"

definition RegexpPattern :: "atom list" where
  "RegexpPattern =
     map Lit ''Host github.com'' @ [Lit (CHR 0x0A)] @ [Plus is_space]
     @ map Lit ''User '' @ [GroupPlus is_word]"

section \<open>The program of \<open>src/unnamed/part_000\<close>\<close>

definition DefaultProjectName :: string where
  "DefaultProjectName = ''new_project''"

definition DefaultAlias :: string where
  "DefaultAlias = ''project/''"

definition SSHConfigFile :: string where
  "SSHConfigFile = ''.ssh/config''"

definition mkdir :: "string \<Rightarrow> sys \<Rightarrow> error option \<times> sys" where
  "mkdir name s =
     (case os_Stat name s of
        (Inr nd, s1) \<Rightarrow> (Some (Errorf ''project already exists: %w'' None), s1)
      | (Inl e0, s1) \<Rightarrow>
          (case os_Getwd s1 of
             (Inl e, s2) \<Rightarrow> (Some (Errorf ''error getting current working directory: %w'' (Some e)), s2)
           | (Inr pwd, s2) \<Rightarrow>
               (case os_Mkdir (filepath_Join pwd name) ModePerm s2 of
                  (Some e, s3) \<Rightarrow> (Some (Errorf ''error creating folder: %w'' (Some e)), s3)
                | (None, s3) \<Rightarrow> (None, s3))))"

definition initRepo :: "tools \<Rightarrow> sys \<Rightarrow> error option \<times> sys" where
  "initRepo ext s =
     (case exec_Run ext [''git'', ''init''] s of
        (Some e, s1) \<Rightarrow> (Some (Errorf ''error initializing repository: %w'' (Some e)), s1)
      | (None, s1) \<Rightarrow> (None, s1))"

definition readFile :: "path \<Rightarrow> sys \<Rightarrow> (error + string) \<times> sys" where
  "readFile p s =
     (case os_Open p s of
        (Inl e, s1) \<Rightarrow> (Inl e, s1)
      | (Inr h, s1) \<Rightarrow>
          (case file_Read h 1024 s1 of
             (Inl e, s2) \<Rightarrow> (Inl e, s2)
           | (Inr bytes, s2) \<Rightarrow> (Inr bytes, s2)))"

definition getAlias :: "sys \<Rightarrow> string \<times> sys" where
  "getAlias s =
     (case os_UserHomeDir s of
        Inl e \<Rightarrow> (DefaultAlias, s)
      | Inr h \<Rightarrow>
          (case readFile (filepath_Join h SSHConfigFile) s of
             (Inl e, s1) \<Rightarrow> (DefaultAlias, s1)
           | (Inr input, s1) \<Rightarrow>
               (let match = FindStringSubmatch RegexpPattern input
                in if length match < 2 then (DefaultAlias, s1)
                   else (''github.com/'' @ match ! 1 @ ''/'', s1))))"

definition goModInit :: "tools \<Rightarrow> string \<Rightarrow> sys \<Rightarrow> error option \<times> sys" where
  "goModInit ext name s =
     (case getAlias s of
        (al, s1) \<Rightarrow>
          (let projectName = al @ name in
           case exec_Run ext [''go'', ''mod'', ''init'', projectName] s1 of
             (Some e, s2) \<Rightarrow> (Some (Errorf ''error initializing Go module: %w'' (Some e)), s2)
           | (None, s2) \<Rightarrow> (None, s2)))"

definition createFile :: "string \<Rightarrow> embed_FS \<Rightarrow> string \<Rightarrow> sys \<Rightarrow> error option \<times> sys" where
  "createFile name tfs filePath s =
     (case os_Create name s of
        (Inl e, s1) \<Rightarrow> (Some (Errorf ''error creating file: %w'' (Some e)), s1)
      | (Inr h, s1) \<Rightarrow>
          (case embed_ReadFile tfs filePath of
             Inl e \<Rightarrow> (Some (Errorf ''error reading embedded file: %w'' (Some e)), s1)
           | Inr bytes \<Rightarrow>
               (case file_Write h bytes s1 of
                  (Some e, s2) \<Rightarrow> (Some (Errorf ''error writing to file: %w'' (Some e)), s2)
                | (None, s2) \<Rightarrow> (None, s2))))"

definition createPreCommitHook :: "embed_FS \<Rightarrow> sys \<Rightarrow> error option \<times> sys" where
  "createPreCommitHook tfs s =
     (case os_Chdir ''.git/hooks'' s of
        (Some e, s1) \<Rightarrow> (Some (Errorf ''error changing to .git/hooks directory: %w'' (Some e)), s1)
      | (None, s1) \<Rightarrow>
          (case os_Create ''pre-commit'' s1 of
             (Inl e, s2) \<Rightarrow> (Some (Errorf ''error creating file: %w'' (Some e)), s2)
           | (Inr h, s2) \<Rightarrow>
               (case embed_ReadFile tfs ''templates/scripts/pre-commit'' of
                  Inl e \<Rightarrow> (Some (Errorf ''error reading embedded file: %w'' (Some e)), s2)
                | Inr bytes \<Rightarrow>
                    (case file_Write h bytes s2 of
                       (Some e, s3) \<Rightarrow> (Some (Errorf ''error writing to file: %w'' (Some e)), s3)
                     | (None, s3) \<Rightarrow>
                         (case os_Chmod ''pre-commit'' perm_0700 s3 of
                            (Some e, s4) \<Rightarrow> (Some (Errorf ''error making file executable: %w'' (Some e)), s4)
                          | (None, s4) \<Rightarrow> (None, s4))))))"

text \<open>
  A function body that is a straight line of \<^verbatim>\<open>if err := f(); err != nil { return
  fmt.Errorf(msg, err) }\<close> is kept as the list of its calls, each with its message, in
  the order of the source; \<open>run_steps\<close> runs the list as the body runs: the first call
  that returns an error ends it.
\<close>

type_synonym step = "(sys \<Rightarrow> error option \<times> sys) \<times> string"

fun run_steps :: "step list \<Rightarrow> sys \<Rightarrow> error option \<times> sys" where
  "run_steps [] s = (None, s)"
| "run_steps (st # rest) s =
     (case fst st s of
        (Some e, s1) \<Rightarrow> (Some (Errorf (snd st) (Some e)), s1)
      | (None, s1) \<Rightarrow> run_steps rest s1)"

definition createScripts :: "embed_FS \<Rightarrow> sys \<Rightarrow> error option \<times> sys" where
  "createScripts tfs s =
     (case mkdir ''scripts'' s of
        (Some e, s1) \<Rightarrow> (Some e, s1)
      | (None, s1) \<Rightarrow>
          (case createFile ''scripts/pre-commit'' tfs ''templates/scripts/pre-commit'' s1 of
             (Some e, s2) \<Rightarrow> (Some (Errorf ''error creating pre-commit file: %w'' (Some e)), s2)
           | (None, s2) \<Rightarrow>
               (case createFile ''scripts/setup.sh'' tfs ''templates/scripts/setup.sh'' s2 of
                  (Some e, s3) \<Rightarrow> (Some (Errorf ''error creating setup file: %w'' (Some e)), s3)
                | (None, s3) \<Rightarrow>
                    (case os_Chmod ''scripts/setup.sh'' perm_0700 s3 of
                       (Some e, s4) \<Rightarrow> (Some (Errorf ''error making file executable: %w'' (Some e)), s4)
                     | (None, s4) \<Rightarrow>
                         (case createFile ''scripts/cibuild.sh'' tfs ''templates/scripts/cibuild.sh'' s4 of
                            (Some e, s5) \<Rightarrow> (Some (Errorf ''error creating cibuild file: %w'' (Some e)), s5)
                          | (None, s5) \<Rightarrow>
                              (case os_Chmod ''scripts/cibuild.sh'' perm_0700 s5 of
                                 (Some e, s6) \<Rightarrow> (Some (Errorf ''error making file executable: %w'' (Some e)), s6)
                               | (None, s6) \<Rightarrow> (None, s6)))))))"

definition createProjectFiles_steps :: "tools \<Rightarrow> embed_FS \<Rightarrow> string \<Rightarrow> step list" where
  "createProjectFiles_steps ext tfs projectName =
     [(os_Chdir projectName, ''error changing to project directory: %w''),
      (initRepo ext, ''error initializing repository: %w''),
      (goModInit ext projectName, ''error initializing Go module: %w''),
      (createFile ''.golintci.yml'' tfs ''templates/.golangci.yml'', ''error creating linting configuration file: %w''),
      (createFile ''.gitignore'' tfs ''templates/.gitignore'', ''error creating .gitignore file: %w''),
      (createFile ''Makefile'' tfs ''templates/Makefile'', ''error creating .gitignore file: %w''),
      (createScripts tfs, ''error creating scripts: %w''),
      (createPreCommitHook tfs, ''error creating pre-commit hook: %w'')]"

definition createProjectFiles :: "tools \<Rightarrow> embed_FS \<Rightarrow> string \<Rightarrow> sys \<Rightarrow> error option \<times> sys" where
  "createProjectFiles ext tfs projectName = run_steps (createProjectFiles_steps ext tfs projectName)"

text \<open>
  \<open>main\<close> gets the value of the flag \<open>-d\<close> (\<open>None\<close> when the flag is absent) and ends with
  status 0 (\<open>Exit0\<close>) or in \<open>log.Fatal\<close>, which prints its arguments and exits with
  status 1.
\<close>

datatype exit = Exit0 | Fatal string "error option"

definition flag_d :: "string option \<Rightarrow> string" where
  "flag_d d = (case d of None \<Rightarrow> DefaultProjectName | Some v \<Rightarrow> v)"

definition main :: "tools \<Rightarrow> embed_FS \<Rightarrow> string option \<Rightarrow> sys \<Rightarrow> exit \<times> sys" where
  "main ext tfs d s =
     (case exec_Run ext [''go'', ''version''] s of
        (Some e, s1) \<Rightarrow> (Fatal [] (Some e), s1)
      | (None, s1) \<Rightarrow>
          (let projectName = flag_d d in
           case mkdir projectName s1 of
             (Some e, s2) \<Rightarrow> (Fatal [] (Some e), s2)
           | (None, s2) \<Rightarrow>
               (case createProjectFiles ext tfs projectName s2 of
                  (Some e, s3) \<Rightarrow> (Fatal [] (Some e), s3)
                | (None, s3) \<Rightarrow> (Exit0, s3))))"

section \<open>The third program of \<open>src/main.go\<close>\<close>

text \<open>
  \<open>src/main.go\<close> holds three programs, one after the other. The third one is the
  refactoring of \<open>part_000\<close>: its \<open>getAlias\<close>, \<open>readFile\<close> and \<open>createFile\<close> are those of
  \<open>part_000\<close> word for word (with the constants named), so the definitions above stand
  for both. What differs is below, under the source's names with the suffix \<open>_v3\<close>
  where \<open>part_000\<close> has the name already.
\<close>

definition GolintciTemplate :: string where "GolintciTemplate = ''templates/.golangci.yml''"
definition GoreleaserTemplate :: string where "GoreleaserTemplate = ''templates/.goreleaser.yml''"
definition GitignoreTemplate :: string where "GitignoreTemplate = ''templates/.gitignore''"
definition MakefileTemplate :: string where "MakefileTemplate = ''templates/Makefile''"
definition ReleaserTemplate :: string where "ReleaserTemplate = ''templates/releaser.yml''"
definition PreCommitHookTemplate :: string where "PreCommitHookTemplate = ''templates/scripts/pre-commit''"
definition PreCommitScriptTemplate :: string where "PreCommitScriptTemplate = ''templates/scripts/pre-commit''"
definition SetupScriptTemplate :: string where "SetupScriptTemplate = ''templates/scripts/setup.sh''"
definition CIBuildScriptTemplate :: string where "CIBuildScriptTemplate = ''templates/scripts/cibuild.sh''"
definition GolintciFile :: string where "GolintciFile = ''.golintci.yml''"
definition GoreleaserFile :: string where "GoreleaserFile = ''.goreleaser.yml''"
definition GitignoreFile :: string where "GitignoreFile = ''.gitignore''"
definition GithubDir :: string where "GithubDir = ''.github''"
definition WorkflowsDir :: string where "WorkflowsDir = ''.github/workflows''"
definition ReleaserFile :: string where "ReleaserFile = ''.github/workflows/releaser.yml''"
definition GitHooksDir :: string where "GitHooksDir = ''.git/hooks''"
definition ScriptsDir :: string where "ScriptsDir = ''scripts''"
definition PreCommitScriptFile :: string where "PreCommitScriptFile = ''scripts/pre-commit''"
definition SetupScriptFile :: string where "SetupScriptFile = ''scripts/setup.sh''"
definition CIBuildScriptFile :: string where "CIBuildScriptFile = ''scripts/cibuild.sh''"
definition PreCommitHookFile :: string where "PreCommitHookFile = ''pre-commit''"
definition Makefile :: string where "Makefile = ''Makefile''"

definition isGoInstalled :: "tools \<Rightarrow> sys \<Rightarrow> bool \<times> sys" where
  "isGoInstalled ext s = (case exec_Run ext [''go'', ''version''] s of (e, s1) \<Rightarrow> (e = None, s1))"

definition mkdir_v3 :: "string \<Rightarrow> sys \<Rightarrow> error option \<times> sys" where
  "mkdir_v3 name s =
     (case os_Stat name s of
        (Inr nd, s1) \<Rightarrow> (Some (Errorf ''folder already exists: %w'' None), s1)
      | (Inl e0, s1) \<Rightarrow>
          (case os_Getwd s1 of
             (Inl e, s2) \<Rightarrow> (Some (Errorf ''error getting current working directory: %w'' (Some e)), s2)
           | (Inr pwd, s2) \<Rightarrow>
               (case os_Mkdir (filepath_Join pwd name) ModePerm s2 of
                  (Some e, s3) \<Rightarrow> (Some (Errorf ''error creating folder: %w'' (Some e)), s3)
                | (None, s3) \<Rightarrow> (None, s3))))"

definition runCommand :: "tools \<Rightarrow> string list \<Rightarrow> sys \<Rightarrow> error option \<times> sys" where
  "runCommand ext argv s = exec_Run ext argv s"

definition goModInit_v3 :: "tools \<Rightarrow> string \<Rightarrow> sys \<Rightarrow> error option \<times> sys" where
  "goModInit_v3 ext name s =
     (case getAlias s of
        (al, s1) \<Rightarrow> (let projectName = al @ name in runCommand ext [''go'', ''mod'', ''init'', projectName] s1))"

definition createExecutableFile :: "string \<Rightarrow> embed_FS \<Rightarrow> string \<Rightarrow> sys \<Rightarrow> error option \<times> sys" where
  "createExecutableFile name tfs filePath s =
     (case createFile name tfs filePath s of
        (Some e, s1) \<Rightarrow> (Some e, s1)
      | (None, s1) \<Rightarrow>
          (case os_Chmod name perm_0700 s1 of
             (Some e, s2) \<Rightarrow> (Some (Errorf (''error making '' @ name @ '' executable: %w'') (Some e)), s2)
           | (None, s2) \<Rightarrow> (None, s2)))"

definition createPreCommitHook_v3 :: "embed_FS \<Rightarrow> sys \<Rightarrow> error option \<times> sys" where
  "createPreCommitHook_v3 tfs =
     run_steps
       [(os_Chdir GitHooksDir, ''error changing to '' @ GitHooksDir @ '' directory: %w''),
        (createExecutableFile PreCommitHookFile tfs PreCommitHookTemplate,
         ''error creating '' @ PreCommitHookFile @ '': %w'')]"

definition createGithubAction :: "embed_FS \<Rightarrow> sys \<Rightarrow> error option \<times> sys" where
  "createGithubAction tfs =
     (let dirsToCreate = [GithubDir, WorkflowsDir] in
      run_steps
        (map (\<lambda>dir. (mkdir_v3 dir, ''error creating '' @ dir @ '': %w'')) dirsToCreate
         @ [(createFile ReleaserFile tfs ReleaserTemplate, ''error creating '' @ ReleaserFile @ '': %w'')]))"

definition createScripts_v3 :: "embed_FS \<Rightarrow> sys \<Rightarrow> error option \<times> sys" where
  "createScripts_v3 tfs s =
     (case mkdir_v3 ScriptsDir s of
        (Some e, s1) \<Rightarrow> (Some e, s1)
      | (None, s1) \<Rightarrow>
          (let filesToCreate =
                 [(PreCommitScriptFile, PreCommitScriptTemplate),
                  (SetupScriptFile, SetupScriptTemplate),
                  (CIBuildScriptFile, CIBuildScriptTemplate)]
           in run_steps
                (map (\<lambda>(name, template). (createExecutableFile name tfs template, ''error creating '' @ name @ '': %w''))
                   filesToCreate) s1))"

definition createProjectFiles_v3_steps :: "tools \<Rightarrow> embed_FS \<Rightarrow> string \<Rightarrow> step list" where
  "createProjectFiles_v3_steps ext tfs projectName =
     (let filesToCreate =
            [(GolintciFile, GolintciTemplate),
             (GoreleaserFile, GoreleaserTemplate),
             (GitignoreFile, GitignoreTemplate),
             (Makefile, MakefileTemplate)]
      in [(os_Chdir projectName, ''error changing to project directory: %w''),
          (runCommand ext [''git'', ''init''], ''error initializing repository: %w''),
          (goModInit_v3 ext projectName, ''error initializing Go module: %w'')]
         @ map (\<lambda>(name, template). (createFile name tfs template, ''error creating '' @ name @ '': %w''))
             filesToCreate
         @ [(createScripts_v3 tfs, ''error creating scripts: %w''),
            (createGithubAction tfs, ''error creating github actions: %w''),
            (createPreCommitHook_v3 tfs, ''error creating pre-commit hook: %w'')])"

definition createProjectFiles_v3 :: "tools \<Rightarrow> embed_FS \<Rightarrow> string \<Rightarrow> sys \<Rightarrow> error option \<times> sys" where
  "createProjectFiles_v3 ext tfs projectName = run_steps (createProjectFiles_v3_steps ext tfs projectName)"

definition main_v3 :: "tools \<Rightarrow> embed_FS \<Rightarrow> string option \<Rightarrow> sys \<Rightarrow> exit \<times> sys" where
  "main_v3 ext tfs d s =
     (case isGoInstalled ext s of
        (False, s1) \<Rightarrow> (Fatal ''Go is not installed.'' None, s1)
      | (True, s1) \<Rightarrow>
          (let projectName = flag_d d in
           case mkdir_v3 projectName s1 of
             (Some e, s2) \<Rightarrow> (Fatal ''Error creating directory: '' (Some e), s2)
           | (None, s2) \<Rightarrow>
               (case createProjectFiles_v3 ext tfs projectName s2 of
                  (Some e, s3) \<Rightarrow> (Fatal ''Error creating project files: '' (Some e), s3)
                | (None, s3) \<Rightarrow> (Exit0, s3))))"

section \<open>The first two programs of \<open>src/main.go\<close>\<close>

text \<open>
  Both embed three one-file stores, \<open>linting\<close>, \<open>hook\<close> and \<open>gitignore\<close>, and neither has an
  alias resolver, a preflight check, a build file or a scripts directory.

  In the first program \<open>mkdir\<close>, \<open>initRepo\<close> and \<open>createFile\<close> are those of \<open>part_000\<close> word
  for word; the rest is below with the suffix \<open>_v1\<close>.
\<close>

definition goModInit_v1 :: "tools \<Rightarrow> string \<Rightarrow> sys \<Rightarrow> error option \<times> sys" where
  "goModInit_v1 ext name s =
     (case exec_Run ext [''go'', ''mod'', ''init'', name] s of
        (Some e, s1) \<Rightarrow> (Some (Errorf ''error initializing Go module: %w'' (Some e)), s1)
      | (None, s1) \<Rightarrow> (None, s1))"

definition createPreCommitHook_v1 :: "embed_FS \<Rightarrow> sys \<Rightarrow> error option \<times> sys" where
  "createPreCommitHook_v1 hook s =
     (case os_Chdir ''.git/hooks'' s of
        (Some e, s1) \<Rightarrow> (Some (Errorf ''error changing to .git/hooks directory: %w'' (Some e)), s1)
      | (None, s1) \<Rightarrow>
          (case os_Create ''pre-commit'' s1 of
             (Inl e, s2) \<Rightarrow> (Some (Errorf ''error creating file: %w'' (Some e)), s2)
           | (Inr h, s2) \<Rightarrow>
               (case embed_ReadFile hook ''pre-commit.sh'' of
                  Inl e \<Rightarrow> (Some (Errorf ''error reading embedded file: %w'' (Some e)), s2)
                | Inr bytes \<Rightarrow>
                    (case file_Write h bytes s2 of
                       (Some e, s3) \<Rightarrow> (Some (Errorf ''error writing to file: %w'' (Some e)), s3)
                     | (None, s3) \<Rightarrow>
                         (case os_Chmod ''pre-commit'' perm_0700 s3 of
                            (Some e, s4) \<Rightarrow> (Some (Errorf ''error making file executable: %w'' (Some e)), s4)
                          | (None, s4) \<Rightarrow> (None, s4))))))"

definition createProjectFiles_v1_steps :: "tools \<Rightarrow> embed_FS \<Rightarrow> embed_FS \<Rightarrow> embed_FS \<Rightarrow> string \<Rightarrow> step list" where
  "createProjectFiles_v1_steps ext linting hook gitignore projectName =
     [(os_Chdir projectName, ''error changing to project directory: %w''),
      (initRepo ext, ''error initializing repository: %w''),
      (goModInit_v1 ext projectName, ''error initializing Go module: %w''),
      (createFile ''.golintci.yml'' linting ''.golangci.yml'', ''error creating linting configuration file: %w''),
      (createFile ''.gitignore'' gitignore ''.gitignore'', ''error creating .gitignore file: %w''),
      (createPreCommitHook_v1 hook, ''error creating pre-commit hook: %w'')]"

definition createProjectFiles_v1 :: "tools \<Rightarrow> embed_FS \<Rightarrow> embed_FS \<Rightarrow> embed_FS \<Rightarrow> string \<Rightarrow> sys \<Rightarrow> error option \<times> sys" where
  "createProjectFiles_v1 ext linting hook gitignore projectName =
     run_steps (createProjectFiles_v1_steps ext linting hook gitignore projectName)"

definition main_v1 :: "tools \<Rightarrow> embed_FS \<Rightarrow> embed_FS \<Rightarrow> embed_FS \<Rightarrow> string option \<Rightarrow> sys \<Rightarrow> exit \<times> sys" where
  "main_v1 ext linting hook gitignore d s =
     (let projectName = flag_d d in
      case mkdir projectName s of
        (Some e, s1) \<Rightarrow> (Fatal [] (Some e), s1)
      | (None, s1) \<Rightarrow>
          (case createProjectFiles_v1 ext linting hook gitignore projectName s1 of
             (Some e, s2) \<Rightarrow> (Fatal [] (Some e), s2)
           | (None, s2) \<Rightarrow> (Exit0, s2)))"

text \<open>
  The second program. Its \<open>mkdir\<close> ends the process itself when \<open>os.Getwd\<close> fails (\<open>Inl\<close>);
  otherwise it returns (\<open>Inr\<close>). Its \<open>main\<close> is a straight line of calls, each followed by
  \<^verbatim>\<open>if err != nil { log.Fatal(err) }\<close>; \<open>run_or_fatal\<close> runs such a line.
\<close>

definition mkdir_v2 :: "string \<Rightarrow> sys \<Rightarrow> (exit + error option) \<times> sys" where
  "mkdir_v2 name s =
     (case os_Stat name s of
        (Inr nd, s1) \<Rightarrow> (Inr (Some (Errorf ''project already exist: %w'' None)), s1)
      | (Inl e0, s1) \<Rightarrow>
          (case os_Getwd s1 of
             (Inl e, s2) \<Rightarrow> (Inl (Fatal [] (Some e)), s2)
           | (Inr pwd, s2) \<Rightarrow>
               (case os_Mkdir (filepath_Join pwd name) ModePerm s2 of
                  (Some e, s3) \<Rightarrow> (Inr (Some (Errorf ''error creating folder: %w'' (Some e))), s3)
                | (None, s3) \<Rightarrow> (Inr None, s3))))"

definition initRepo_v2 :: "tools \<Rightarrow> sys \<Rightarrow> error option \<times> sys" where
  "initRepo_v2 ext s =
     (case exec_Run ext [''git'', ''init''] s of
        (Some e, s1) \<Rightarrow> (Some (Errorf ''error git init: %w'' (Some e)), s1)
      | (None, s1) \<Rightarrow> (None, s1))"

definition goModInit_v2 :: "tools \<Rightarrow> string \<Rightarrow> sys \<Rightarrow> error option \<times> sys" where
  "goModInit_v2 ext name s =
     (case exec_Run ext [''go'', ''mod'', ''init'', name] s of
        (Some e, s1) \<Rightarrow> (Some (Errorf ''error init go module: %w'' (Some e)), s1)
      | (None, s1) \<Rightarrow> (None, s1))"

definition createLintConfig :: "embed_FS \<Rightarrow> sys \<Rightarrow> error option \<times> sys" where
  "createLintConfig linting s =
     (case os_Create ''.golintci.yml'' s of
        (Inl e, s1) \<Rightarrow> (Some (Errorf ''error creating file: %w'' (Some e)), s1)
      | (Inr h, s1) \<Rightarrow>
          (case embed_ReadFile linting ''.golangci.yml'' of
             Inl e \<Rightarrow> (Some (Errorf ''error: %w'' (Some e)), s1)
           | Inr bytes \<Rightarrow>
               (case file_Write h bytes s1 of
                  (Some e, s2) \<Rightarrow> (Some (Errorf ''error: %w'' (Some e)), s2)
                | (None, s2) \<Rightarrow> (None, s2))))"

definition createGitIgnore :: "embed_FS \<Rightarrow> sys \<Rightarrow> error option \<times> sys" where
  "createGitIgnore gitignore s =
     (case os_Create ''.gitignore'' s of
        (Inl e, s1) \<Rightarrow> (Some (Errorf ''error creating file: %w'' (Some e)), s1)
      | (Inr h, s1) \<Rightarrow>
          (case embed_ReadFile gitignore ''.gitignore'' of
             Inl e \<Rightarrow> (Some (Errorf ''error: %w'' (Some e)), s1)
           | Inr bytes \<Rightarrow>
               (case file_Write h bytes s1 of
                  (Some e, s2) \<Rightarrow> (Some (Errorf ''error: %w'' (Some e)), s2)
                | (None, s2) \<Rightarrow> (None, s2))))"

definition createPreCommitHook_v2 :: "embed_FS \<Rightarrow> sys \<Rightarrow> error option \<times> sys" where
  "createPreCommitHook_v2 hook s =
     (case os_Chdir ''.git/hooks'' s of
        (Some e, s1) \<Rightarrow> (Some (Errorf ''error cd into git: %w'' (Some e)), s1)
      | (None, s1) \<Rightarrow>
          (case os_Create ''pre-commit'' s1 of
             (Inl e, s2) \<Rightarrow> (Some (Errorf ''error creating file: %w'' (Some e)), s2)
           | (Inr h, s2) \<Rightarrow>
               (case embed_ReadFile hook ''pre-commit.sh'' of
                  Inl e \<Rightarrow> (Some (Errorf ''error: %w'' (Some e)), s2)
                | Inr bytes \<Rightarrow>
                    (case file_Write h bytes s2 of
                       (Some e, s3) \<Rightarrow> (Some (Errorf ''error: %w'' (Some e)), s3)
                     | (None, s3) \<Rightarrow> (None, s3)))))"

fun run_or_fatal :: "(sys \<Rightarrow> error option \<times> sys) list \<Rightarrow> sys \<Rightarrow> exit \<times> sys" where
  "run_or_fatal [] s = (Exit0, s)"
| "run_or_fatal (f # rest) s =
     (case f s of
        (Some e, s1) \<Rightarrow> (Fatal [] (Some e), s1)
      | (None, s1) \<Rightarrow> run_or_fatal rest s1)"

definition main_v2 :: "tools \<Rightarrow> embed_FS \<Rightarrow> embed_FS \<Rightarrow> embed_FS \<Rightarrow> string option \<Rightarrow> sys \<Rightarrow> exit \<times> sys" where
  "main_v2 ext linting hook gitignore d s =
     (let projectName = (case d of None \<Rightarrow> ''new_project'' | Some v \<Rightarrow> v) in
      case mkdir_v2 projectName s of
        (Inl ex, s1) \<Rightarrow> (ex, s1)
      | (Inr (Some e), s1) \<Rightarrow> (Fatal [] (Some e), s1)
      | (Inr None, s1) \<Rightarrow>
          run_or_fatal
            [os_Chdir projectName,
             initRepo_v2 ext,
             goModInit_v2 ext projectName,
             createLintConfig linting,
             createPreCommitHook_v2 hook,
             createGitIgnore gitignore] s1)"

section \<open>A machine to run the programs on\<close>

text \<open>
  \<open>demo_tools\<close> is a \<open>git\<close> that creates \<open>.git\<close> and \<open>.git/hooks\<close> in the working directory
  and a \<open>go\<close> that writes \<open>go.mod\<close> there; any other command fails and changes nothing.
  \<open>demo_sys\<close> is a machine with an empty directory \<open>/work\<close> as working directory, umask
  022 and no \<open>HOME\<close>; \<open>ssh_sys cfg\<close> is the same machine with \<open>HOME=/home/u\<close> and the bytes
  \<open>cfg\<close> in \<open>/home/u/.ssh/config\<close>, a file of mode 600 in a directory of mode 700;
  \<open>locked_sys cfg\<close> is \<open>ssh_sys cfg\<close> after \<open>chmod 000\<close> on that file. Modes are written in
  decimal: 493 is octal 755, 448 is 700, 420 is 644, 384 is 600, and the umask 18 is 022.
\<close>

definition demo_tools :: tools where
  "demo_tools argv dir f =
     (if argv = [''go'', ''version''] then (True, f)
      else if argv = [''git'', ''init''] then
        (True, f(dir @ [''.git''] \<mapsto> Dir 493, dir @ [''.git'', ''hooks''] \<mapsto> Dir 493))
      else if take 3 argv = [''go'', ''mod'', ''init''] \<and> length argv = 4 then
        (True, f(dir @ [''go.mod''] \<mapsto> File 420 (''module '' @ argv ! 3)))
      else (False, f))"

definition no_tools :: tools where
  \<comment> \<open>a machine with neither \<open>git\<close> nor \<open>go\<close> installed\<close>
  "no_tools argv dir f = (False, f)"

definition demo_tfs :: embed_FS where
  "demo_tfs =
     [''templates/.golangci.yml'' \<mapsto> ''lint'',
      ''templates/.goreleaser.yml'' \<mapsto> ''goreleaser'',
      ''templates/.gitignore'' \<mapsto> ''ignore'',
      ''templates/Makefile'' \<mapsto> ''make'',
      ''templates/releaser.yml'' \<mapsto> ''workflow'',
      ''templates/scripts/pre-commit'' \<mapsto> ''hook'',
      ''templates/scripts/setup.sh'' \<mapsto> ''setup'',
      ''templates/scripts/cibuild.sh'' \<mapsto> ''cibuild'']"

definition demo_linting :: embed_FS where
  "demo_linting = [''.golangci.yml'' \<mapsto> ''lint'']"

definition demo_hook :: embed_FS where
  "demo_hook = [''pre-commit.sh'' \<mapsto> ''hook'']"

definition demo_gitignore :: embed_FS where
  "demo_gitignore = [''.gitignore'' \<mapsto> ''ignore'']"

definition demo_sys :: sys where
  "demo_sys =
     \<lparr>fs = [[] \<mapsto> Dir 493, [''work''] \<mapsto> Dir 493],
      cwd = [''work''], umask = 18, home = None, trace = []\<rparr>"

definition ssh_sys :: "string \<Rightarrow> sys" where
  "ssh_sys cfg =
     \<lparr>fs = [[] \<mapsto> Dir 493, [''work''] \<mapsto> Dir 493, [''home''] \<mapsto> Dir 493,
            [''home'', ''u''] \<mapsto> Dir 493, [''home'', ''u'', ''.ssh''] \<mapsto> Dir 448,
            [''home'', ''u'', ''.ssh'', ''config''] \<mapsto> File 384 cfg],
      cwd = [''work''], umask = 18, home = Some [''home'', ''u''], trace = []\<rparr>"

definition locked_sys :: "string \<Rightarrow> sys" where
  "locked_sys cfg =
     (ssh_sys cfg)\<lparr>fs := (fs (ssh_sys cfg))([''home'', ''u'', ''.ssh'', ''config''] \<mapsto> File 0 cfg)\<rparr>"

definition git_only_tools :: tools where
  \<comment> \<open>a machine where \<open>git\<close> works and every \<open>go\<close> command fails\<close>
  "git_only_tools argv dir f = (if argv = [''git'', ''init''] then demo_tools argv dir f else (False, f))"


definition made_sys :: sys where
  \<comment> \<open>\<open>demo_sys\<close> after \<open>mkdir\<close> has created \<open>/work/demo\<close>\<close>
  "made_sys = snd (mkdir ''demo'' demo_sys)"

section \<open>Notions the properties are stated with\<close>

subsection \<open>Names\<close>

definition plain :: "string \<Rightarrow> bool" where
  \<comment> \<open>a name that is one path component: the valid project names\<close>
  "plain c \<longleftrightarrow> c \<noteq> [] \<and> c \<noteq> ''.'' \<and> c \<noteq> ''..'' \<and> CHR ''/'' \<notin> set c"

definition simple :: "string \<Rightarrow> bool" where
  \<comment> \<open>a relative name made of ordinary components, as every name in the source is\<close>
  "simple name \<longleftrightarrow> name \<noteq> [] \<and> hd name \<noteq> CHR ''/''
     \<and> (\<forall>c \<in> set (splitOn (CHR ''/'') name). c \<noteq> [] \<and> c \<noteq> ''.'' \<and> c \<noteq> ''..'')"

definition comps :: "string \<Rightarrow> string list" where
  \<comment> \<open>the components of a name\<close>
  "comps name = splitOn (CHR ''/'') name"

definition fresh :: "sys \<Rightarrow> string \<Rightarrow> bool" where
  \<comment> \<open>nothing exists at or below the name in the working directory\<close>
  "fresh s n \<longleftrightarrow> (\<forall>p. prefix (cwd s @ [n]) p \<longrightarrow> fs s p = None)"

subsection \<open>Traces and trees\<close>

definition grows :: "(sys \<Rightarrow> 'a \<times> sys) \<Rightarrow> bool" where
  \<comment> \<open>a function only adds calls to the trace\<close>
  "grows f \<longleftrightarrow> (\<forall>s. prefix (trace s) (trace (snd (f s))))"

fun execs :: "event list \<Rightarrow> string list list" where
  \<comment> \<open>the external commands of a trace, in order\<close>
  "execs [] = []"
| "execs (EvExec argv # t) = argv # execs t"
| "execs (e # t) = execs t"

definition no_loss :: "sys \<Rightarrow> sys \<Rightarrow> bool" where
  \<comment> \<open>every entry of the first tree is an entry of the second\<close>
  "no_loss s s' \<longleftrightarrow> dom (fs s) \<subseteq> dom (fs s')"

definition keeps :: "(sys \<Rightarrow> 'a \<times> sys) \<Rightarrow> bool" where
  \<comment> \<open>a function removes no entry\<close>
  "keeps f \<longleftrightarrow> (\<forall>s. no_loss s (snd (f s)))"

definition new_mode :: "(path \<rightharpoonup> node) \<Rightarrow> path \<Rightarrow> perm \<Rightarrow> perm" where
  \<comment> \<open>the mode of a file after \<open>os.Create\<close>: kept when the file was there, 0666 less the umask otherwise\<close>
  "new_mode f p um =
     (case f p of
        Some (File m b) \<Rightarrow> m
      | Some (Dir m) \<Rightarrow> perm_0666 AND NOT um
      | None \<Rightarrow> perm_0666 AND NOT um)"

subsection \<open>What is assumed of the external programs\<close>

definition keeps_entries :: "tools \<Rightarrow> bool" where
  \<comment> \<open>the external programs delete nothing\<close>
  "keeps_entries ext \<longleftrightarrow> (\<forall>argv dir f p. f p \<noteq> None \<longrightarrow> snd (ext argv dir f) p \<noteq> None)"

definition tools_confined :: "tools \<Rightarrow> bool" where
  \<comment> \<open>\<open>go version\<close> writes nothing, \<open>git init\<close> writes under \<open>.git\<close> of the working directory
      only, \<open>go mod init\<close> writes \<open>go.mod\<close> there only\<close>
  "tools_confined ext \<longleftrightarrow>
     (\<forall>dir f. snd (ext [''go'', ''version''] dir f) = f)
     \<and> (\<forall>dir f p. snd (ext [''git'', ''init''] dir f) p \<noteq> f p \<longrightarrow> prefix (dir @ [''.git'']) p)
     \<and> (\<forall>nm dir f p. snd (ext [''go'', ''mod'', ''init'', nm] dir f) p \<noteq> f p \<longrightarrow> p = dir @ [''go.mod''])"

definition own_area :: "path \<Rightarrow> bool" where
  \<comment> \<open>the paths under the project root that such programs leave alone\<close>
  "own_area rel \<longleftrightarrow> rel \<noteq> [''go.mod''] \<and> \<not> prefix [''.git''] rel"

subsection \<open>The block of the SSH configuration\<close>

definition user_block :: "string \<Rightarrow> string \<Rightarrow> bool" where
  \<comment> \<open>the spec's well-formed block, as the pattern reads it: \<open>t\<close> starts with \<open>Host github.com\<close>,
      a newline, whitespace, \<open>User\<close>, a space and the name \<open>u\<close>, all of the word characters there\<close>
  "user_block t u \<longleftrightarrow>
     (\<exists>ws rest. t = ''Host github.com'' @ [CHR 0x0A] @ ws @ ''User '' @ u @ rest
        \<and> ws \<noteq> [] \<and> (\<forall>c \<in> set ws. is_space c)
        \<and> u \<noteq> [] \<and> (\<forall>c \<in> set u. is_word c)
        \<and> (rest = [] \<or> \<not> is_word (hd rest)))"

definition block_at :: "string \<Rightarrow> nat \<Rightarrow> string \<Rightarrow> bool" where
  \<comment> \<open>a well-formed block for the user \<open>u\<close> starts at offset \<open>i\<close> of the text\<close>
  "block_at cfg i u \<longleftrightarrow> i \<le> length cfg \<and> user_block (drop i cfg) u"

subsection \<open>The trees a run is to leave\<close>

text \<open>
  Each list gives, by path under the project root, the entries one program writes
  outside \<open>.git\<close> and \<open>go.mod\<close>: for \<open>part_000\<close> (with the mode of \<open>scripts/pre-commit\<close> as a
  parameter), for the first and for the third program of \<open>main.go\<close>.
\<close>

definition template_of :: "embed_FS \<Rightarrow> string \<Rightarrow> string" where
  \<comment> \<open>the bytes of a template\<close>
  "template_of tfs k = (case tfs k of None \<Rightarrow> [] | Some b \<Rightarrow> b)"

definition scaffold :: "embed_FS \<Rightarrow> perm \<Rightarrow> perm \<Rightarrow> (path \<times> node) list" where
  "scaffold tfs um m =
     [([], Dir (ModePerm AND NOT um)),
      ([''.golintci.yml''], File (perm_0666 AND NOT um) (template_of tfs ''templates/.golangci.yml'')),
      ([''.gitignore''], File (perm_0666 AND NOT um) (template_of tfs ''templates/.gitignore'')),
      ([''Makefile''], File (perm_0666 AND NOT um) (template_of tfs ''templates/Makefile'')),
      ([''scripts''], Dir (ModePerm AND NOT um)),
      ([''scripts'', ''pre-commit''], File m (template_of tfs ''templates/scripts/pre-commit'')),
      ([''scripts'', ''setup.sh''], File perm_0700 (template_of tfs ''templates/scripts/setup.sh'')),
      ([''scripts'', ''cibuild.sh''], File perm_0700 (template_of tfs ''templates/scripts/cibuild.sh''))]"

definition scaffold_v1 :: "embed_FS \<Rightarrow> embed_FS \<Rightarrow> perm \<Rightarrow> (path \<times> node) list" where
  "scaffold_v1 linting gitignore um =
     [([], Dir (ModePerm AND NOT um)),
      ([''.golintci.yml''], File (perm_0666 AND NOT um) (template_of linting ''.golangci.yml'')),
      ([''.gitignore''], File (perm_0666 AND NOT um) (template_of gitignore ''.gitignore''))]"

definition scaffold_v3 :: "embed_FS \<Rightarrow> perm \<Rightarrow> (path \<times> node) list" where
  "scaffold_v3 tfs um =
     [([], Dir (ModePerm AND NOT um)),
      ([''.golintci.yml''], File (perm_0666 AND NOT um) (template_of tfs ''templates/.golangci.yml'')),
      ([''.goreleaser.yml''], File (perm_0666 AND NOT um) (template_of tfs ''templates/.goreleaser.yml'')),
      ([''.gitignore''], File (perm_0666 AND NOT um) (template_of tfs ''templates/.gitignore'')),
      ([''Makefile''], File (perm_0666 AND NOT um) (template_of tfs ''templates/Makefile'')),
      ([''scripts''], Dir (ModePerm AND NOT um)),
      ([''scripts'', ''pre-commit''], File perm_0700 (template_of tfs ''templates/scripts/pre-commit'')),
      ([''scripts'', ''setup.sh''], File perm_0700 (template_of tfs ''templates/scripts/setup.sh'')),
      ([''scripts'', ''cibuild.sh''], File perm_0700 (template_of tfs ''templates/scripts/cibuild.sh'')),
      ([''.github''], Dir (ModePerm AND NOT um)),
      ([''.github'', ''workflows''], Dir (ModePerm AND NOT um)),
      ([''.github'', ''workflows'', ''releaser.yml''],
         File (perm_0666 AND NOT um) (template_of tfs ''templates/releaser.yml''))]"

section \<open>Paths and names\<close>

lemma splitOn_no_sep: "d \<notin> set s \<Longrightarrow> splitOn d s = [s]"
  by (induction s) auto

lemma splitOn_plain: "plain n \<Longrightarrow> splitOn (CHR ''/'') n = [n]"
  by (simp add: plain_def splitOn_no_sep)


lemma filepath_Join_plain: "plain n \<Longrightarrow> filepath_Join dir n = dir @ [n]"
  by (simp add: filepath_Join_def splitOn_plain) (simp add: clean_step_def plain_def)



lemma pair_fstI: "fst x = a \<Longrightarrow> x = (a, snd x)"
  by (cases x) simp

lemma filepath_Join_ssh: "filepath_Join h SSHConfigFile = h @ [''.ssh'', ''config'']"
  by (simp add: filepath_Join_def SSHConfigFile_def clean_step_def)

section \<open>Every call is recorded, in order\<close>

lemma os_Stat_trace: "trace (snd (os_Stat name s)) = trace s @ [EvStat name]"
  by (simp add: os_Stat_def record_ev_def split: sum.splits option.splits)

lemma os_Getwd_trace: "trace (snd (os_Getwd s)) = trace s @ [EvGetwd]"
  by (simp add: os_Getwd_def record_ev_def split: option.splits node.splits)

lemma os_Mkdir_trace: "trace (snd (os_Mkdir p m s)) = trace s @ [EvMkdir p m]"
  by (simp add: os_Mkdir_def record_ev_def Let_def split: option.splits)

lemma os_Chdir_trace: "trace (snd (os_Chdir name s)) = trace s @ [EvChdir name]"
  by (simp add: os_Chdir_def record_ev_def Let_def split: sum.splits option.splits node.splits)

lemma os_Create_trace: "trace (snd (os_Create name s)) = trace s @ [EvCreate name]"
  by (simp add: os_Create_def record_ev_def Let_def split: sum.splits option.splits node.splits)

lemma file_Write_trace: "trace (snd (file_Write h b s)) = trace s @ [EvWrite h b]"
  by (simp add: file_Write_def record_ev_def Let_def split: option.splits node.splits)

lemma os_Chmod_trace: "trace (snd (os_Chmod name m s)) = trace s @ [EvChmod name m]"
  by (simp add: os_Chmod_def record_ev_def Let_def split: sum.splits option.splits)

lemma os_Open_trace: "trace (snd (os_Open p s)) = trace s @ [EvOpen p]"
  by (simp add: os_Open_def record_ev_def Let_def split: option.splits)

lemma file_Read_trace: "trace (snd (file_Read h n s)) = trace s @ [EvRead h n]"
  by (simp add: file_Read_def record_ev_def Let_def split: option.splits node.splits)

lemma exec_Run_trace: "trace (snd (exec_Run ext argv s)) = trace s @ [EvExec argv]"
  by (simp add: exec_Run_def record_ev_def Let_def)

lemmas prim_trace = os_Stat_trace os_Getwd_trace os_Mkdir_trace os_Chdir_trace os_Create_trace
  file_Write_trace os_Chmod_trace os_Open_trace file_Read_trace exec_Run_trace

lemma growsD: "grows f \<Longrightarrow> f s = (r, s') \<Longrightarrow> prefix (trace s) (trace s')"
  by (metis grows_def snd_conv)

lemma grows_prim:
  "grows (os_Stat name)" "grows os_Getwd" "grows (os_Mkdir p m)" "grows (os_Chdir name)"
  "grows (os_Create name)" "grows (file_Write h b)" "grows (os_Chmod name m)" "grows (os_Open p)"
  "grows (file_Read h n)" "grows (exec_Run ext argv)"
  by (simp_all add: grows_def prim_trace)

lemma mkdir_grows: "grows (mkdir name)"
  unfolding grows_def mkdir_def
  by (auto split: prod.splits sum.splits option.splits dest!: grows_prim[THEN growsD])

lemma run_steps_grows: "(\<forall>st \<in> set steps. grows (fst st)) \<Longrightarrow> grows (run_steps steps)"
  unfolding grows_def
proof (induction steps)
  case Nil
  then show ?case by simp
next
  case (Cons st rest)
  show ?case
  proof
    fix s
    obtain r s1 where f: "fst st s = (r, s1)" by (cases "fst st s")
    have p1: "prefix (trace s) (trace s1)" using Cons.prems f by (metis list.set_intros(1) snd_conv)
    have p2: "prefix (trace s1) (trace (snd (run_steps rest s1)))" using Cons by simp
    show "prefix (trace s) (trace (snd (run_steps (st # rest) s)))"
      using f p1 p2 by (cases r) (auto intro: prefix_order.trans)
  qed
qed

lemma readFile_grows: "grows (readFile p)"
  unfolding grows_def readFile_def
  by (auto split: prod.splits sum.splits option.splits dest!: grows_prim[THEN growsD])

lemma getAlias_grows: "grows getAlias"
  unfolding grows_def getAlias_def
  by (auto simp: Let_def split: prod.splits sum.splits option.splits dest!: readFile_grows[THEN growsD])

lemma initRepo_grows: "grows (initRepo ext)"
  unfolding grows_def initRepo_def
  by (auto split: prod.splits sum.splits option.splits dest!: grows_prim[THEN growsD])

lemma goModInit_grows: "grows (goModInit ext name)"
  unfolding grows_def goModInit_def
  by (auto simp: Let_def split: prod.splits sum.splits option.splits
      dest!: grows_prim[THEN growsD] getAlias_grows[THEN growsD])

lemma createFile_grows: "grows (createFile name tfs tpl)"
  unfolding grows_def createFile_def
  by (auto split: prod.splits sum.splits option.splits dest!: grows_prim[THEN growsD])

lemma createPreCommitHook_grows: "grows (createPreCommitHook tfs)"
  unfolding grows_def createPreCommitHook_def
  by (auto split: prod.splits sum.splits option.splits dest!: grows_prim[THEN growsD])

lemma createScripts_grows: "grows (createScripts tfs)"
  unfolding grows_def createScripts_def
  by (auto split: prod.splits sum.splits option.splits
      dest!: grows_prim[THEN growsD] mkdir_grows[THEN growsD] createFile_grows[THEN growsD])

lemma createProjectFiles_grows: "grows (createProjectFiles ext tfs name)"
  unfolding createProjectFiles_def
  by (rule run_steps_grows)
     (simp add: createProjectFiles_steps_def grows_prim initRepo_grows goModInit_grows
        createFile_grows createScripts_grows createPreCommitHook_grows)

lemma mkdir_v3_grows: "grows (mkdir_v3 name)"
  unfolding grows_def mkdir_v3_def
  by (auto split: prod.splits sum.splits option.splits dest!: grows_prim[THEN growsD])

lemma goModInit_v3_grows: "grows (goModInit_v3 ext name)"
  unfolding grows_def goModInit_v3_def runCommand_def
  by (auto simp: Let_def prim_trace split: prod.splits sum.splits option.splits
      dest!: getAlias_grows[THEN growsD])

lemma createExecutableFile_grows: "grows (createExecutableFile name tfs tpl)"
  unfolding grows_def createExecutableFile_def
  by (auto split: prod.splits sum.splits option.splits
      dest!: grows_prim[THEN growsD] createFile_grows[THEN growsD])

lemma runCommand_grows: "grows (runCommand ext argv)"
  by (simp add: grows_def runCommand_def prim_trace)

lemma createPreCommitHook_v3_grows: "grows (createPreCommitHook_v3 tfs)"
  unfolding createPreCommitHook_v3_def
  by (rule run_steps_grows) (simp add: grows_prim createExecutableFile_grows)

lemma createGithubAction_grows: "grows (createGithubAction tfs)"
  unfolding createGithubAction_def Let_def
  by (rule run_steps_grows) (auto simp: mkdir_v3_grows createFile_grows)

lemma createScripts_v3_grows: "grows (createScripts_v3 tfs)"
  unfolding grows_def
proof
  fix s
  define steps where "steps = map (\<lambda>(name, template). (createExecutableFile name tfs template, ''error creating '' @ name @ '': %w''))
     [(PreCommitScriptFile, PreCommitScriptTemplate), (SetupScriptFile, SetupScriptTemplate),
      (CIBuildScriptFile, CIBuildScriptTemplate)]"
  have g: "grows (run_steps steps)"
    unfolding steps_def by (rule run_steps_grows) (auto simp: createExecutableFile_grows)
  have eq: "createScripts_v3 tfs s =
      (case mkdir_v3 ScriptsDir s of (Some e, s1) \<Rightarrow> (Some e, s1) | (None, s1) \<Rightarrow> run_steps steps s1)"
    unfolding createScripts_v3_def steps_def Let_def ..
  obtain r s1 where m: "mkdir_v3 ScriptsDir s = (r, s1)" by (cases "mkdir_v3 ScriptsDir s")
  have p1: "prefix (trace s) (trace s1)" using mkdir_v3_grows m by (rule growsD)
  have p2: "prefix (trace s1) (trace (snd (run_steps steps s1)))" using g by (simp add: grows_def)
  have p3: "prefix (trace s) (trace (snd (run_steps steps s1)))" using p1 p2 by (rule prefix_order.trans)
  show "prefix (trace s) (trace (snd (createScripts_v3 tfs s)))"
    unfolding eq using m p1 p3 by (cases r) simp_all
qed

lemma createProjectFiles_v3_grows: "grows (createProjectFiles_v3 ext tfs name)"
  unfolding createProjectFiles_v3_def
  by (rule run_steps_grows)
     (auto simp: createProjectFiles_v3_steps_def grows_prim runCommand_grows goModInit_v3_grows
        createFile_grows createScripts_v3_grows createGithubAction_grows createPreCommitHook_v3_grows)

section \<open>The preflight check\<close>

text \<open>
  Claim C7. In \<open>part_000\<close> and in the third program of \<open>main.go\<close> the first call of \<open>main\<close>
  is the probe \<open>go version\<close>: the trace of every run starts with it. When the probe
  fails, the run ends in \<open>log.Fatal\<close> with the probe as its only call: no \<open>Stat\<close>, \<open>Mkdir\<close>,
  \<open>Create\<close>, \<open>Write\<close> or \<open>Chmod\<close> was made, the working directory is unchanged and the
  file tree is the one the probe left.
\<close>

theorem preflight_probe_first:
  "prefix (trace s @ [EvExec [''go'', ''version'']]) (trace (snd (main ext tfs d s)))
   \<and> prefix (trace s @ [EvExec [''go'', ''version'']]) (trace (snd (main_v3 ext tfs d s)))
   \<and> (\<not> fst (ext [''go'', ''version''] (cwd s) (fs s)) \<longrightarrow>
        main ext tfs d s =
          (Fatal [] (Some ExitError),
           s\<lparr>fs := snd (ext [''go'', ''version''] (cwd s) (fs s)),
              trace := trace s @ [EvExec [''go'', ''version'']]\<rparr>)
        \<and> main_v3 ext tfs d s =
          (Fatal ''Go is not installed.'' None,
           s\<lparr>fs := snd (ext [''go'', ''version''] (cwd s) (fs s)),
              trace := trace s @ [EvExec [''go'', ''version'']]\<rparr>))"
proof (intro conjI impI)
  obtain r s1 where e: "exec_Run ext [''go'', ''version''] s = (r, s1)"
    by (cases "exec_Run ext [''go'', ''version''] s")
  have t1: "trace s1 = trace s @ [EvExec [''go'', ''version'']]"
    using exec_Run_trace[of ext "[''go'', ''version'']" s] e by simp
  show "prefix (trace s @ [EvExec [''go'', ''version'']]) (trace (snd (main ext tfs d s)))"
  proof (cases r)
    case (Some a)
    then show ?thesis using e t1 by (simp add: main_def)
  next
    case None
    obtain r2 s2 where m: "mkdir (flag_d d) s1 = (r2, s2)" by (cases "mkdir (flag_d d) s1")
    have p2: "prefix (trace s1) (trace s2)" using mkdir_grows m by (rule growsD)
    show ?thesis
    proof (cases r2)
      case (Some a)
      then show ?thesis using None e m p2 t1 by (simp add: main_def)
    next
      case N2: None
      obtain r3 s3 where c: "createProjectFiles ext tfs (flag_d d) s2 = (r3, s3)"
        by (cases "createProjectFiles ext tfs (flag_d d) s2")
      have p3: "prefix (trace s2) (trace s3)" using createProjectFiles_grows c by (rule growsD)
      have "prefix (trace s1) (trace s3)" using p2 p3 by (rule prefix_order.trans)
      then show ?thesis using None N2 e m c t1 by (cases r3) (simp_all add: main_def)
    qed
  qed
  show "prefix (trace s @ [EvExec [''go'', ''version'']]) (trace (snd (main_v3 ext tfs d s)))"
  proof (cases r)
    case (Some a)
    then show ?thesis using e t1 by (simp add: main_v3_def isGoInstalled_def)
  next
    case None
    obtain r2 s2 where m: "mkdir_v3 (flag_d d) s1 = (r2, s2)" by (cases "mkdir_v3 (flag_d d) s1")
    have p2: "prefix (trace s1) (trace s2)" using mkdir_v3_grows m by (rule growsD)
    show ?thesis
    proof (cases r2)
      case (Some a)
      then show ?thesis using None e m p2 t1 by (simp add: main_v3_def isGoInstalled_def)
    next
      case N2: None
      obtain r3 s3 where c: "createProjectFiles_v3 ext tfs (flag_d d) s2 = (r3, s3)"
        by (cases "createProjectFiles_v3 ext tfs (flag_d d) s2")
      have p3: "prefix (trace s2) (trace s3)" using createProjectFiles_v3_grows c by (rule growsD)
      have "prefix (trace s1) (trace s3)" using p2 p3 by (rule prefix_order.trans)
      then show ?thesis using None N2 e m c t1 by (cases r3) (simp_all add: main_v3_def isGoInstalled_def)
    qed
  qed
next
  assume "\<not> fst (ext [''go'', ''version''] (cwd s) (fs s))"
  then show "main ext tfs d s =
          (Fatal [] (Some ExitError),
           s\<lparr>fs := snd (ext [''go'', ''version''] (cwd s) (fs s)),
              trace := trace s @ [EvExec [''go'', ''version'']]\<rparr>)"
    by (simp add: main_def exec_Run_def record_ev_def Let_def)
next
  assume "\<not> fst (ext [''go'', ''version''] (cwd s) (fs s))"
  then show "main_v3 ext tfs d s =
          (Fatal ''Go is not installed.'' None,
           s\<lparr>fs := snd (ext [''go'', ''version''] (cwd s) (fs s)),
              trace := trace s @ [EvExec [''go'', ''version'']]\<rparr>)"
    by (simp add: main_v3_def isGoInstalled_def exec_Run_def record_ev_def Let_def)
qed

theorem preflight_probe_first_witness:
  "\<not> fst (no_tools [''go'', ''version''] (cwd demo_sys) (fs demo_sys))
   \<and> main no_tools demo_tfs (Some ''demo'') demo_sys =
       (Fatal [] (Some ExitError), demo_sys\<lparr>trace := [EvExec [''go'', ''version'']]\<rparr>)
   \<and> main_v3 no_tools demo_tfs (Some ''demo'') demo_sys =
       (Fatal ''Go is not installed.'' None, demo_sys\<lparr>trace := [EvExec [''go'', ''version'']]\<rparr>)
   \<and> fs demo_sys [''work'', ''demo''] = None"
proof -
  have h: "\<not> fst (no_tools [''go'', ''version''] (cwd demo_sys) (fs demo_sys))"
    by (simp add: no_tools_def)
  have t: "trace demo_sys = []" by (simp add: demo_sys_def)
  have f: "snd (no_tools [''go'', ''version''] (cwd demo_sys) (fs demo_sys)) = fs demo_sys"
    by (simp add: no_tools_def)
  have n: "fs demo_sys [''work'', ''demo''] = None" by (simp add: demo_sys_def)
  show ?thesis
    using h n preflight_probe_first[of demo_sys no_tools demo_tfs "Some ''demo''"]
    by (simp add: t f)
qed

section \<open>Creating a directory that is already there\<close>





section \<open>Reading the SSH configuration\<close>

lemma readFile_empty:
  assumes "search_dirs (fs s) [] p = None" and "fs s p = Some (File m [])" and "m AND owner_read \<noteq> 0"
  shows "readFile p s = (Inl EOF, s\<lparr>trace := trace s @ [EvOpen p, EvRead p 1024]\<rparr>)"
  using assms by (simp add: readFile_def os_Open_def file_Read_def record_ev_def node_mode_def)

lemma readFile_missing:
  assumes "fs s p = None"
  shows "\<exists>e. readFile p s = (Inl e, s\<lparr>trace := trace s @ [EvOpen p]\<rparr>)"
  using assms by (cases "search_dirs (fs s) [] p") (simp_all add: readFile_def os_Open_def record_ev_def Let_def)

text \<open>
  Claim C9. With \<open>HOME\<close> set and an empty regular file at \<open>.ssh/config\<close> under it that
  the process may read, \<open>readFile\<close> opens the file, makes one \<open>Read\<close>, which reports end of file, and returns
  that error; \<open>getAlias\<close> then returns the default alias from its error branch, before
  the regular expression is applied. The alias is the one returned when the file is
  missing.
\<close>

theorem getAlias_empty_config:
  assumes "home s = Some h"
      and "search_dirs (fs s) [] (h @ [''.ssh'', ''config'']) = None"
      and "fs s (h @ [''.ssh'', ''config'']) = Some (File m [])"
      and "m AND owner_read \<noteq> 0"
  shows "readFile (filepath_Join h SSHConfigFile) s =
           (Inl EOF, s\<lparr>trace := trace s @ [EvOpen (h @ [''.ssh'', ''config'']), EvRead (h @ [''.ssh'', ''config'']) 1024]\<rparr>)
         \<and> getAlias s =
           (''project/'', s\<lparr>trace := trace s @ [EvOpen (h @ [''.ssh'', ''config'']), EvRead (h @ [''.ssh'', ''config'']) 1024]\<rparr>)
         \<and> fst (getAlias (s\<lparr>fs := (fs s)((h @ [''.ssh'', ''config'']) := None)\<rparr>)) = fst (getAlias s)"
proof -
  let ?p = "h @ [''.ssh'', ''config'']"
  have r: "readFile ?p s = (Inl EOF, s\<lparr>trace := trace s @ [EvOpen ?p, EvRead ?p 1024]\<rparr>)"
    using assms(2,3,4) by (rule readFile_empty)
  have a: "getAlias s = (''project/'', s\<lparr>trace := trace s @ [EvOpen ?p, EvRead ?p 1024]\<rparr>)"
    using assms(1) r by (simp add: getAlias_def os_UserHomeDir_def filepath_Join_ssh DefaultAlias_def)
  let ?s' = "s\<lparr>fs := (fs s)(?p := None)\<rparr>"
  have "fs ?s' ?p = None" by simp
  then obtain e where "readFile ?p ?s' = (Inl e, ?s'\<lparr>trace := trace ?s' @ [EvOpen ?p]\<rparr>)"
    using readFile_missing by blast
  then have b: "fst (getAlias ?s') = ''project/''"
    using assms(1) by (simp add: getAlias_def os_UserHomeDir_def filepath_Join_ssh DefaultAlias_def)
  show ?thesis using r a b by (simp add: filepath_Join_ssh)
qed

theorem getAlias_empty_config_witness:
  "home (ssh_sys []) = Some [''home'', ''u'']
   \<and> search_dirs (fs (ssh_sys [])) [] [''home'', ''u'', ''.ssh'', ''config''] = None
   \<and> fs (ssh_sys []) [''home'', ''u'', ''.ssh'', ''config''] = Some (File 384 [])
   \<and> (384 :: perm) AND owner_read \<noteq> 0
   \<and> getAlias (ssh_sys []) =
       (''project/'', (ssh_sys [])\<lparr>trace := [EvOpen [''home'', ''u'', ''.ssh'', ''config''],
                                               EvRead [''home'', ''u'', ''.ssh'', ''config''] 1024]\<rparr>)"
proof -
  have h1: "home (ssh_sys []) = Some [''home'', ''u'']" by (simp add: ssh_sys_def)
  have h2: "search_dirs (fs (ssh_sys [])) [] ([''home'', ''u''] @ [''.ssh'', ''config'']) = None"
    by (simp add: ssh_sys_def owner_exec_def)
  have h3: "fs (ssh_sys []) ([''home'', ''u''] @ [''.ssh'', ''config'']) = Some (File 384 [])"
    by (simp add: ssh_sys_def)
  have h4: "(384 :: perm) AND owner_read \<noteq> 0" by (simp add: owner_read_def)
  have t: "trace (ssh_sys []) = []" by (simp add: ssh_sys_def)
  show ?thesis
    using h1 h2 h3 h4 getAlias_empty_config[OF h1 h2 h3 h4] by (simp add: t)
qed

section \<open>The module name\<close>

lemma execs_append: "execs (a @ b) = execs a @ execs b"
  by (induction a rule: execs.induct) simp_all

lemma readFile_execs: "execs (trace (snd (readFile p s))) = execs (trace s)"
  by (simp add: readFile_def os_Open_def file_Read_def record_ev_def Let_def execs_append
      split: option.splits node.splits)

lemma getAlias_execs: "execs (trace (snd (getAlias s))) = execs (trace s)"
proof (cases "home s")
  case None
  then show ?thesis by (simp add: getAlias_def os_UserHomeDir_def)
next
  case (Some h)
  obtain r s1 where r: "readFile (filepath_Join h SSHConfigFile) s = (r, s1)"
    by (cases "readFile (filepath_Join h SSHConfigFile) s")
  have "execs (trace s1) = execs (trace s)"
    using readFile_execs[of "filepath_Join h SSHConfigFile" s] r by simp
  then show ?thesis
    using Some r by (cases r) (simp_all add: getAlias_def os_UserHomeDir_def Let_def)
qed

lemma getAlias_no_home: "home s = None \<Longrightarrow> getAlias s = (''project/'', s)"
  by (simp add: getAlias_def os_UserHomeDir_def DefaultAlias_def)

lemma getAlias_missing:
  assumes "home s = Some h" and "fs s (h @ [''.ssh'', ''config'']) = None"
  shows "fst (getAlias s) = ''project/''"
proof -
  obtain e where "readFile (h @ [''.ssh'', ''config'']) s = (Inl e, s\<lparr>trace := trace s @ [EvOpen (h @ [''.ssh'', ''config''])]\<rparr>)"
    using readFile_missing[OF assms(2)] by blast
  then show ?thesis
    using assms(1) by (simp add: getAlias_def os_UserHomeDir_def filepath_Join_ssh DefaultAlias_def)
qed

text \<open>
  Claim C3, amended. In \<open>part_000\<close> and in the third program of \<open>main.go\<close>, \<open>goModInit\<close>
  runs one command, \<open>go mod init\<close> with the name \<open>getAlias() + name\<close>; the alias is
  \<open>project/\<close> when \<open>HOME\<close> is unset or there is no \<open>.ssh/config\<close> under it. In the first
  two programs of \<open>main.go\<close>, \<open>goModInit\<close> runs \<open>go mod init\<close> with the bare name.
\<close>

theorem goModInit_module_name:
  "execs (trace (snd (goModInit ext name s))) =
     execs (trace s) @ [[''go'', ''mod'', ''init'', fst (getAlias s) @ name]]
   \<and> execs (trace (snd (goModInit_v3 ext name s))) =
     execs (trace s) @ [[''go'', ''mod'', ''init'', fst (getAlias s) @ name]]
   \<and> ((home s = None \<or> (\<exists>h. home s = Some h \<and> fs s (h @ [''.ssh'', ''config'']) = None)) \<longrightarrow>
        fst (getAlias s) = ''project/'')
   \<and> execs (trace (snd (goModInit_v1 ext name s))) = execs (trace s) @ [[''go'', ''mod'', ''init'', name]]
   \<and> execs (trace (snd (goModInit_v2 ext name s))) = execs (trace s) @ [[''go'', ''mod'', ''init'', name]]"
proof (intro conjI impI)
  obtain al s1 where g: "getAlias s = (al, s1)" by (cases "getAlias s")
  have e1: "execs (trace s1) = execs (trace s)" using getAlias_execs[of s] g by simp
  have t: "trace (snd (exec_Run ext argv s1)) = trace s1 @ [EvExec argv]" for argv
    by (rule exec_Run_trace)
  show "execs (trace (snd (goModInit ext name s))) =
     execs (trace s) @ [[''go'', ''mod'', ''init'', fst (getAlias s) @ name]]"
    using g e1 t[of "[''go'', ''mod'', ''init'', al @ name]"]
    by (cases "exec_Run ext [''go'', ''mod'', ''init'', al @ name] s1")
       (auto simp: goModInit_def Let_def execs_append split: option.splits)
  show "execs (trace (snd (goModInit_v3 ext name s))) =
     execs (trace s) @ [[''go'', ''mod'', ''init'', fst (getAlias s) @ name]]"
    using g e1 t[of "[''go'', ''mod'', ''init'', al @ name]"]
    by (simp add: goModInit_v3_def runCommand_def Let_def execs_append)
next
  assume "home s = None \<or> (\<exists>h. home s = Some h \<and> fs s (h @ [''.ssh'', ''config'']) = None)"
  then show "fst (getAlias s) = ''project/''"
    by (auto simp: getAlias_no_home getAlias_missing)
next
  have t: "trace (snd (exec_Run ext argv s)) = trace s @ [EvExec argv]" for argv
    by (rule exec_Run_trace)
  show "execs (trace (snd (goModInit_v1 ext name s))) = execs (trace s) @ [[''go'', ''mod'', ''init'', name]]"
    using t[of "[''go'', ''mod'', ''init'', name]"]
    by (cases "exec_Run ext [''go'', ''mod'', ''init'', name] s")
       (auto simp: goModInit_v1_def execs_append split: option.splits)
  show "execs (trace (snd (goModInit_v2 ext name s))) = execs (trace s) @ [[''go'', ''mod'', ''init'', name]]"
    using t[of "[''go'', ''mod'', ''init'', name]"]
    by (cases "exec_Run ext [''go'', ''mod'', ''init'', name] s")
       (auto simp: goModInit_v2_def execs_append split: option.splits)
qed

theorem goModInit_module_name_witness:
  "home demo_sys = None
   \<and> execs (trace (snd (goModInit demo_tools ''demo'' demo_sys))) = [[''go'', ''mod'', ''init'', ''project/demo'']]
   \<and> execs (trace (snd (goModInit_v3 demo_tools ''demo'' demo_sys))) = [[''go'', ''mod'', ''init'', ''project/demo'']]"
proof -
  have h: "home demo_sys = None" by (simp add: demo_sys_def)
  have t: "trace demo_sys = []" by (simp add: demo_sys_def)
  show ?thesis
    using h goModInit_module_name[of demo_tools "''demo''" demo_sys] by (simp add: t)
qed

theorem goModInit_bare_name_counterexample:
  "execs (trace (snd (goModInit_v1 demo_tools ''demo'' demo_sys))) = [[''go'', ''mod'', ''init'', ''demo'']]
   \<and> [''go'', ''mod'', ''init'', ''project/demo''] \<notin> set (execs (trace (snd (goModInit_v1 demo_tools ''demo'' demo_sys))))"
  by (simp add: goModInit_v1_def exec_Run_def record_ev_def demo_sys_def demo_tools_def)

section \<open>Fail fast\<close>

lemma run_steps_stops:
  "k < length steps \<Longrightarrow> run_steps (take k steps) s = (None, sk) \<Longrightarrow> fst (steps ! k) sk = (Some e, sf)
   \<Longrightarrow> run_steps steps s = (Some (Errorf (snd (steps ! k)) (Some e)), sf)"
proof (induction steps arbitrary: k s)
  case Nil
  then show ?case by simp
next
  case (Cons st rest)
  show ?case
  proof (cases k)
    case 0
    then show ?thesis using Cons.prems by simp
  next
    case (Suc j)
    obtain r s1 where f: "fst st s = (r, s1)" by (cases "fst st s")
    from Cons.prems(2) Suc f have r: "r = None" by (cases r) simp_all
    from Cons.prems(2) Suc f r have "run_steps (take j rest) s1 = (None, sk)" by simp
    moreover from Cons.prems Suc have "j < length rest" "fst (rest ! j) sk = (Some e, sf)" by simp_all
    ultimately have "run_steps rest s1 = (Some (Errorf (snd (rest ! j)) (Some e)), sf)"
      using Cons.IH[of j s1] by blast
    then show ?thesis using f r Suc by simp
  qed
qed

lemma no_loss_refl: "no_loss s s"
  by (simp add: no_loss_def)

lemma no_loss_trans: "no_loss a b \<Longrightarrow> no_loss b c \<Longrightarrow> no_loss a c"
  unfolding no_loss_def by (rule subset_trans)

lemma keepsD: "keeps f \<Longrightarrow> f s = (r, s') \<Longrightarrow> no_loss s s'"
  unfolding keeps_def by (metis snd_conv)

lemma keeps_prim:
  "keeps (os_Stat name)" "keeps os_Getwd" "keeps (os_Mkdir p m)" "keeps (os_Chdir name)"
  "keeps (os_Create name)" "keeps (file_Write h b)" "keeps (os_Chmod name m)" "keeps (os_Open p)"
  "keeps (file_Read h n)"
  by (auto simp: keeps_def no_loss_def os_Stat_def os_Getwd_def os_Mkdir_def os_Chdir_def os_Create_def
      file_Write_def os_Chmod_def os_Open_def file_Read_def record_ev_def Let_def
      split: sum.splits option.splits node.splits if_splits)

lemma exec_Run_keeps: "keeps_entries ext \<Longrightarrow> keeps (exec_Run ext argv)"
  by (auto simp: keeps_def no_loss_def keeps_entries_def exec_Run_def record_ev_def Let_def)

lemma run_steps_keeps: "(\<forall>st \<in> set steps. keeps (fst st)) \<Longrightarrow> keeps (run_steps steps)"
  unfolding keeps_def
proof (induction steps)
  case Nil
  then show ?case by (simp add: no_loss_refl)
next
  case (Cons st rest)
  show ?case
  proof
    fix s :: sys
    obtain r s1 where f: "fst st s = (r, s1)" by (cases "fst st s")
    have p1: "no_loss s s1" using Cons.prems f by (metis list.set_intros(1) snd_conv)
    have p2: "no_loss s1 (snd (run_steps rest s1))" using Cons by simp
    have p3: "no_loss s (snd (run_steps rest s1))" using p1 p2 by (rule no_loss_trans)
    show "no_loss s (snd (run_steps (st # rest) s))"
      using f p1 p3 by (cases r) auto
  qed
qed

lemma mkdir_keeps: "keeps (mkdir name)"
  unfolding keeps_def mkdir_def
  by (auto split: prod.splits sum.splits option.splits dest!: keeps_prim[THEN keepsD] intro: no_loss_trans)

lemma readFile_keeps: "keeps (readFile p)"
  unfolding keeps_def readFile_def
  by (auto split: prod.splits sum.splits option.splits dest!: keeps_prim[THEN keepsD] intro: no_loss_trans)

lemma getAlias_keeps: "keeps getAlias"
  unfolding keeps_def getAlias_def
  by (auto simp: Let_def split: prod.splits sum.splits option.splits dest!: readFile_keeps[THEN keepsD] intro: no_loss_refl no_loss_trans)

lemma initRepo_keeps: "keeps_entries ext \<Longrightarrow> keeps (initRepo ext)"
  unfolding keeps_def initRepo_def
  by (auto split: prod.splits sum.splits option.splits dest!: exec_Run_keeps[THEN keepsD] intro: no_loss_trans)

lemma goModInit_keeps: "keeps_entries ext \<Longrightarrow> keeps (goModInit ext name)"
  unfolding keeps_def goModInit_def
  by (auto simp: Let_def split: prod.splits sum.splits option.splits
      dest!: exec_Run_keeps[THEN keepsD] getAlias_keeps[THEN keepsD] intro: no_loss_trans)

lemma createFile_keeps: "keeps (createFile name tfs tpl)"
  unfolding keeps_def createFile_def
  by (auto split: prod.splits sum.splits option.splits dest!: keeps_prim[THEN keepsD] intro: no_loss_trans)

lemma createPreCommitHook_keeps: "keeps (createPreCommitHook tfs)"
  unfolding keeps_def createPreCommitHook_def
  by (auto split: prod.splits sum.splits option.splits dest!: keeps_prim[THEN keepsD] intro: no_loss_trans)

lemma createScripts_keeps: "keeps (createScripts tfs)"
  unfolding keeps_def createScripts_def
  by (auto split: prod.splits sum.splits option.splits
      dest!: keeps_prim[THEN keepsD] mkdir_keeps[THEN keepsD] createFile_keeps[THEN keepsD])
     (meson no_loss_trans)+

lemma createProjectFiles_steps_keep:
  "keeps_entries ext \<Longrightarrow> \<forall>st \<in> set (createProjectFiles_steps ext tfs name). keeps (fst st)"
  by (simp add: createProjectFiles_steps_def keeps_prim initRepo_keeps goModInit_keeps
        createFile_keeps createScripts_keeps createPreCommitHook_keeps)

text \<open>
  Claim C6. Let step \<open>k\<close> of \<open>createProjectFiles\<close> be reached, with the steps before it
  successful and the state then \<open>sk\<close>, and let step \<open>k\<close> return an error and leave the
  state \<open>sf\<close>. Then \<open>createProjectFiles\<close> returns that error, wrapped in the message of
  step \<open>k\<close>, in the state \<open>sf\<close>: no later step made a call or created an entry. Every
  entry that was there at the start or when step \<open>k\<close> began is still there (the external
  programs are taken to delete nothing).
\<close>

theorem createProjectFiles_fail_fast:
  assumes "k < length (createProjectFiles_steps ext tfs name)"
      and "run_steps (take k (createProjectFiles_steps ext tfs name)) s = (None, sk)"
      and "fst (createProjectFiles_steps ext tfs name ! k) sk = (Some e, sf)"
      and "keeps_entries ext"
  shows "createProjectFiles ext tfs name s =
           (Some (Errorf (snd (createProjectFiles_steps ext tfs name ! k)) (Some e)), sf)
         \<and> dom (fs s) \<subseteq> dom (fs sk) \<and> dom (fs sk) \<subseteq> dom (fs sf)"
proof -
  let ?steps = "createProjectFiles_steps ext tfs name"
  have all: "\<forall>st \<in> set ?steps. keeps (fst st)"
    using assms(4) by (rule createProjectFiles_steps_keep)
  have "\<forall>st \<in> set (take k ?steps). keeps (fst st)"
    using all by (meson in_set_takeD)
  then have "keeps (run_steps (take k ?steps))" by (rule run_steps_keeps)
  then have "no_loss s sk" using assms(2) by (rule keepsD)
  then have a: "dom (fs s) \<subseteq> dom (fs sk)" by (simp add: no_loss_def)
  have "keeps (fst (?steps ! k))" using all assms(1) by simp
  then have "no_loss sk sf" using assms(3) by (rule keepsD)
  then have b: "dom (fs sk) \<subseteq> dom (fs sf)" by (simp add: no_loss_def)
  have c: "createProjectFiles ext tfs name s = (Some (Errorf (snd (?steps ! k)) (Some e)), sf)"
    unfolding createProjectFiles_def using assms(1,2,3) by (rule run_steps_stops)
  show ?thesis using a b c by simp
qed

lemma git_only_tools_keeps: "keeps_entries git_only_tools"
  by (auto simp: keeps_entries_def git_only_tools_def demo_tools_def)

theorem createProjectFiles_fail_fast_witness:
  "keeps_entries git_only_tools
   \<and> fst (run_steps (take 2 (createProjectFiles_steps git_only_tools demo_tfs ''demo'')) made_sys) = None
   \<and> createProjectFiles git_only_tools demo_tfs ''demo'' made_sys =
       (Some (Errorf ''error initializing Go module: %w''
                (Some (Errorf ''error initializing Go module: %w'' (Some ExitError)))),
        snd (goModInit git_only_tools ''demo''
               (snd (run_steps (take 2 (createProjectFiles_steps git_only_tools demo_tfs ''demo'')) made_sys))))
   \<and> execs (trace (snd (createProjectFiles git_only_tools demo_tfs ''demo'' made_sys))) =
       [[''git'', ''init''], [''go'', ''mod'', ''init'', ''project/demo'']]
   \<and> fs (snd (createProjectFiles git_only_tools demo_tfs ''demo'' made_sys)) [''work'', ''demo'', ''.git'', ''hooks''] = Some (Dir 493)
   \<and> fs (snd (createProjectFiles git_only_tools demo_tfs ''demo'' made_sys)) [''work'', ''demo'', ''.golintci.yml''] = None"
proof -
  let ?steps = "createProjectFiles_steps git_only_tools demo_tfs ''demo''"
  let ?sk = "snd (run_steps (take 2 ?steps) made_sys)"
  let ?e = "Errorf ''error initializing Go module: %w'' (Some ExitError)"
  let ?sf = "snd (goModInit git_only_tools ''demo'' ?sk)"
  have h1: "2 < length ?steps" by (simp add: createProjectFiles_steps_def)
  have h2a: "fst (run_steps (take 2 ?steps) made_sys) = None" by code_simp
  have h2: "run_steps (take 2 ?steps) made_sys = (None, ?sk)" using h2a by (rule pair_fstI)
  have st: "?steps ! 2 = (goModInit git_only_tools ''demo'', ''error initializing Go module: %w'')"
    by (simp add: createProjectFiles_steps_def)
  have h3a: "fst (goModInit git_only_tools ''demo'' ?sk) = Some ?e" by code_simp
  have h3: "fst (?steps ! 2) ?sk = (Some ?e, ?sf)" unfolding st fst_conv using h3a by (rule pair_fstI)
  have h4: "keeps_entries git_only_tools" by (rule git_only_tools_keeps)
  have r: "createProjectFiles git_only_tools demo_tfs ''demo'' made_sys = (Some (Errorf (snd (?steps ! 2)) (Some ?e)), ?sf)"
    using createProjectFiles_fail_fast[OF h1 h2 h3 h4] by simp
  have e: "execs (trace ?sf) = [[''git'', ''init''], [''go'', ''mod'', ''init'', ''project/demo'']]" by code_simp
  have f1: "fs ?sf [''work'', ''demo'', ''.git'', ''hooks''] = Some (Dir 493)" by code_simp
  have f2: "fs ?sf [''work'', ''demo'', ''.golintci.yml''] = None" by code_simp
  show ?thesis
    unfolding r st snd_conv using h4 h2a e f1 f2 by simp
qed

section \<open>The matcher on the pattern of the source\<close>

lemma match_lits:
  "match_atoms (map Lit l @ re) s caps =
     (if prefix l s then match_atoms re (drop (length l) s) caps else None)"
proof (induction l arbitrary: s)
  case Nil
  then show ?case by simp
next
  case (Cons a l)
  then show ?case by (cases s) auto
qed

lemma first_some_all_None: "(\<forall>k \<in> set ks. f k = None) \<Longrightarrow> first_some f ks = None"
  by (induction ks) auto

lemma run_lengths_Suc: "length (takeWhile p s) = Suc n \<Longrightarrow> run_lengths p s = Suc n # rev [1..<Suc n]"
  by (simp add: run_lengths_def)

lemma first_some_longest:
  assumes "\<forall>k. 1 \<le> k \<and> k < length (takeWhile p s) \<longrightarrow> f k = None"
  shows "first_some f (run_lengths p s) =
           (if takeWhile p s = [] then None else f (length (takeWhile p s)))"
proof (cases "length (takeWhile p s)")
  case 0
  then show ?thesis by (simp add: run_lengths_def)
next
  case (Suc n)
  have "first_some f (rev [1..<Suc n]) = None"
    using assms Suc by (intro first_some_all_None) auto
  then show ?thesis
    using Suc run_lengths_Suc[OF Suc] by (auto split: option.splits)
qed

lemma drop_in_run:
  assumes "k < length (takeWhile p s)"
  shows "\<exists>x r. drop k s = x # r \<and> p x"
proof -
  have s: "s = takeWhile p s @ dropWhile p s" by simp
  have "k < length s" using assms by (metis length_takeWhile_le less_le_trans)
  then have d: "drop k s = s ! k # drop (Suc k) s" by (simp add: Cons_nth_drop_Suc)
  have "s ! k = takeWhile p s ! k" using assms by (simp add: takeWhile_nth)
  moreover have "p (takeWhile p s ! k)" using assms by (metis nth_mem set_takeWhileD)
  ultimately show ?thesis using d by auto
qed

lemma match_Plus_then_Lit:
  assumes "\<not> p c"
  shows "match_atoms (Plus p # Lit c # re) s caps =
           (if takeWhile p s = [] then None else match_atoms (Lit c # re) (dropWhile p s) caps)"
proof -
  have "\<forall>k. 1 \<le> k \<and> k < length (takeWhile p s) \<longrightarrow> match_atoms (Lit c # re) (drop k s) caps = None"
  proof (intro allI impI)
    fix k assume "1 \<le> k \<and> k < length (takeWhile p s)"
    then obtain x r where "drop k s = x # r" "p x" using drop_in_run by blast
    then show "match_atoms (Lit c # re) (drop k s) caps = None" using assms by auto
  qed
  then have "first_some (\<lambda>k. match_atoms (Lit c # re) (drop k s) caps) (run_lengths p s) =
           (if takeWhile p s = [] then None else match_atoms (Lit c # re) (drop (length (takeWhile p s)) s) caps)"
    by (rule first_some_longest)
  then show ?thesis by (simp add: dropWhile_eq_drop)
qed

lemma match_GroupPlus_last:
  "match_atoms [GroupPlus p] s caps =
     (if takeWhile p s = [] then None else Some (dropWhile p s, caps @ [takeWhile p s]))"
proof (cases "length (takeWhile p s)")
  case 0
  then show ?thesis by (simp add: run_lengths_def)
next
  case (Suc n)
  have "take (Suc n) s = takeWhile p s"
    using Suc by (metis takeWhile_eq_take)
  then show ?thesis
    using Suc run_lengths_Suc[OF Suc] by (auto simp: dropWhile_eq_drop)
qed

lemma RegexpPattern_split:
  "RegexpPattern = map Lit (''Host github.com'' @ [CHR 0x0A]) @ (Plus is_space # Lit (CHR ''U'') # (map Lit ''ser '' @ [GroupPlus is_word]))"
  by (simp add: RegexpPattern_def)

lemma match_RegexpPattern:
  "match_atoms RegexpPattern t caps =
     (if prefix (''Host github.com'' @ [CHR 0x0A]) t then
        (let r1 = drop (length (''Host github.com'' @ [CHR 0x0A])) t in
         if takeWhile is_space r1 = [] then None
         else if prefix ''User '' (dropWhile is_space r1) then
           (let r3 = drop (length ''User '') (dropWhile is_space r1) in
            if takeWhile is_word r3 = [] then None
            else Some (dropWhile is_word r3, caps @ [takeWhile is_word r3]))
         else None)
      else None)"
proof -
  have nU: "\<not> is_space (CHR ''U'')" by (simp add: is_space_def)
  have U: "match_atoms (Lit (CHR ''U'') # (map Lit ''ser '' @ [GroupPlus is_word])) x caps =
        match_atoms (map Lit ''User '' @ [GroupPlus is_word]) x caps" for x
    by simp
  show ?thesis
    unfolding RegexpPattern_split match_lits match_Plus_then_Lit[of is_space "CHR ''U''", OF nU] U match_GroupPlus_last
    by (simp add: Let_def)
qed

lemma prefix_drop: "prefix l t \<Longrightarrow> t = l @ drop (length l) t"
  by (auto simp: prefix_def)

lemma takeWhile_run:
  assumes "\<forall>c \<in> set ws. p c" and "r = [] \<or> \<not> p (hd r)"
  shows "takeWhile p (ws @ r) = ws \<and> dropWhile p (ws @ r) = r"
proof -
  have a: "takeWhile p r = []" using assms(2) by (cases r) auto
  have b: "dropWhile p r = r" using assms(2) by (cases r) auto
  show ?thesis using assms(1) a b by (simp add: takeWhile_append2 dropWhile_append2)
qed

lemma match_shape:
  "match_atoms RegexpPattern t caps = Some (rest, caps') \<longleftrightarrow>
     (\<exists>ws u. t = (''Host github.com'' @ [CHR 0x0A]) @ ws @ ''User '' @ u @ rest
        \<and> ws \<noteq> [] \<and> (\<forall>c \<in> set ws. is_space c)
        \<and> u \<noteq> [] \<and> (\<forall>c \<in> set u. is_word c)
        \<and> (rest = [] \<or> \<not> is_word (hd rest)) \<and> caps' = caps @ [u])"
  (is "?L \<longleftrightarrow> ?R")
proof
  define H where "H = ''Host github.com'' @ [CHR 0x0A]"
  define U where "U = ''User ''"
  define r1 where "r1 = drop (length H) t"
  define r3 where "r3 = drop (length U) (dropWhile is_space r1)"
  have M: "match_atoms RegexpPattern t caps =
     (if prefix H t then
         if takeWhile is_space r1 = [] then None
         else if prefix U (dropWhile is_space r1) then
            if takeWhile is_word r3 = [] then None
            else Some (dropWhile is_word r3, caps @ [takeWhile is_word r3])
         else None
      else None)"
    unfolding match_RegexpPattern H_def U_def r1_def r3_def Let_def ..
  assume ?L
  then have p1: "prefix H t" and ws: "takeWhile is_space r1 \<noteq> []"
    and p2: "prefix U (dropWhile is_space r1)" and u: "takeWhile is_word r3 \<noteq> []"
    and e: "rest = dropWhile is_word r3" "caps' = caps @ [takeWhile is_word r3]"
    unfolding M by (simp_all split: if_splits)
  have t1: "t = H @ r1" using prefix_drop[OF p1] by (simp add: r1_def)
  have t2: "dropWhile is_space r1 = U @ r3" using prefix_drop[OF p2] by (simp add: r3_def)
  have t3: "r1 = takeWhile is_space r1 @ U @ takeWhile is_word r3 @ dropWhile is_word r3"
    using t2 by (metis takeWhile_dropWhile_id)
  have r: "dropWhile is_word r3 = [] \<or> \<not> is_word (hd (dropWhile is_word r3))"
    by (metis hd_dropWhile)
  have s1: "\<forall>c \<in> set (takeWhile is_space r1). is_space c" by (auto dest: set_takeWhileD)
  have s2: "\<forall>c \<in> set (takeWhile is_word r3). is_word c" by (auto dest: set_takeWhileD)
  have "t = H @ takeWhile is_space r1 @ U @ takeWhile is_word r3 @ rest"
    using t1 t3 e(1) by simp
  then show ?R
    unfolding H_def[symmetric] U_def[symmetric]
    using ws u r s1 s2 e by blast
next
  define H where "H = ''Host github.com'' @ [CHR 0x0A]"
  define U where "U = ''User ''"
  assume ?R
  then obtain ws u where
    t: "t = H @ ws @ U @ u @ rest"
    and ws: "ws \<noteq> []" "\<forall>c \<in> set ws. is_space c"
    and u: "u \<noteq> []" "\<forall>c \<in> set u. is_word c"
    and rest: "rest = [] \<or> \<not> is_word (hd rest)" and c: "caps' = caps @ [u]"
    unfolding H_def U_def by blast
  have nU: "U @ u @ rest = [] \<or> \<not> is_space (hd (U @ u @ rest))" by (simp add: is_space_def U_def)
  have 1: "takeWhile is_space (ws @ U @ u @ rest) = ws \<and> dropWhile is_space (ws @ U @ u @ rest) = U @ u @ rest"
    using ws(2) nU by (rule takeWhile_run)
  have 3: "takeWhile is_word (u @ rest) = u \<and> dropWhile is_word (u @ rest) = rest"
    using u(2) rest by (rule takeWhile_run)
  have M: "match_atoms RegexpPattern t caps =
     (if prefix H t then
         if takeWhile is_space (drop (length H) t) = [] then None
         else if prefix U (dropWhile is_space (drop (length H) t)) then
            if takeWhile is_word (drop (length U) (dropWhile is_space (drop (length H) t))) = [] then None
            else Some (dropWhile is_word (drop (length U) (dropWhile is_space (drop (length H) t))),
                       caps @ [takeWhile is_word (drop (length U) (dropWhile is_space (drop (length H) t)))])
         else None
      else None)"
    unfolding match_RegexpPattern H_def U_def Let_def ..
  have d1: "drop (length H) t = ws @ U @ u @ rest" using t by simp
  have d2: "drop (length U) (U @ u @ rest) = u @ rest" by simp
  show ?L
    unfolding M d1 using t ws(1) u(1) 1 3 c by (simp add: d2)
qed

lemma submatch_here_Some:
  "submatch_here RegexpPattern t = Some m \<longleftrightarrow>
     (\<exists>ws u rest. t = (''Host github.com'' @ [CHR 0x0A]) @ ws @ ''User '' @ u @ rest
        \<and> ws \<noteq> [] \<and> (\<forall>c \<in> set ws. is_space c)
        \<and> u \<noteq> [] \<and> (\<forall>c \<in> set u. is_word c)
        \<and> (rest = [] \<or> \<not> is_word (hd rest))
        \<and> m = [(''Host github.com'' @ [CHR 0x0A]) @ ws @ ''User '' @ u, u])"
  (is "?L \<longleftrightarrow> ?R")
proof
  assume ?L
  then obtain rest caps where a: "match_atoms RegexpPattern t [] = Some (rest, caps)"
    and m: "m = take (length t - length rest) t # caps"
    by (auto simp: submatch_here_def split: option.splits)
  from a obtain ws u where
    t: "t = (''Host github.com'' @ [CHR 0x0A]) @ ws @ ''User '' @ u @ rest"
    and w: "ws \<noteq> []" "\<forall>c \<in> set ws. is_space c" "u \<noteq> []" "\<forall>c \<in> set u. is_word c"
       "rest = [] \<or> \<not> is_word (hd rest)" and c: "caps = [] @ [u]"
    unfolding match_shape by blast
  have "t = ((''Host github.com'' @ [CHR 0x0A]) @ ws @ ''User '' @ u) @ rest" using t by simp
  then have "take (length t - length rest) t = (''Host github.com'' @ [CHR 0x0A]) @ ws @ ''User '' @ u"
    by (metis add_diff_cancel_right' append_eq_conv_conj length_append)
  then show ?R using t w c m by auto
next
  assume ?R
  then obtain ws u rest where
    t: "t = (''Host github.com'' @ [CHR 0x0A]) @ ws @ ''User '' @ u @ rest"
    and w: "ws \<noteq> []" "\<forall>c \<in> set ws. is_space c" "u \<noteq> []" "\<forall>c \<in> set u. is_word c"
       "rest = [] \<or> \<not> is_word (hd rest)"
    and m: "m = [(''Host github.com'' @ [CHR 0x0A]) @ ws @ ''User '' @ u, u]"
    by blast
  have a: "match_atoms RegexpPattern t [] = Some (rest, [] @ [u])"
    unfolding match_shape using t w by blast
  have "t = ((''Host github.com'' @ [CHR 0x0A]) @ ws @ ''User '' @ u) @ rest" using t by simp
  then have "take (length t - length rest) t = (''Host github.com'' @ [CHR 0x0A]) @ ws @ ''User '' @ u"
    by (metis add_diff_cancel_right' append_eq_conv_conj length_append)
  then show ?L using a m by (simp add: submatch_here_def)
qed

lemma user_block_match: "user_block t u \<Longrightarrow> \<exists>w. submatch_here RegexpPattern t = Some [w, u]"
  unfolding user_block_def submatch_here_Some by auto

lemma match_user_block: "submatch_here RegexpPattern t = Some m \<Longrightarrow> \<exists>w u. m = [w, u] \<and> user_block t u"
  unfolding user_block_def submatch_here_Some by auto

lemma no_block_no_match: "(\<forall>u. \<not> user_block t u) \<Longrightarrow> submatch_here RegexpPattern t = None"
  using match_user_block by (cases "submatch_here RegexpPattern t") auto

lemma user_block_not_Nil: "\<not> user_block [] u"
  by (simp add: user_block_def)

lemma block_at_0: "block_at cfg 0 u \<longleftrightarrow> user_block cfg u"
  by (simp add: block_at_def)

lemma block_at_Suc: "block_at (c # cs) (Suc i) u \<longleftrightarrow> block_at cs i u"
  by (simp add: block_at_def)

lemma Find_leftmost:
  "block_at cfg i u \<Longrightarrow> (\<forall>j < i. \<forall>v. \<not> block_at cfg j v)
   \<Longrightarrow> \<exists>w. FindStringSubmatch RegexpPattern cfg = [w, u]"
proof (induction cfg arbitrary: i)
  case Nil
  then show ?case by (simp add: block_at_def user_block_not_Nil)
next
  case (Cons c cs)
  show ?case
  proof (cases i)
    case 0
    then have "user_block (c # cs) u" using Cons.prems(1) by (simp add: block_at_0)
    then obtain w where "submatch_here RegexpPattern (c # cs) = Some [w, u]"
      using user_block_match by blast
    then show ?thesis by simp
  next
    case (Suc k)
    have "\<forall>v. \<not> user_block (c # cs) v" using Cons.prems(2) Suc by (auto simp: block_at_0[symmetric])
    then have n: "submatch_here RegexpPattern (c # cs) = None" by (rule no_block_no_match)
    have b: "block_at cs k u" using Cons.prems(1) Suc by (simp add: block_at_Suc)
    have "\<forall>j < k. \<forall>v. \<not> block_at cs j v"
    proof (intro allI impI)
      fix j v assume "j < k"
      then have "\<not> block_at (c # cs) (Suc j) v" using Cons.prems(2) Suc by simp
      then show "\<not> block_at cs j v" by (simp add: block_at_Suc)
    qed
    with b obtain w where "FindStringSubmatch RegexpPattern cs = [w, u]"
      using Cons.IH by blast
    then show ?thesis using n by simp
  qed
qed

lemma Find_none:
  "(\<forall>i u. \<not> block_at cfg i u) \<Longrightarrow> FindStringSubmatch RegexpPattern cfg = []"
proof (induction cfg)
  case Nil
  have "submatch_here RegexpPattern [] = None"
    by (rule no_block_no_match) (simp add: user_block_not_Nil)
  then show ?case by simp
next
  case (Cons c cs)
  have "\<forall>v. \<not> user_block (c # cs) v" using Cons.prems by (auto simp: block_at_0[symmetric])
  then have n: "submatch_here RegexpPattern (c # cs) = None" by (rule no_block_no_match)
  have "\<forall>i u. \<not> block_at cs i u"
    using Cons.prems by (metis block_at_Suc)
  then have "FindStringSubmatch RegexpPattern cs = []" by (rule Cons.IH)
  then show ?case using n by simp
qed

section \<open>The alias resolver\<close>

lemma readFile_Inr:
  "fst (readFile p s) = Inr cfg \<longleftrightarrow>
     (search_dirs (fs s) [] p = None
      \<and> (\<exists>m b. fs s p = Some (File m b) \<and> m AND owner_read \<noteq> 0 \<and> b \<noteq> [] \<and> cfg = take 1024 b))"
  by (auto simp: readFile_def os_Open_def file_Read_def record_ev_def Let_def node_mode_def
      split: option.splits node.splits if_splits)

lemma getAlias_of_text:
  assumes "home s = Some h" and "fst (readFile (h @ [''.ssh'', ''config'']) s) = Inr cfg"
  shows "fst (getAlias s) =
           (if length (FindStringSubmatch RegexpPattern cfg) < 2 then ''project/''
            else ''github.com/'' @ FindStringSubmatch RegexpPattern cfg ! 1 @ ''/'')"
proof -
  obtain s1 where "readFile (h @ [''.ssh'', ''config'']) s = (Inr cfg, s1)"
    using assms(2) by (cases "readFile (h @ [''.ssh'', ''config'']) s") simp
  then show ?thesis
    using assms(1) by (simp add: getAlias_def os_UserHomeDir_def filepath_Join_ssh DefaultAlias_def Let_def)
qed

lemma getAlias_of_error:
  assumes "home s = Some h" and "fst (readFile (h @ [''.ssh'', ''config'']) s) = Inl e"
  shows "fst (getAlias s) = ''project/''"
proof -
  obtain s1 where "readFile (h @ [''.ssh'', ''config'']) s = (Inl e, s1)"
    using assms(2) by (cases "readFile (h @ [''.ssh'', ''config'']) s") simp
  then show ?thesis
    using assms(1) by (simp add: getAlias_def os_UserHomeDir_def filepath_Join_ssh DefaultAlias_def)
qed

lemma block_at_not_Nil: "\<not> block_at [] i u"
  by (simp add: block_at_def user_block_not_Nil)

text \<open>
  What \<open>getAlias\<close> returns, in terms of the bytes it has read: the first 1024 of the
  file, taken as a text of their own.
\<close>

lemma getAlias_block:
  assumes "home s = Some h"
      and "search_dirs (fs s) [] (h @ [''.ssh'', ''config'']) = None"
      and "fs s (h @ [''.ssh'', ''config'']) = Some (File m b)"
      and "m AND owner_read \<noteq> 0"
      and "block_at (take 1024 b) i u"
      and "\<forall>j < i. \<forall>v. \<not> block_at (take 1024 b) j v"
  shows "fst (getAlias s) = ''github.com/'' @ u @ ''/''"
proof -
  have "b \<noteq> []" using assms(5) block_at_not_Nil by auto
  then have r: "fst (readFile (h @ [''.ssh'', ''config'']) s) = Inr (take 1024 b)"
    unfolding readFile_Inr using assms(2,3,4) by simp
  obtain w where "FindStringSubmatch RegexpPattern (take 1024 b) = [w, u]"
    using Find_leftmost[OF assms(5,6)] by blast
  then show ?thesis using getAlias_of_text[OF assms(1) r] by simp
qed

lemma getAlias_no_block:
  assumes "home s = Some h"
      and "fs s (h @ [''.ssh'', ''config'']) = Some (File m b)"
      and "\<forall>i u. \<not> block_at (take 1024 b) i u"
  shows "fst (getAlias s) = ''project/''"
proof (cases "fst (readFile (h @ [''.ssh'', ''config'']) s)")
  case (Inl e)
  with assms(1) show ?thesis by (rule getAlias_of_error)
next
  case (Inr cfg)
  then have "cfg = take 1024 b" using assms(2) unfolding readFile_Inr by auto
  then have "FindStringSubmatch RegexpPattern cfg = []" using assms(3) by (simp add: Find_none)
  then show ?thesis using getAlias_of_text[OF assms(1) Inr] by simp
qed

lemma getAlias_unreadable:
  assumes "home s = Some h"
      and "search_dirs (fs s) [] (h @ [''.ssh'', ''config'']) \<noteq> None
           \<or> fs s (h @ [''.ssh'', ''config'']) = None
           \<or> (\<exists>m. fs s (h @ [''.ssh'', ''config'']) = Some (Dir m))
           \<or> (\<exists>m b. fs s (h @ [''.ssh'', ''config'']) = Some (File m b) \<and> m AND owner_read = 0)
           \<or> (\<exists>m. fs s (h @ [''.ssh'', ''config'']) = Some (File m []))"
  shows "fst (getAlias s) = ''project/''"
proof (cases "fst (readFile (h @ [''.ssh'', ''config'']) s)")
  case (Inl e)
  with assms(1) show ?thesis by (rule getAlias_of_error)
next
  case (Inr cfg)
  then show ?thesis using assms(2) unfolding readFile_Inr by auto
qed

lemma getAlias_reads_only: "fs (snd (getAlias s)) = fs s \<and> cwd (snd (getAlias s)) = cwd s"
  by (simp add: getAlias_def os_UserHomeDir_def readFile_def os_Open_def file_Read_def
      record_ev_def Let_def split: option.splits node.splits)

lemma Find_shape:
  "FindStringSubmatch RegexpPattern cfg = []
   \<or> (\<exists>w u i. FindStringSubmatch RegexpPattern cfg = [w, u] \<and> block_at cfg i u)"
proof (cases "\<exists>i u. block_at cfg i u")
  case False
  then show ?thesis by (simp add: Find_none)
next
  case True
  then obtain i u where "block_at cfg i u" by blast
  then obtain i0 u0 where b: "block_at cfg i0 u0" "\<forall>j < i0. \<forall>v. \<not> block_at cfg j v"
    using exists_least_iff[of "\<lambda>i. \<exists>u. block_at cfg i u"] by (metis not_less_iff_gr_or_eq)
  then obtain w where "FindStringSubmatch RegexpPattern cfg = [w, u0]" using Find_leftmost by blast
  then show ?thesis using b(1) by blast
qed

lemma block_at_user: "block_at cfg i u \<Longrightarrow> u \<noteq> [] \<and> (\<forall>c \<in> set u. is_word c)"
  by (auto simp: block_at_def user_block_def)

lemma getAlias_two_forms:
  "fst (getAlias s) = ''project/''
   \<or> (\<exists>u. u \<noteq> [] \<and> (\<forall>c \<in> set u. is_word c) \<and> fst (getAlias s) = ''github.com/'' @ u @ ''/'')"
proof (cases "home s")
  case None
  then show ?thesis by (simp add: getAlias_no_home)
next
  case (Some h)
  show ?thesis
  proof (cases "fst (readFile (h @ [''.ssh'', ''config'']) s)")
    case (Inl e)
    then show ?thesis using getAlias_of_error[OF Some] by blast
  next
    case (Inr cfg)
    note a = getAlias_of_text[OF Some Inr]
    from Find_shape[of cfg] show ?thesis
    proof
      assume "FindStringSubmatch RegexpPattern cfg = []"
      then show ?thesis using a by simp
    next
      assume "\<exists>w u i. FindStringSubmatch RegexpPattern cfg = [w, u] \<and> block_at cfg i u"
      then obtain w u i where f: "FindStringSubmatch RegexpPattern cfg = [w, u]" and b: "block_at cfg i u"
        by blast
      have "fst (getAlias s) = ''github.com/'' @ u @ ''/''" using a f by simp
      then show ?thesis using block_at_user[OF b] by blast
    qed
  qed
qed

text \<open>
  The same in terms of the file. A block of the first 1024 bytes is the beginning of a
  block of the file, at the same offset; a block of the file is seen as far as byte 1024.
\<close>

lemma user_block_intro:
  assumes "ws \<noteq> []" and "\<forall>c \<in> set ws. is_space c" and "u \<noteq> []" and "\<forall>c \<in> set u. is_word c"
      and "rest = [] \<or> \<not> is_word (hd rest)"
  shows "user_block (''Host github.com'' @ [CHR 0x0A] @ ws @ ''User '' @ u @ rest) u"
  unfolding user_block_def
  by (rule exI[of _ ws], rule exI[of _ rest]) (use assms in simp)

lemma user_block_extend:
  assumes "user_block t v"
  shows "\<exists>v'. user_block (t @ x) v'"
proof -
  obtain ws rest where t: "t = ''Host github.com'' @ [CHR 0x0A] @ ws @ ''User '' @ v @ rest"
    and w: "ws \<noteq> []" "\<forall>c \<in> set ws. is_space c" "v \<noteq> []" "\<forall>c \<in> set v. is_word c"
    and r: "rest = [] \<or> \<not> is_word (hd rest)"
    using assms unfolding user_block_def by blast
  show ?thesis
  proof (cases "rest = []")
    case True
    let ?a = "takeWhile is_word x" and ?r = "dropWhile is_word x"
    have e: "t @ x = ''Host github.com'' @ [CHR 0x0A] @ ws @ ''User '' @ (v @ ?a) @ ?r"
      using t True by simp
    have 1: "?r = [] \<or> \<not> is_word (hd ?r)" by (metis hd_dropWhile)
    have 2: "\<forall>c \<in> set (v @ ?a). is_word c" using w(4) by (auto dest: set_takeWhileD)
    have 3: "v @ ?a \<noteq> []" using w(3) by simp
    have "user_block (t @ x) (v @ ?a)"
      unfolding e using w(1,2) 3 2 1 by (rule user_block_intro)
    then show ?thesis ..
  next
    case False
    have e: "t @ x = ''Host github.com'' @ [CHR 0x0A] @ ws @ ''User '' @ v @ (rest @ x)"
      using t by simp
    have 1: "rest @ x = [] \<or> \<not> is_word (hd (rest @ x))" using False r by simp
    have "user_block (t @ x) v"
      unfolding e using w 1 by (rule user_block_intro)
    then show ?thesis ..
  qed
qed

lemma block_at_take:
  assumes "block_at (take n b) j v"
  shows "\<exists>v'. block_at b j v'"
proof -
  have j: "j \<le> length (take n b)" and u: "user_block (drop j (take n b)) v"
    using assms by (simp_all add: block_at_def)
  have g: "j \<le> length xs \<Longrightarrow> drop j (xs @ ys) = drop j xs @ ys" for xs ys :: string
    by simp
  have d: "drop j b = drop j (take n b) @ drop n b"
    using g[OF j, of "drop n b"] by simp
  obtain v' where "user_block (drop j b) v'"
    unfolding d using user_block_extend[OF u] by blast
  moreover have "j \<le> length b" using j by simp
  ultimately show ?thesis unfolding block_at_def by blast
qed

lemma block_at_nth: "block_at b j v \<Longrightarrow> j < length b \<and> b ! j = CHR ''H''"
proof -
  assume "block_at b j v"
  then obtain r where d: "drop j b = CHR ''H'' # r"
    by (auto simp: block_at_def user_block_def)
  then have l: "j < length b" by (metis drop_all list.distinct(1) not_le)
  then have "b ! j = hd (drop j b)" by (simp add: hd_drop_conv_nth)
  then show ?thesis using l d by simp
qed

lemma take_block:
  assumes "b = pre @ ''Host github.com'' @ [CHR 0x0A] @ ws @ ''User '' @ u @ rest"
      and "ws \<noteq> []" and "\<forall>c \<in> set ws. is_space c" and "u \<noteq> []" and "\<forall>c \<in> set u. is_word c"
      and "rest = [] \<or> \<not> is_word (hd rest)"
      and "length (pre @ ''Host github.com'' @ [CHR 0x0A] @ ws @ ''User '') < n"
  shows "block_at (take n b) (length pre)
           (take (n - length (pre @ ''Host github.com'' @ [CHR 0x0A] @ ws @ ''User '')) u)"
proof -
  define P where "P = pre @ ''Host github.com'' @ [CHR 0x0A] @ ws @ ''User ''"
  define k where "k = n - length P"
  have k: "0 < k" and n: "n = length P + k" using assms(7) by (simp_all add: k_def P_def)
  have b: "b = P @ u @ rest" using assms(1) by (simp add: P_def)
  let ?u = "take k u" and ?r = "take (k - length u) rest"
  have tb: "take n b = P @ ?u @ ?r" unfolding b n by simp
  have 1: "?u \<noteq> []" using k assms(4) by simp
  have 2: "\<forall>c \<in> set ?u. is_word c" using assms(5) by (auto dest: in_set_takeD)
  have 3: "?r = [] \<or> \<not> is_word (hd ?r)"
  proof (cases "k - length u = 0 \<or> rest = []")
    case True
    then show ?thesis by auto
  next
    case False
    then have "hd ?r = hd rest" by (simp add: hd_take)
    then show ?thesis using False assms(6) by simp
  qed
  have ub: "user_block (''Host github.com'' @ [CHR 0x0A] @ ws @ ''User '' @ ?u @ ?r) ?u"
    using assms(2,3) 1 2 3 by (rule user_block_intro)
  have d: "drop (length pre) (take n b) = ''Host github.com'' @ [CHR 0x0A] @ ws @ ''User '' @ ?u @ ?r"
    unfolding tb by (simp add: P_def)
  have l: "length pre \<le> length (take n b)" unfolding tb by (simp add: P_def)
  show ?thesis
    unfolding block_at_def d using l ub by (simp add: k_def P_def)
qed

lemma no_user_block:
  assumes "\<forall>c \<in> set ws. is_space c" and "r = [] \<or> \<not> is_word (hd r)"
  shows "\<not> user_block (''Host github.com'' @ [CHR 0x0A] @ ws @ ''User '' @ r) v"
proof
  define H where "H = ''Host github.com'' @ [CHR 0x0A]"
  define U where "U = ''User ''"
  define t where "t = H @ ws @ U @ r"
  assume "user_block (''Host github.com'' @ [CHR 0x0A] @ ws @ ''User '' @ r) v"
  then have "user_block t v" by (simp add: t_def H_def U_def)
  then obtain w where "submatch_here RegexpPattern t = Some [w, v]"
    using user_block_match by blast
  then have s: "match_atoms RegexpPattern t [] \<noteq> None"
    by (auto simp: submatch_here_def split: option.splits)
  have M: "match_atoms RegexpPattern t [] =
     (if prefix H t then
         if takeWhile is_space (drop (length H) t) = [] then None
         else if prefix U (dropWhile is_space (drop (length H) t)) then
            if takeWhile is_word (drop (length U) (dropWhile is_space (drop (length H) t))) = [] then None
            else Some (dropWhile is_word (drop (length U) (dropWhile is_space (drop (length H) t))),
                       [] @ [takeWhile is_word (drop (length U) (dropWhile is_space (drop (length H) t)))])
         else None
      else None)"
    unfolding match_RegexpPattern H_def U_def Let_def ..
  have nU: "U @ r = [] \<or> \<not> is_space (hd (U @ r))" by (simp add: is_space_def U_def)
  have 1: "takeWhile is_space (ws @ U @ r) = ws \<and> dropWhile is_space (ws @ U @ r) = U @ r"
    using assms(1) nU by (rule takeWhile_run)
  have 3: "takeWhile is_word r = []" using assms(2) by (cases r) auto
  have d1: "drop (length H) t = ws @ U @ r" by (simp add: t_def)
  have d2: "drop (length U) (U @ r) = r" by simp
  have "match_atoms RegexpPattern t [] = None"
    unfolding M d1 using 1 3 by (simp add: d2)
  then show False using s by simp
qed

lemma getAlias_no_early_block:
  assumes "home s = Some h"
      and "fs s (h @ [''.ssh'', ''config'']) = Some (File m b)"
      and "\<forall>j < 1024. \<forall>v. \<not> block_at b j v"
  shows "fst (getAlias s) = ''project/''"
proof -
  have "\<not> block_at (take 1024 b) i u" for i u
  proof
    assume a: "block_at (take 1024 b) i u"
    then have "i < length (take 1024 b)" using block_at_nth by blast
    then have "i < 1024" by simp
    moreover obtain v where "block_at b i v" using block_at_take[OF a] by blast
    ultimately show False using assms(3) by blast
  qed
  then show ?thesis using getAlias_no_block[OF assms(1,2)] by blast
qed

lemma getAlias_cut:
  assumes "home s = Some h"
      and "search_dirs (fs s) [] (h @ [''.ssh'', ''config'']) = None"
      and "fs s (h @ [''.ssh'', ''config'']) = Some (File m b)"
      and "m AND owner_read \<noteq> 0"
      and "b = pre @ ''Host github.com'' @ [CHR 0x0A] @ ws @ ''User '' @ u @ rest"
      and "ws \<noteq> []" and "\<forall>c \<in> set ws. is_space c" and "u \<noteq> []" and "\<forall>c \<in> set u. is_word c"
      and "rest = [] \<or> \<not> is_word (hd rest)"
      and "\<forall>j < length pre. \<forall>v. \<not> block_at b j v"
      and "length (pre @ ''Host github.com'' @ [CHR 0x0A] @ ws @ ''User '') < 1024"
  shows "fst (getAlias s) =
           ''github.com/''
           @ take (1024 - length (pre @ ''Host github.com'' @ [CHR 0x0A] @ ws @ ''User '')) u @ ''/''"
proof -
  have 1: "block_at (take 1024 b) (length pre)
             (take (1024 - length (pre @ ''Host github.com'' @ [CHR 0x0A] @ ws @ ''User '')) u)"
    using assms(5,6,7,8,9,10,12) by (rule take_block)
  have 2: "\<forall>j < length pre. \<forall>v. \<not> block_at (take 1024 b) j v"
    using assms(11) block_at_take by blast
  show ?thesis using assms(1,2,3,4) 1 2 by (rule getAlias_block)
qed

lemma getAlias_whole:
  assumes "home s = Some h"
      and "search_dirs (fs s) [] (h @ [''.ssh'', ''config'']) = None"
      and "fs s (h @ [''.ssh'', ''config'']) = Some (File m b)"
      and "m AND owner_read \<noteq> 0"
      and "b = pre @ ''Host github.com'' @ [CHR 0x0A] @ ws @ ''User '' @ u @ rest"
      and "ws \<noteq> []" and "\<forall>c \<in> set ws. is_space c" and "u \<noteq> []" and "\<forall>c \<in> set u. is_word c"
      and "rest = [] \<or> \<not> is_word (hd rest)"
      and "\<forall>j < length pre. \<forall>v. \<not> block_at b j v"
      and "length (pre @ ''Host github.com'' @ [CHR 0x0A] @ ws @ ''User '' @ u) \<le> 1024"
  shows "fst (getAlias s) = ''github.com/'' @ u @ ''/''"
proof -
  have l: "length (pre @ ''Host github.com'' @ [CHR 0x0A] @ ws @ ''User '') < 1024"
    using assms(8,12) by (cases u) simp_all
  have "length u \<le> 1024 - length (pre @ ''Host github.com'' @ [CHR 0x0A] @ ws @ ''User '')"
    using assms(12) by simp
  then have "take (1024 - length (pre @ ''Host github.com'' @ [CHR 0x0A] @ ws @ ''User '')) u = u"
    by (rule take_all)
  then show ?thesis
    using getAlias_cut[OF assms(1,2,3,4,5,6,7,8,9,10,11) l] by simp
qed

lemma getAlias_name_beyond:
  assumes "home s = Some h"
      and "fs s (h @ [''.ssh'', ''config'']) = Some (File m b)"
      and "b = pre @ ''Host github.com'' @ [CHR 0x0A] @ ws @ ''User '' @ rest"
      and "\<forall>c \<in> set ws. is_space c"
      and "\<forall>j < length pre. \<forall>v. \<not> block_at b j v"
      and "1024 \<le> length (pre @ ''Host github.com'' @ [CHR 0x0A] @ ws @ ''User '')"
  shows "fst (getAlias s) = ''project/''"
proof -
  define Y where "Y = ''Host github.com'' @ [CHR 0x0A] @ ws @ ''User ''"
  have b: "b = pre @ Y @ rest" using assms(3) by (simp add: Y_def)
  have len: "1024 \<le> length (pre @ Y)" using assms(6) by (simp add: Y_def)
  have nH: "CHR ''H'' \<notin> set (tl Y)"
  proof -
    have "\<not> is_space (CHR ''H'')" by (simp add: is_space_def)
    then have "CHR ''H'' \<notin> set ws" using assms(4) by blast
    then show ?thesis by (simp add: Y_def)
  qed
  have nY: "\<not> user_block Y v" for v
    using no_user_block[OF assms(4), of "[]" v] by (simp add: Y_def)
  have "\<not> block_at (take 1024 b) i v" for i v
  proof
    assume a: "block_at (take 1024 b) i v"
    show False
    proof (cases "i < length pre")
      case True
      obtain v' where "block_at b i v'" using block_at_take[OF a] by blast
      then show False using assms(5) True by blast
    next
      case False
      have "i < length (take 1024 b)" using a block_at_nth by blast
      then have "length pre \<le> 1024" using False by simp
      then have tb: "take 1024 b = pre @ take (1024 - length pre) Y"
        using len unfolding b by simp
      define d where "d = i - length pre"
      have i: "i = length pre + d" using False by (simp add: d_def)
      have dr: "drop i (take 1024 b) = drop d (take (1024 - length pre) Y)"
        unfolding tb i by simp
      have ub: "user_block (drop d (take (1024 - length pre) Y)) v"
        using a unfolding block_at_def dr by simp
      show False
      proof (cases d)
        case 0
        then have "user_block (take (1024 - length pre) Y) v" using ub by simp
        then obtain v' where "user_block (take (1024 - length pre) Y @ drop (1024 - length pre) Y) v'"
          using user_block_extend by blast
        then show False using nY by simp
      next
        case (Suc d')
        obtain r where h: "drop d (take (1024 - length pre) Y) = CHR ''H'' # r"
          using ub by (auto simp: user_block_def)
        have "CHR ''H'' \<in> set (drop d (take (1024 - length pre) Y))" unfolding h by simp
        then have "CHR ''H'' \<in> set (drop d Y)"
          by (metis drop_take in_set_takeD)
        then have "CHR ''H'' \<in> set (tl Y)"
          unfolding Suc drop_Suc by (rule in_set_dropD)
        then show False using nH by simp
      qed
    qed
  qed
  then show ?thesis using getAlias_no_block[OF assms(1,2)] by blast
qed

lemma ssh_sys_home: "home (ssh_sys c) = Some [''home'', ''u'']"
  by (simp add: ssh_sys_def)

lemma ssh_sys_dirs: "search_dirs (fs (ssh_sys c)) [] ([''home'', ''u''] @ [''.ssh'', ''config'']) = None"
  by (simp add: ssh_sys_def owner_exec_def)

lemma ssh_sys_file: "fs (ssh_sys c) ([''home'', ''u''] @ [''.ssh'', ''config'']) = Some (File 384 c)"
  by (simp add: ssh_sys_def)

lemma mode_600_read: "(384 :: perm) AND owner_read \<noteq> 0"
  by (simp add: owner_read_def)

lemma locked_sys_file:
  "home (locked_sys c) = Some [''home'', ''u'']
   \<and> fs (locked_sys c) ([''home'', ''u''] @ [''.ssh'', ''config'']) = Some (File 0 c)"
  by (simp add: locked_sys_def ssh_sys_def)

lemma spaces_no_block: "j < n \<Longrightarrow> \<not> block_at (replicate n (CHR '' '') @ x) j v"
proof
  assume j: "j < n" and "block_at (replicate n (CHR '' '') @ x) j v"
  then have "(replicate n (CHR '' '') @ x) ! j = CHR ''H''" using block_at_nth by blast
  then show False using j by (simp add: nth_append)
qed

lemma one_H_block: "CHR ''H'' \<notin> set cs \<Longrightarrow> block_at (c # cs) j v \<Longrightarrow> j = 0"
proof (rule ccontr)
  assume n: "CHR ''H'' \<notin> set cs" and b: "block_at (c # cs) j v" and "j \<noteq> 0"
  then obtain k where k: "j = Suc k" by (cases j) auto
  have "j < length (c # cs)" and "(c # cs) ! j = CHR ''H''" using block_at_nth[OF b] by auto
  then have "k < length cs" and "cs ! k = CHR ''H''" using k by auto
  then show False using n by (metis nth_mem)
qed

text \<open>
  Claim C2, amended. \<open>getAlias\<close> returns a string in every state, the default or
  \<open>github.com/u/\<close> for a non-empty \<open>u\<close> of word characters, and changes neither the file
  tree nor the working directory. It is \<open>project/\<close> when \<open>HOME\<close> is unset; when
  \<open>.ssh/config\<close> under \<open>HOME\<close> is missing, may not be opened for reading, is a directory or
  is empty; and when no well-formed block of the file starts within its first 1024
  bytes. Otherwise take the leftmost well-formed block of the file: \<open>Host github.com\<close>, a
  newline, whitespace, \<open>User\<close>, a space and the name \<open>u\<close>. When the name ends within the
  first 1024 bytes, the alias is \<open>github.com/u/\<close>. When the name begins within them and
  runs past byte 1024, it is cut there: the alias is built from the part of \<open>u\<close> that was
  read. When the name begins at byte 1024 or later, the alias is \<open>project/\<close>.
\<close>

theorem getAlias_total_cases:
  "(home s = None \<longrightarrow> fst (getAlias s) = ''project/'')
   \<and> (\<forall>h. home s = Some h
          \<and> (search_dirs (fs s) [] (h @ [''.ssh'', ''config'']) \<noteq> None
             \<or> fs s (h @ [''.ssh'', ''config'']) = None
             \<or> (\<exists>m. fs s (h @ [''.ssh'', ''config'']) = Some (Dir m))
             \<or> (\<exists>m b. fs s (h @ [''.ssh'', ''config'']) = Some (File m b) \<and> m AND owner_read = 0)
             \<or> (\<exists>m. fs s (h @ [''.ssh'', ''config'']) = Some (File m [])))
        \<longrightarrow> fst (getAlias s) = ''project/'')
   \<and> (\<forall>h m b. home s = Some h \<and> fs s (h @ [''.ssh'', ''config'']) = Some (File m b)
          \<and> (\<forall>j < 1024. \<forall>v. \<not> block_at b j v)
        \<longrightarrow> fst (getAlias s) = ''project/'')
   \<and> (\<forall>h m b pre ws u rest.
          home s = Some h \<and> search_dirs (fs s) [] (h @ [''.ssh'', ''config'']) = None
          \<and> fs s (h @ [''.ssh'', ''config'']) = Some (File m b) \<and> m AND owner_read \<noteq> 0
          \<and> b = pre @ ''Host github.com'' @ [CHR 0x0A] @ ws @ ''User '' @ u @ rest
          \<and> ws \<noteq> [] \<and> (\<forall>c \<in> set ws. is_space c) \<and> u \<noteq> [] \<and> (\<forall>c \<in> set u. is_word c)
          \<and> (rest = [] \<or> \<not> is_word (hd rest))
          \<and> (\<forall>j < length pre. \<forall>v. \<not> block_at b j v)
        \<longrightarrow> (length (pre @ ''Host github.com'' @ [CHR 0x0A] @ ws @ ''User '' @ u) \<le> 1024
               \<longrightarrow> fst (getAlias s) = ''github.com/'' @ u @ ''/'')
            \<and> (length (pre @ ''Host github.com'' @ [CHR 0x0A] @ ws @ ''User '') < 1024
               \<longrightarrow> fst (getAlias s) =
                     ''github.com/''
                     @ take (1024 - length (pre @ ''Host github.com'' @ [CHR 0x0A] @ ws @ ''User '')) u
                     @ ''/'')
            \<and> (1024 \<le> length (pre @ ''Host github.com'' @ [CHR 0x0A] @ ws @ ''User '')
               \<longrightarrow> fst (getAlias s) = ''project/''))
   \<and> fs (snd (getAlias s)) = fs s \<and> cwd (snd (getAlias s)) = cwd s
   \<and> (fst (getAlias s) = ''project/''
      \<or> (\<exists>u. u \<noteq> [] \<and> (\<forall>c \<in> set u. is_word c) \<and> fst (getAlias s) = ''github.com/'' @ u @ ''/''))"
proof -
  have c1: "home s = None \<longrightarrow> fst (getAlias s) = ''project/''"
    by (simp add: getAlias_no_home)
  have c2: "\<forall>h. home s = Some h
          \<and> (search_dirs (fs s) [] (h @ [''.ssh'', ''config'']) \<noteq> None
             \<or> fs s (h @ [''.ssh'', ''config'']) = None
             \<or> (\<exists>m. fs s (h @ [''.ssh'', ''config'']) = Some (Dir m))
             \<or> (\<exists>m b. fs s (h @ [''.ssh'', ''config'']) = Some (File m b) \<and> m AND owner_read = 0)
             \<or> (\<exists>m. fs s (h @ [''.ssh'', ''config'']) = Some (File m [])))
        \<longrightarrow> fst (getAlias s) = ''project/''"
    using getAlias_unreadable[of s] by blast
  have c3: "\<forall>h m b. home s = Some h \<and> fs s (h @ [''.ssh'', ''config'']) = Some (File m b)
          \<and> (\<forall>j < 1024. \<forall>v. \<not> block_at b j v)
        \<longrightarrow> fst (getAlias s) = ''project/''"
    using getAlias_no_early_block[of s] by blast
  have c4: "\<forall>h m b pre ws u rest.
          home s = Some h \<and> search_dirs (fs s) [] (h @ [''.ssh'', ''config'']) = None
          \<and> fs s (h @ [''.ssh'', ''config'']) = Some (File m b) \<and> m AND owner_read \<noteq> 0
          \<and> b = pre @ ''Host github.com'' @ [CHR 0x0A] @ ws @ ''User '' @ u @ rest
          \<and> ws \<noteq> [] \<and> (\<forall>c \<in> set ws. is_space c) \<and> u \<noteq> [] \<and> (\<forall>c \<in> set u. is_word c)
          \<and> (rest = [] \<or> \<not> is_word (hd rest))
          \<and> (\<forall>j < length pre. \<forall>v. \<not> block_at b j v)
        \<longrightarrow> (length (pre @ ''Host github.com'' @ [CHR 0x0A] @ ws @ ''User '' @ u) \<le> 1024
               \<longrightarrow> fst (getAlias s) = ''github.com/'' @ u @ ''/'')
            \<and> (length (pre @ ''Host github.com'' @ [CHR 0x0A] @ ws @ ''User '') < 1024
               \<longrightarrow> fst (getAlias s) =
                     ''github.com/''
                     @ take (1024 - length (pre @ ''Host github.com'' @ [CHR 0x0A] @ ws @ ''User '')) u
                     @ ''/'')
            \<and> (1024 \<le> length (pre @ ''Host github.com'' @ [CHR 0x0A] @ ws @ ''User '')
               \<longrightarrow> fst (getAlias s) = ''project/'')"
  proof (intro allI impI)
    fix h m b pre ws u rest
    assume a: "home s = Some h \<and> search_dirs (fs s) [] (h @ [''.ssh'', ''config'']) = None
          \<and> fs s (h @ [''.ssh'', ''config'']) = Some (File m b) \<and> m AND owner_read \<noteq> 0
          \<and> b = pre @ ''Host github.com'' @ [CHR 0x0A] @ ws @ ''User '' @ u @ rest
          \<and> ws \<noteq> [] \<and> (\<forall>c \<in> set ws. is_space c) \<and> u \<noteq> [] \<and> (\<forall>c \<in> set u. is_word c)
          \<and> (rest = [] \<or> \<not> is_word (hd rest))
          \<and> (\<forall>j < length pre. \<forall>v. \<not> block_at b j v)"
    then have f: "home s = Some h" "search_dirs (fs s) [] (h @ [''.ssh'', ''config'']) = None"
      "fs s (h @ [''.ssh'', ''config'']) = Some (File m b)" "m AND owner_read \<noteq> 0"
      "b = pre @ ''Host github.com'' @ [CHR 0x0A] @ ws @ ''User '' @ u @ rest"
      "ws \<noteq> []" "\<forall>c \<in> set ws. is_space c" "u \<noteq> []" "\<forall>c \<in> set u. is_word c"
      "rest = [] \<or> \<not> is_word (hd rest)"
      "\<forall>j < length pre. \<forall>v. \<not> block_at b j v"
      by blast+
    have g: "b = pre @ ''Host github.com'' @ [CHR 0x0A] @ ws @ ''User '' @ (u @ rest)"
      using f(5) by simp
    show "(length (pre @ ''Host github.com'' @ [CHR 0x0A] @ ws @ ''User '' @ u) \<le> 1024
               \<longrightarrow> fst (getAlias s) = ''github.com/'' @ u @ ''/'')
            \<and> (length (pre @ ''Host github.com'' @ [CHR 0x0A] @ ws @ ''User '') < 1024
               \<longrightarrow> fst (getAlias s) =
                     ''github.com/''
                     @ take (1024 - length (pre @ ''Host github.com'' @ [CHR 0x0A] @ ws @ ''User '')) u
                     @ ''/'')
            \<and> (1024 \<le> length (pre @ ''Host github.com'' @ [CHR 0x0A] @ ws @ ''User '')
               \<longrightarrow> fst (getAlias s) = ''project/'')"
      using getAlias_whole[OF f] getAlias_cut[OF f] getAlias_name_beyond[OF f(1,3) g f(7,11)]
      by blast
  qed
  note c5 = getAlias_reads_only[of s, THEN conjunct1] and c6 = getAlias_reads_only[of s, THEN conjunct2]
  show ?thesis by (intro conjI c1 c2 c3 c4 c5 c6 getAlias_two_forms)
qed

theorem getAlias_total_cases_witness:
  "fst (getAlias demo_sys) = ''project/''
   \<and> fst (getAlias (locked_sys (''Host github.com'' @ [CHR 0x0A] @ ''  User alex'' @ [CHR 0x0A]))) = ''project/''
   \<and> fst (getAlias (ssh_sys (replicate 1024 (CHR '' '') @ ''Host github.com'' @ [CHR 0x0A] @ ''  User alex''))) = ''project/''
   \<and> fst (getAlias (ssh_sys (''Host github.com'' @ [CHR 0x0A] @ ''  User alex'' @ [CHR 0x0A]))) = ''github.com/alex/''
   \<and> fst (getAlias (ssh_sys (replicate 1000 (CHR '' '') @ ''Host github.com'' @ [CHR 0x0A] @ '' User alexander''))) = ''github.com/al/''
   \<and> fst (getAlias (ssh_sys (replicate 1010 (CHR '' '') @ ''Host github.com'' @ [CHR 0x0A] @ '' User alexander''))) = ''project/''"
proof -
  let ?c1 = "''Host github.com'' @ [CHR 0x0A] @ ''  User alex'' @ [CHR 0x0A]"
  let ?c2 = "replicate 1024 (CHR '' '') @ ''Host github.com'' @ [CHR 0x0A] @ ''  User alex''"
  let ?c3 = "replicate 1000 (CHR '' '') @ ''Host github.com'' @ [CHR 0x0A] @ '' User alexander''"
  let ?c4 = "replicate 1010 (CHR '' '') @ ''Host github.com'' @ [CHR 0x0A] @ '' User alexander''"
  let ?h = "[''home'', ''u'']"
  have "home demo_sys = None" by (simp add: demo_sys_def)
  then have a0: "fst (getAlias demo_sys) = ''project/''"
    using getAlias_total_cases[of demo_sys] by blast
  have "(0 :: perm) AND owner_read = 0" by simp
  then have a1: "fst (getAlias (locked_sys ?c1)) = ''project/''"
    using getAlias_total_cases[of "locked_sys ?c1", THEN conjunct2, THEN conjunct1, rule_format, of ?h]
      locked_sys_file[of ?c1]
    by blast
  have n2: "\<forall>j < 1024. \<forall>v. \<not> block_at ?c2 j v" using spaces_no_block by blast
  have a2: "fst (getAlias (ssh_sys ?c2)) = ''project/''"
    using getAlias_total_cases[of "ssh_sys ?c2", THEN conjunct2, THEN conjunct2,
        THEN conjunct1, rule_format, of ?h 384 ?c2] ssh_sys_home[of ?c2] ssh_sys_file[of ?c2] n2
    by blast
  have w: "''  '' \<noteq> []" "\<forall>c \<in> set ''  ''. is_space c" "'' '' \<noteq> []" "\<forall>c \<in> set '' ''. is_space c"
    "''alex'' \<noteq> []" "\<forall>c \<in> set ''alex''. is_word c"
    "''alexander'' \<noteq> []" "\<forall>c \<in> set ''alexander''. is_word c"
    "\<not> is_word (hd [CHR 0x0A])"
    by (simp_all add: is_space_def is_word_def)
  note T = getAlias_total_cases[THEN conjunct2, THEN conjunct2, THEN conjunct2, THEN conjunct1, rule_format]
  have e1: "?c1 = [] @ ''Host github.com'' @ [CHR 0x0A] @ ''  '' @ ''User '' @ ''alex'' @ [CHR 0x0A]"
    by simp
  have n1: "\<forall>j < length ([] :: string). \<forall>v. \<not> block_at ?c1 j v" by simp
  have "length ([] @ ''Host github.com'' @ [CHR 0x0A] @ ''  '' @ ''User '' @ ''alex'') \<le> 1024" by simp
  then have a3: "fst (getAlias (ssh_sys ?c1)) = ''github.com/'' @ ''alex'' @ ''/''"
    using T[of "ssh_sys ?c1" ?h 384 ?c1 "[]" "''  ''" "''alex''" "[CHR 0x0A]", THEN conjunct1]
      ssh_sys_home[of ?c1] ssh_sys_dirs[of ?c1] ssh_sys_file[of ?c1] mode_600_read e1 n1 w
    by blast
  have e3: "?c3 = replicate 1000 (CHR '' '') @ ''Host github.com'' @ [CHR 0x0A] @ '' '' @ ''User '' @ ''alexander'' @ []"
    by simp
  have n3: "\<forall>j < length (replicate 1000 (CHR '' '')). \<forall>v. \<not> block_at ?c3 j v"
    using spaces_no_block by simp
  have l3: "length (replicate 1000 (CHR '' '') @ ''Host github.com'' @ [CHR 0x0A] @ '' '' @ ''User '') < 1024"
    by simp
  have a4': "fst (getAlias (ssh_sys ?c3)) =
       ''github.com/''
       @ take (1024 - length (replicate 1000 (CHR '' '') @ ''Host github.com'' @ [CHR 0x0A] @ '' '' @ ''User '')) ''alexander''
       @ ''/''"
    using T[of "ssh_sys ?c3" ?h 384 ?c3 "replicate 1000 (CHR '' '')" "'' ''" "''alexander''" "[]",
        THEN conjunct2, THEN conjunct1]
      ssh_sys_home[of ?c3] ssh_sys_dirs[of ?c3] ssh_sys_file[of ?c3] mode_600_read e3 n3 l3 w
    by blast
  have a4: "fst (getAlias (ssh_sys ?c3)) = ''github.com/al/''"
    unfolding a4' by simp
  have e4: "?c4 = replicate 1010 (CHR '' '') @ ''Host github.com'' @ [CHR 0x0A] @ '' '' @ ''User '' @ ''alexander'' @ []"
    by simp
  have n4: "\<forall>j < length (replicate 1010 (CHR '' '')). \<forall>v. \<not> block_at ?c4 j v"
    using spaces_no_block by simp
  have l4: "1024 \<le> length (replicate 1010 (CHR '' '') @ ''Host github.com'' @ [CHR 0x0A] @ '' '' @ ''User '')"
    by simp
  have a5: "fst (getAlias (ssh_sys ?c4)) = ''project/''"
    using T[of "ssh_sys ?c4" ?h 384 ?c4 "replicate 1010 (CHR '' '')" "'' ''" "''alexander''" "[]",
        THEN conjunct2, THEN conjunct2]
      ssh_sys_home[of ?c4] ssh_sys_dirs[of ?c4] ssh_sys_file[of ?c4] mode_600_read e4 n4 l4 w
    by blast
  show ?thesis using a0 a1 a2 a3 a4 a5 by simp
qed

theorem getAlias_cut_block_counterexample:
  "user_block (''Host github.com'' @ [CHR 0x0A] @ '' User alexander'') ''alexander''
   \<and> fst (getAlias (ssh_sys (replicate 1000 (CHR '' '') @ ''Host github.com'' @ [CHR 0x0A] @ '' User alexander'')))
       = ''github.com/al/''
   \<and> fst (getAlias (ssh_sys (replicate 1000 (CHR '' '') @ ''Host github.com'' @ [CHR 0x0A] @ '' User alexander'')))
       \<noteq> ''project/''"
proof -
  let ?c3 = "replicate 1000 (CHR '' '') @ ''Host github.com'' @ [CHR 0x0A] @ '' User alexander''"
  have w: "'' '' \<noteq> []" "\<forall>c \<in> set '' ''. is_space c"
    "''alexander'' \<noteq> []" "\<forall>c \<in> set ''alexander''. is_word c" "([] :: string) = [] \<or> \<not> is_word (hd [])"
    by (simp_all add: is_space_def is_word_def)
  have "user_block (''Host github.com'' @ [CHR 0x0A] @ '' '' @ ''User '' @ ''alexander'' @ []) ''alexander''"
    using w by (rule user_block_intro)
  then have u: "user_block (''Host github.com'' @ [CHR 0x0A] @ '' User alexander'') ''alexander''"
    by simp
  have e3: "?c3 = replicate 1000 (CHR '' '') @ ''Host github.com'' @ [CHR 0x0A] @ '' '' @ ''User '' @ ''alexander'' @ []"
    by simp
  have n3: "\<forall>j < length (replicate 1000 (CHR '' '')). \<forall>v. \<not> block_at ?c3 j v"
    using spaces_no_block by simp
  have l3: "length (replicate 1000 (CHR '' '') @ ''Host github.com'' @ [CHR 0x0A] @ '' '' @ ''User '') < 1024"
    by simp
  have "fst (getAlias (ssh_sys ?c3)) =
       ''github.com/''
       @ take (1024 - length (replicate 1000 (CHR '' '') @ ''Host github.com'' @ [CHR 0x0A] @ '' '' @ ''User '')) ''alexander''
       @ ''/''"
    using ssh_sys_home ssh_sys_dirs ssh_sys_file mode_600_read e3 w n3 l3 by (rule getAlias_cut)
  then have a: "fst (getAlias (ssh_sys ?c3)) = ''github.com/al/''" by simp
  show ?thesis using u a by simp
qed

text \<open>
  Claim C5, amended. The pattern matches the text \<open>Host github.com\<close> followed at once by
  a newline, then one or more further whitespace bytes (the indentation, blank lines),
  then \<open>User\<close>, a space and a name of word characters, which it captures; every match
  has this shape, so a Host line with trailing spaces, or a \<open>User\<close> at the very start of
  the next line, is not matched. \<open>getAlias\<close> applies the pattern to the bytes it has
  read, the first 1024 of the file: it builds the alias from the name captured by the
  leftmost match and returns the default when there is none. So for every readable
  configuration whose leftmost text of that shape ends, name included, within the first
  1024 bytes, \<open>getAlias\<close> returns \<open>github.com/\<close>, the name and a slash.
\<close>

theorem RegexpPattern_matches:
  "(\<forall>ws u rest. ws \<noteq> [] \<and> (\<forall>c \<in> set ws. is_space c) \<and> u \<noteq> [] \<and> (\<forall>c \<in> set u. is_word c)
       \<and> (rest = [] \<or> \<not> is_word (hd rest))
     \<longrightarrow> FindStringSubmatch RegexpPattern (''Host github.com'' @ [CHR 0x0A] @ ws @ ''User '' @ u @ rest)
           = [''Host github.com'' @ [CHR 0x0A] @ ws @ ''User '' @ u, u])
   \<and> (\<forall>t m. submatch_here RegexpPattern t = Some m
     \<longrightarrow> (\<exists>ws u rest. t = ''Host github.com'' @ [CHR 0x0A] @ ws @ ''User '' @ u @ rest
            \<and> ws \<noteq> [] \<and> (\<forall>c \<in> set ws. is_space c) \<and> u \<noteq> [] \<and> (\<forall>c \<in> set u. is_word c)
            \<and> m = [''Host github.com'' @ [CHR 0x0A] @ ws @ ''User '' @ u, u]))
   \<and> (\<forall>s h m b. home s = Some h \<and> search_dirs (fs s) [] (h @ [''.ssh'', ''config'']) = None
          \<and> fs s (h @ [''.ssh'', ''config'']) = Some (File m b) \<and> m AND owner_read \<noteq> 0 \<and> b \<noteq> []
     \<longrightarrow> fst (getAlias s) =
           (case FindStringSubmatch RegexpPattern (take 1024 b) of
              [w, u] \<Rightarrow> ''github.com/'' @ u @ ''/''
            | _ \<Rightarrow> ''project/''))
   \<and> (\<forall>s h m b pre ws u rest.
          home s = Some h \<and> search_dirs (fs s) [] (h @ [''.ssh'', ''config'']) = None
          \<and> fs s (h @ [''.ssh'', ''config'']) = Some (File m b) \<and> m AND owner_read \<noteq> 0
          \<and> b = pre @ ''Host github.com'' @ [CHR 0x0A] @ ws @ ''User '' @ u @ rest
          \<and> ws \<noteq> [] \<and> (\<forall>c \<in> set ws. is_space c) \<and> u \<noteq> [] \<and> (\<forall>c \<in> set u. is_word c)
          \<and> (rest = [] \<or> \<not> is_word (hd rest))
          \<and> (\<forall>j < length pre. \<forall>v. \<not> block_at b j v)
          \<and> length (pre @ ''Host github.com'' @ [CHR 0x0A] @ ws @ ''User '' @ u) \<le> 1024
        \<longrightarrow> fst (getAlias s) = ''github.com/'' @ u @ ''/'')"
proof (intro conjI allI impI)
  fix ws u rest
  assume a: "ws \<noteq> [] \<and> (\<forall>c \<in> set ws. is_space c) \<and> u \<noteq> [] \<and> (\<forall>c \<in> set u. is_word c)
       \<and> (rest = [] \<or> \<not> is_word (hd rest))"
  let ?t = "(''Host github.com'' @ [CHR 0x0A]) @ ws @ ''User '' @ u @ rest"
  have "submatch_here RegexpPattern ?t = Some [(''Host github.com'' @ [CHR 0x0A]) @ ws @ ''User '' @ u, u]"
    unfolding submatch_here_Some using a by blast
  moreover obtain c cs where "?t = c # cs" by simp
  ultimately have "FindStringSubmatch RegexpPattern ?t = [(''Host github.com'' @ [CHR 0x0A]) @ ws @ ''User '' @ u, u]"
    by (metis FindStringSubmatch.simps(2) option.simps(5))
  then show "FindStringSubmatch RegexpPattern (''Host github.com'' @ [CHR 0x0A] @ ws @ ''User '' @ u @ rest)
           = [''Host github.com'' @ [CHR 0x0A] @ ws @ ''User '' @ u, u]"
    by simp
next
  fix t m
  assume "submatch_here RegexpPattern t = Some m"
  then obtain ws u rest where
    "t = (''Host github.com'' @ [CHR 0x0A]) @ ws @ ''User '' @ u @ rest"
    "ws \<noteq> []" "\<forall>c \<in> set ws. is_space c" "u \<noteq> []" "\<forall>c \<in> set u. is_word c"
    "m = [(''Host github.com'' @ [CHR 0x0A]) @ ws @ ''User '' @ u, u]"
    unfolding submatch_here_Some by blast
  then show "\<exists>ws u rest. t = ''Host github.com'' @ [CHR 0x0A] @ ws @ ''User '' @ u @ rest
            \<and> ws \<noteq> [] \<and> (\<forall>c \<in> set ws. is_space c) \<and> u \<noteq> [] \<and> (\<forall>c \<in> set u. is_word c)
            \<and> m = [''Host github.com'' @ [CHR 0x0A] @ ws @ ''User '' @ u, u]"
    by (intro exI[of _ ws] exI[of _ u] exI[of _ rest]) simp
next
  fix s :: sys and h m b
  assume a: "home s = Some h \<and> search_dirs (fs s) [] (h @ [''.ssh'', ''config'']) = None
          \<and> fs s (h @ [''.ssh'', ''config'']) = Some (File m b) \<and> m AND owner_read \<noteq> 0 \<and> b \<noteq> []"
  then have r: "fst (readFile (h @ [''.ssh'', ''config'']) s) = Inr (take 1024 b)"
    unfolding readFile_Inr by simp
  have shape: "FindStringSubmatch RegexpPattern (take 1024 b) = []
               \<or> (\<exists>w u. FindStringSubmatch RegexpPattern (take 1024 b) = [w, u])"
    using Find_shape[of "take 1024 b"] by blast
  show "fst (getAlias s) =
           (case FindStringSubmatch RegexpPattern (take 1024 b) of
              [w, u] \<Rightarrow> ''github.com/'' @ u @ ''/''
            | _ \<Rightarrow> ''project/'')"
    using getAlias_of_text[of s h "take 1024 b"] a r shape by auto
next
  fix s :: sys and h m b pre ws u rest
  assume "home s = Some h \<and> search_dirs (fs s) [] (h @ [''.ssh'', ''config'']) = None
          \<and> fs s (h @ [''.ssh'', ''config'']) = Some (File m b) \<and> m AND owner_read \<noteq> 0
          \<and> b = pre @ ''Host github.com'' @ [CHR 0x0A] @ ws @ ''User '' @ u @ rest
          \<and> ws \<noteq> [] \<and> (\<forall>c \<in> set ws. is_space c) \<and> u \<noteq> [] \<and> (\<forall>c \<in> set u. is_word c)
          \<and> (rest = [] \<or> \<not> is_word (hd rest))
          \<and> (\<forall>j < length pre. \<forall>v. \<not> block_at b j v)
          \<and> length (pre @ ''Host github.com'' @ [CHR 0x0A] @ ws @ ''User '' @ u) \<le> 1024"
  then show "fst (getAlias s) = ''github.com/'' @ u @ ''/''"
    using getAlias_whole[of s h m b pre ws u rest] by blast
qed

theorem RegexpPattern_matches_witness:
  "FindStringSubmatch RegexpPattern
     (''Host github.com'' @ [CHR 0x0A] @ ([CHR 0x0A] @ ''  '') @ ''User '' @ ''alex'' @ [CHR 0x0A])
   = [''Host github.com'' @ [CHR 0x0A] @ ([CHR 0x0A] @ ''  '') @ ''User '' @ ''alex'', ''alex'']
   \<and> fst (getAlias (ssh_sys (''# keys'' @ [CHR 0x0A] @ ''Host github.com'' @ [CHR 0x0A] @ [CHR 0x0A]
                               @ ''  User alex'' @ [CHR 0x0A] @ ''  Port 22''))) = ''github.com/alex/''"
proof -
  let ?c = "''# keys'' @ [CHR 0x0A] @ ''Host github.com'' @ [CHR 0x0A] @ [CHR 0x0A] @ ''  User alex'' @ [CHR 0x0A] @ ''  Port 22''"
  let ?pre = "''# keys'' @ [CHR 0x0A]"
  let ?ws = "[CHR 0x0A] @ ''  ''"
  let ?rest = "[CHR 0x0A] @ ''  Port 22''"
  have w: "?ws \<noteq> []" "\<forall>c \<in> set ?ws. is_space c" "''alex'' \<noteq> []" "\<forall>c \<in> set ''alex''. is_word c"
    "[CHR 0x0A] = [] \<or> \<not> is_word (hd [CHR 0x0A])" "?rest = [] \<or> \<not> is_word (hd ?rest)"
    by (simp_all add: is_space_def is_word_def)
  have a: "FindStringSubmatch RegexpPattern
     (''Host github.com'' @ [CHR 0x0A] @ ?ws @ ''User '' @ ''alex'' @ [CHR 0x0A])
   = [''Host github.com'' @ [CHR 0x0A] @ ?ws @ ''User '' @ ''alex'', ''alex'']"
    using RegexpPattern_matches[THEN conjunct1, rule_format, of ?ws "''alex''" "[CHR 0x0A]"] w
    by blast
  have e: "?c = ?pre @ ''Host github.com'' @ [CHR 0x0A] @ ?ws @ ''User '' @ ''alex'' @ ?rest"
    by simp
  have n: "\<forall>j < length ?pre. \<forall>v. \<not> block_at ?c j v"
  proof (intro allI impI)
    fix j v assume "j < length ?pre"
    then have "j < 7" by simp
    then have "?c ! j \<noteq> CHR ''H''"
      by (auto simp: less_Suc_eq numeral_nat)
    then show "\<not> block_at ?c j v" using block_at_nth by blast
  qed
  have l: "length (?pre @ ''Host github.com'' @ [CHR 0x0A] @ ?ws @ ''User '' @ ''alex'') \<le> 1024"
    by simp
  have b: "fst (getAlias (ssh_sys ?c)) = ''github.com/'' @ ''alex'' @ ''/''"
    using RegexpPattern_matches[THEN conjunct2, THEN conjunct2, THEN conjunct2, rule_format,
        of "ssh_sys ?c" "[''home'', ''u'']" 384 ?c ?pre ?ws "''alex''" ?rest]
      ssh_sys_home[of ?c] ssh_sys_dirs[of ?c] ssh_sys_file[of ?c] mode_600_read e n l w
    by blast
  show ?thesis using a b by simp
qed

theorem RegexpPattern_trailing_space_counterexample:
  "FindStringSubmatch RegexpPattern (''Host github.com '' @ [CHR 0x0A] @ ''  User alex'') = []
   \<and> fst (getAlias (ssh_sys (''Host github.com '' @ [CHR 0x0A] @ ''  User alex''))) = ''project/''
   \<and> fst (getAlias (ssh_sys (''Host github.com'' @ [CHR 0x0A] @ ''User alex''))) = ''project/''"
proof -
  have a: "FindStringSubmatch RegexpPattern (''Host github.com '' @ [CHR 0x0A] @ ''  User alex'') = []"
    by code_simp
  have b: "fst (getAlias (ssh_sys (''Host github.com '' @ [CHR 0x0A] @ ''  User alex''))) = ''project/''"
    by code_simp
  have c: "fst (getAlias (ssh_sys (''Host github.com'' @ [CHR 0x0A] @ ''User alex''))) = ''project/''"
    by code_simp
  show ?thesis using a b c by simp
qed

text \<open>
  Claim C8, amended. Let the first 1024 bytes of a readable configuration hold
  \<open>Host github.com\<close>, a newline, whitespace and \<open>User\<close> with a value that goes on, after
  the word characters \<open>u\<close>, with a byte \<open>c\<close> outside the word class. When \<open>u\<close> is not
  empty and the bytes read hold no earlier block, the alias is built from \<open>u\<close> alone: it
  is \<open>github.com/u/\<close>, not the default and not the alias of any longer name \<open>u c ...\<close>.
  When \<open>u\<close> is empty, that is when the value starts with a byte outside the word class,
  the pattern does not match there, and the alias is \<open>project/\<close> unless the bytes read
  hold a block elsewhere.
\<close>

theorem getAlias_truncates_user:
  assumes "home s = Some h"
      and "search_dirs (fs s) [] (h @ [''.ssh'', ''config'']) = None"
      and "fs s (h @ [''.ssh'', ''config'']) = Some (File m b)"
      and "m AND owner_read \<noteq> 0"
      and "take 1024 b = pre @ ''Host github.com'' @ [CHR 0x0A] @ ws @ ''User '' @ u @ c # rest"
      and "ws \<noteq> []" and "\<forall>x \<in> set ws. is_space x"
      and "\<forall>x \<in> set u. is_word x"
      and "\<not> is_word c"
  shows "(u \<noteq> [] \<and> (\<forall>j < length pre. \<forall>v. \<not> block_at (take 1024 b) j v) \<longrightarrow>
            fst (getAlias s) = ''github.com/'' @ u @ ''/''
            \<and> fst (getAlias s) \<noteq> ''project/''
            \<and> (\<forall>v. fst (getAlias s) \<noteq> ''github.com/'' @ (u @ c # v) @ ''/''))
         \<and> (u = [] \<and> (\<forall>j v. j \<noteq> length pre \<longrightarrow> \<not> block_at (take 1024 b) j v) \<longrightarrow>
            fst (getAlias s) = ''project/'')"
proof (intro conjI impI)
  assume a: "u \<noteq> [] \<and> (\<forall>j < length pre. \<forall>v. \<not> block_at (take 1024 b) j v)"
  have "c # rest = [] \<or> \<not> is_word (hd (c # rest))" using assms(9) by simp
  with assms(6,7) a assms(8)
  have "user_block (''Host github.com'' @ [CHR 0x0A] @ ws @ ''User '' @ u @ c # rest) u"
    by (intro user_block_intro) simp_all
  then have "block_at (take 1024 b) (length pre) u"
    unfolding assms(5) block_at_def by simp
  then have e: "fst (getAlias s) = ''github.com/'' @ u @ ''/''"
    using assms(1,2,3,4) a getAlias_block by blast
  show "fst (getAlias s) = ''github.com/'' @ u @ ''/''" by (rule e)
  show "fst (getAlias s) \<noteq> ''project/''" unfolding e by simp
  show "\<forall>v. fst (getAlias s) \<noteq> ''github.com/'' @ (u @ c # v) @ ''/''" unfolding e by simp
next
  assume a: "u = [] \<and> (\<forall>j v. j \<noteq> length pre \<longrightarrow> \<not> block_at (take 1024 b) j v)"
  have r: "c # rest = [] \<or> \<not> is_word (hd (c # rest))" using assms(9) by simp
  have n: "\<not> user_block (''Host github.com'' @ [CHR 0x0A] @ ws @ ''User '' @ c # rest) v" for v
    using assms(7) r by (rule no_user_block)
  have "\<not> block_at (take 1024 b) i v" for i v
  proof (cases "i = length pre")
    case True
    have "drop i (take 1024 b) = ''Host github.com'' @ [CHR 0x0A] @ ws @ ''User '' @ c # rest"
      unfolding assms(5) True using a by simp
    then show ?thesis using n[of v] by (simp add: block_at_def)
  next
    case False
    then show ?thesis using a by blast
  qed
  then show "fst (getAlias s) = ''project/''"
    using getAlias_no_block[OF assms(1,3)] by blast
qed

theorem getAlias_truncates_user_witness:
  "fst (getAlias (ssh_sys (''Host github.com'' @ [CHR 0x0A] @ ''  User foo-bar'' @ [CHR 0x0A]))) = ''github.com/foo/''
   \<and> fst (getAlias (ssh_sys (''Host github.com'' @ [CHR 0x0A] @ ''  User .foo-bar'' @ [CHR 0x0A]))) = ''project/''"
proof -
  let ?c = "''Host github.com'' @ [CHR 0x0A] @ ''  User foo-bar'' @ [CHR 0x0A]"
  let ?d = "''Host github.com'' @ [CHR 0x0A] @ ''  User .foo-bar'' @ [CHR 0x0A]"
  let ?h = "[''home'', ''u'']"
  have t: "take 1024 ?c = [] @ ''Host github.com'' @ [CHR 0x0A] @ ''  '' @ ''User '' @ ''foo'' @ CHR ''-'' # (''bar'' @ [CHR 0x0A])"
    by simp
  have n: "\<forall>j < length ([]::string). \<forall>v. \<not> block_at (take 1024 ?c) j v" by simp
  have w: "''  '' \<noteq> []" "\<forall>x \<in> set ''  ''. is_space x" "\<forall>x \<in> set ''foo''. is_word x"
    "\<not> is_word (CHR ''-'')" "\<forall>x \<in> set ([] :: string). is_word x" "\<not> is_word (CHR ''.'')"
    by (simp_all add: is_space_def is_word_def)
  have a: "fst (getAlias (ssh_sys ?c)) = ''github.com/foo/''"
    using getAlias_truncates_user[OF ssh_sys_home ssh_sys_dirs ssh_sys_file mode_600_read t w(1,2,3,4),
        THEN conjunct1] n
    by simp
  have t': "take 1024 ?d = [] @ ''Host github.com'' @ [CHR 0x0A] @ ''  '' @ ''User '' @ [] @ CHR ''.'' # (''foo-bar'' @ [CHR 0x0A])"
    by simp
  have n': "\<forall>j v. j \<noteq> length ([] :: string) \<longrightarrow> \<not> block_at (take 1024 ?d) j v"
  proof (intro allI impI)
    fix j v assume j: "j \<noteq> length ([] :: string)"
    have "block_at (take 1024 ?d) j v \<Longrightarrow> j = 0"
      by (rule one_H_block[of "tl (take 1024 ?d)" "CHR ''H''"]) simp_all
    then show "\<not> block_at (take 1024 ?d) j v" using j by auto
  qed
  have b: "fst (getAlias (ssh_sys ?d)) = ''project/''"
    using getAlias_truncates_user[OF ssh_sys_home ssh_sys_dirs ssh_sys_file mode_600_read t' w(1,2,5,6),
        THEN conjunct2] n'
    by simp
  show ?thesis using a b by simp
qed

theorem getAlias_nonword_first_counterexample:
  "fst (getAlias (ssh_sys (''Host github.com'' @ [CHR 0x0A] @ ''  User -foo'' @ [CHR 0x0A]))) = ''project/''"
  by code_simp

section \<open>What each call does when it succeeds\<close>

text \<open>
  One lemma per call: from its success, the tree, the working directory and the umask
  it leaves. A name is resolved to the working directory followed by its components.
\<close>

lemma splitOn_not_Nil: "splitOn d s \<noteq> []"
  by (induction s) (auto split: list.splits)

lemma plain_simple: "plain n \<Longrightarrow> simple n"
proof -
  assume a: "plain n"
  then have "splitOn (CHR ''/'') n = [n]" by (rule splitOn_plain)
  then show "simple n" using a by (cases n) (auto simp: simple_def plain_def)
qed

lemma walk_ordinary:
  "walk f cur cs = Inr p \<Longrightarrow> \<forall>c \<in> set cs. c \<noteq> [] \<and> c \<noteq> ''.'' \<and> c \<noteq> ''..'' \<Longrightarrow> p = cur @ cs"
proof (induction cs arbitrary: cur)
  case Nil
  then show ?case by simp
next
  case (Cons c cs)
  from Cons.prems have w: "walk f (cur @ [c]) cs = Inr p"
    by (auto split: option.splits node.splits)
  have o: "\<forall>c \<in> set cs. c \<noteq> [] \<and> c \<noteq> ''.'' \<and> c \<noteq> ''..''" using Cons.prems(2) by simp
  have "p = (cur @ [c]) @ cs" using w o by (rule Cons.IH)
  then show ?case by simp
qed

lemma start_dir_simple: "simple name \<Longrightarrow> start_dir s name = cwd s"
  by (cases name) (auto simp: simple_def start_dir_def)

lemma namei_simple:
  assumes "simple name" and "namei s name = Inr p"
  shows "p = cwd s @ comps name \<and> fs s p \<noteq> None"
proof -
  from assms(2) obtain q where w: "walk (fs s) (start_dir s name) (splitOn (CHR ''/'') name) = Inr q"
    and e: "fs s q \<noteq> None" and pq: "p = q"
    by (auto simp: namei_def split: if_splits sum.splits option.splits)
  have "q = cwd s @ splitOn (CHR ''/'') name"
    using walk_ordinary[OF w] assms(1) by (simp add: simple_def start_dir_simple[OF assms(1)])
  then show ?thesis using e pq by (simp add: comps_def)
qed

lemma namei_create_simple:
  assumes "simple name" and "namei_create s name = Inr p"
  shows "p = cwd s @ comps name"
proof -
  let ?cs = "splitOn (CHR ''/'') name"
  from assms(2) obtain par where w: "walk (fs s) (start_dir s name) (butlast ?cs) = Inr par"
    and p: "p = par @ [last ?cs]"
    by (auto simp: namei_create_def Let_def split: if_splits sum.splits option.splits node.splits)
  have "\<forall>c \<in> set (butlast ?cs). c \<noteq> [] \<and> c \<noteq> ''.'' \<and> c \<noteq> ''..''"
    using assms(1) by (auto simp: simple_def dest: in_set_butlastD)
  then have "par = cwd s @ butlast ?cs"
    using walk_ordinary[OF w] by (simp add: start_dir_simple[OF assms(1)])
  then show ?thesis using p splitOn_not_Nil[of "CHR ''/''" name] by (simp add: comps_def)
qed

lemma foldl_clean_step:
  "\<forall>c \<in> set cs. c \<noteq> [] \<and> c \<noteq> ''.'' \<and> c \<noteq> ''..'' \<Longrightarrow> foldl clean_step dir cs = dir @ cs"
  by (induction cs arbitrary: dir) (auto simp: clean_step_def)

lemma filepath_Join_simple: "simple name \<Longrightarrow> filepath_Join dir name = dir @ comps name"
  by (simp add: filepath_Join_def comps_def simple_def foldl_clean_step)

lemma mkdir_effect:
  assumes "mkdir name s = (None, s')" and "simple name"
  shows "fs s (cwd s @ comps name) = None
         \<and> fs s' = (fs s)(cwd s @ comps name \<mapsto> Dir (ModePerm AND NOT (umask s)))
         \<and> cwd s' = cwd s \<and> umask s' = umask s"
  using assms(1) unfolding mkdir_def os_Stat_def os_Getwd_def os_Mkdir_def filepath_Join_simple[OF assms(2)]
  by (auto simp: record_ev_def Let_def split: sum.splits option.splits node.splits if_splits)

lemma mkdir_v3_effect:
  assumes "mkdir_v3 name s = (None, s')" and "simple name"
  shows "fs s (cwd s @ comps name) = None
         \<and> fs s' = (fs s)(cwd s @ comps name \<mapsto> Dir (ModePerm AND NOT (umask s)))
         \<and> cwd s' = cwd s \<and> umask s' = umask s"
  using assms(1) unfolding mkdir_v3_def os_Stat_def os_Getwd_def os_Mkdir_def filepath_Join_simple[OF assms(2)]
  by (auto simp: record_ev_def Let_def split: sum.splits option.splits node.splits if_splits)

lemma os_Chdir_effect:
  assumes "os_Chdir name s = (None, s')" and "simple name"
  shows "(\<exists>m. fs s (cwd s @ comps name) = Some (Dir m))
         \<and> fs s' = fs s \<and> cwd s' = cwd s @ comps name \<and> umask s' = umask s"
proof -
  from assms(1) obtain p m where n: "namei s name = Inr p" and d: "fs s p = Some (Dir m)"
    and s': "s' = (record_ev (EvChdir name) s)\<lparr>cwd := p\<rparr>"
    by (auto simp: os_Chdir_def Let_def split: sum.splits option.splits node.splits)
  have "p = cwd s @ comps name" using namei_simple[OF assms(2) n] by simp
  then show ?thesis using d s' by (auto simp: record_ev_def)
qed

lemma createFile_effect:
  assumes "createFile name tfs tpl s = (None, s')" and "simple name"
  shows "\<exists>b. tfs tpl = Some b
         \<and> fs s' = (fs s)(cwd s @ comps name \<mapsto> File (new_mode (fs s) (cwd s @ comps name) (umask s)) b)
         \<and> cwd s' = cwd s \<and> umask s' = umask s"
proof -
  from assms(1) obtain h s1 b where c: "os_Create name s = (Inr h, s1)"
    and t: "tfs tpl = Some b" and w: "file_Write h b s1 = (None, s')"
    by (auto simp: createFile_def embed_ReadFile_def split: prod.splits sum.splits option.splits)
  from c obtain p where n: "namei_create s name = Inr p"
    by (auto simp: os_Create_def Let_def split: sum.splits)
  have p: "p = cwd s @ comps name" using namei_create_simple[OF assms(2) n] .
  from c n have hp: "h = p"
    and s1: "fs s1 = (fs s)(p \<mapsto> File (new_mode (fs s) p (umask s)) [])" "cwd s1 = cwd s" "umask s1 = umask s"
    by (auto simp: os_Create_def Let_def record_ev_def new_mode_def split: option.splits node.splits)
  from w hp s1 have "fs s' = (fs s)(p \<mapsto> File (new_mode (fs s) p (umask s)) b) \<and> cwd s' = cwd s \<and> umask s' = umask s"
    by (auto simp: file_Write_def Let_def record_ev_def split: option.splits node.splits)
  then show ?thesis using t p by simp
qed

lemma os_Chmod_effect:
  assumes "os_Chmod name m s = (None, s')" and "simple name"
  shows "\<exists>nd. fs s (cwd s @ comps name) = Some nd
         \<and> fs s' = (fs s)(cwd s @ comps name \<mapsto> set_perm m nd)
         \<and> cwd s' = cwd s \<and> umask s' = umask s"
proof -
  from assms(1) obtain p nd where n: "namei s name = Inr p" and d: "fs s p = Some nd"
    and s': "s' = (record_ev (EvChmod name m) s)\<lparr>fs := (fs s)(p \<mapsto> set_perm m nd)\<rparr>"
    by (auto simp: os_Chmod_def Let_def split: sum.splits option.splits)
  have "p = cwd s @ comps name" using namei_simple[OF assms(2) n] by simp
  then show ?thesis using d s' by (auto simp: record_ev_def)
qed

lemma exec_Run_effect:
  assumes "exec_Run ext argv s = (r, s')"
  shows "fs s' = snd (ext argv (cwd s) (fs s)) \<and> cwd s' = cwd s \<and> umask s' = umask s"
  using assms by (auto simp: exec_Run_def Let_def record_ev_def)

lemma getAlias_effect:
  assumes "getAlias s = (al, s')"
  shows "fs s' = fs s \<and> cwd s' = cwd s \<and> umask s' = umask s"
  using assms
  by (auto simp: getAlias_def os_UserHomeDir_def readFile_def os_Open_def file_Read_def
      record_ev_def Let_def split: option.splits node.splits if_splits)

lemma createExecutableFile_effect:
  assumes "createExecutableFile name tfs tpl s = (None, s')" and "simple name"
  shows "\<exists>b. tfs tpl = Some b
         \<and> fs s' = (fs s)(cwd s @ comps name \<mapsto> File perm_0700 b)
         \<and> cwd s' = cwd s \<and> umask s' = umask s"
proof -
  from assms(1) obtain s1 where c: "createFile name tfs tpl s = (None, s1)"
    and m: "os_Chmod name perm_0700 s1 = (None, s')"
    by (auto simp: createExecutableFile_def split: prod.splits option.splits)
  from createFile_effect[OF c assms(2)] obtain b where b: "tfs tpl = Some b"
    and s1: "fs s1 = (fs s)(cwd s @ comps name \<mapsto> File (new_mode (fs s) (cwd s @ comps name) (umask s)) b)"
       "cwd s1 = cwd s" "umask s1 = umask s"
    by blast
  from os_Chmod_effect[OF m assms(2)] s1 have
    "fs s' = (fs s)(cwd s @ comps name \<mapsto> File perm_0700 b) \<and> cwd s' = cwd s \<and> umask s' = umask s"
    by (auto simp: set_perm_def)
  then show ?thesis using b by simp
qed

lemma run_steps_Cons_None:
  "run_steps (st # rest) s = (None, s') \<longleftrightarrow> (\<exists>s1. fst st s = (None, s1) \<and> run_steps rest s1 = (None, s'))"
  by (cases "fst st s") (auto split: option.splits)

lemma simple_lits:
  "simple ''.golintci.yml''" "simple ''.gitignore''" "simple ''Makefile''" "simple ''.goreleaser.yml''"
  "simple ''scripts''" "simple ''scripts/pre-commit''" "simple ''scripts/setup.sh''"
  "simple ''scripts/cibuild.sh''" "simple ''.git/hooks''" "simple ''pre-commit''"
  "simple ''.github''" "simple ''.github/workflows''" "simple ''.github/workflows/releaser.yml''"
  by (simp_all add: simple_def)

lemma comps_lits:
  "comps ''.golintci.yml'' = [''.golintci.yml'']" "comps ''.gitignore'' = [''.gitignore'']"
  "comps ''Makefile'' = [''Makefile'']" "comps ''.goreleaser.yml'' = [''.goreleaser.yml'']"
  "comps ''scripts'' = [''scripts'']" "comps ''scripts/pre-commit'' = [''scripts'', ''pre-commit'']"
  "comps ''scripts/setup.sh'' = [''scripts'', ''setup.sh'']"
  "comps ''scripts/cibuild.sh'' = [''scripts'', ''cibuild.sh'']"
  "comps ''.git/hooks'' = [''.git'', ''hooks'']" "comps ''pre-commit'' = [''pre-commit'']"
  "comps ''.github'' = [''.github'']" "comps ''.github/workflows'' = [''.github'', ''workflows'']"
  "comps ''.github/workflows/releaser.yml'' = [''.github'', ''workflows'', ''releaser.yml'']"
  by (simp_all add: comps_def)

lemma comps_plain: "plain n \<Longrightarrow> comps n = [n]"
  by (simp add: comps_def splitOn_plain)

lemma createScripts_effect:
  assumes "createScripts tfs s = (None, s')"
  shows "\<exists>b1 b2 b3.
           tfs ''templates/scripts/pre-commit'' = Some b1 \<and> tfs ''templates/scripts/setup.sh'' = Some b2
         \<and> tfs ''templates/scripts/cibuild.sh'' = Some b3
         \<and> fs s' = (fs s)(cwd s @ [''scripts''] \<mapsto> Dir (ModePerm AND NOT (umask s)),
                          cwd s @ [''scripts'', ''pre-commit''] \<mapsto>
                            File (new_mode (fs s) (cwd s @ [''scripts'', ''pre-commit'']) (umask s)) b1,
                          cwd s @ [''scripts'', ''setup.sh''] \<mapsto> File perm_0700 b2,
                          cwd s @ [''scripts'', ''cibuild.sh''] \<mapsto> File perm_0700 b3)
         \<and> cwd s' = cwd s \<and> umask s' = umask s"
proof -
  from assms obtain s1 s2 s3 s4 s5 where
    a1: "mkdir ''scripts'' s = (None, s1)"
    and a2: "createFile ''scripts/pre-commit'' tfs ''templates/scripts/pre-commit'' s1 = (None, s2)"
    and a3: "createFile ''scripts/setup.sh'' tfs ''templates/scripts/setup.sh'' s2 = (None, s3)"
    and a4: "os_Chmod ''scripts/setup.sh'' perm_0700 s3 = (None, s4)"
    and a5: "createFile ''scripts/cibuild.sh'' tfs ''templates/scripts/cibuild.sh'' s4 = (None, s5)"
    and a6: "os_Chmod ''scripts/cibuild.sh'' perm_0700 s5 = (None, s')"
    unfolding createScripts_def by (simp split: prod.splits option.splits)
  note e1 = mkdir_effect[OF a1 simple_lits(5), unfolded comps_lits]
  from createFile_effect[OF a2 simple_lits(6), unfolded comps_lits] obtain b1 where
    b1: "tfs ''templates/scripts/pre-commit'' = Some b1"
    and e2: "fs s2 = (fs s1)(cwd s1 @ [''scripts'', ''pre-commit''] \<mapsto>
                File (new_mode (fs s1) (cwd s1 @ [''scripts'', ''pre-commit'']) (umask s1)) b1)"
       "cwd s2 = cwd s1" "umask s2 = umask s1"
    by blast
  from createFile_effect[OF a3 simple_lits(7), unfolded comps_lits] obtain b2 where
    b2: "tfs ''templates/scripts/setup.sh'' = Some b2"
    and e3: "fs s3 = (fs s2)(cwd s2 @ [''scripts'', ''setup.sh''] \<mapsto>
                File (new_mode (fs s2) (cwd s2 @ [''scripts'', ''setup.sh'']) (umask s2)) b2)"
       "cwd s3 = cwd s2" "umask s3 = umask s2"
    by blast
  from os_Chmod_effect[OF a4 simple_lits(7), unfolded comps_lits] e3 have
    e4: "fs s4 = (fs s2)(cwd s2 @ [''scripts'', ''setup.sh''] \<mapsto> File perm_0700 b2)"
       "cwd s4 = cwd s2" "umask s4 = umask s2"
    by (auto simp: set_perm_def)
  from createFile_effect[OF a5 simple_lits(8), unfolded comps_lits] obtain b3 where
    b3: "tfs ''templates/scripts/cibuild.sh'' = Some b3"
    and e5: "fs s5 = (fs s4)(cwd s4 @ [''scripts'', ''cibuild.sh''] \<mapsto>
                File (new_mode (fs s4) (cwd s4 @ [''scripts'', ''cibuild.sh'']) (umask s4)) b3)"
       "cwd s5 = cwd s4" "umask s5 = umask s4"
    by blast
  from os_Chmod_effect[OF a6 simple_lits(8), unfolded comps_lits] e5 have
    e6: "fs s' = (fs s4)(cwd s4 @ [''scripts'', ''cibuild.sh''] \<mapsto> File perm_0700 b3)"
       "cwd s' = cwd s4" "umask s' = umask s4"
    by (auto simp: set_perm_def)
  have m: "new_mode (fs s1) (cwd s1 @ [''scripts'', ''pre-commit'']) (umask s1)
           = new_mode (fs s) (cwd s @ [''scripts'', ''pre-commit'']) (umask s)"
    using e1 by (simp add: new_mode_def)
  show ?thesis
    apply (rule exI[of _ b1], rule exI[of _ b2], rule exI[of _ b3])
    using b1 b2 b3 e1 e2 e4 e6 m by simp
qed

lemma createPreCommitHook_effect:
  assumes "createPreCommitHook tfs s = (None, s')"
  shows "\<exists>b. tfs ''templates/scripts/pre-commit'' = Some b
         \<and> fs s' = (fs s)(cwd s @ [''.git'', ''hooks'', ''pre-commit''] \<mapsto> File perm_0700 b)
         \<and> umask s' = umask s"
proof -
  from assms obtain s1 h s2 bytes s3 where
    a1: "os_Chdir ''.git/hooks'' s = (None, s1)"
    and c1: "os_Create ''pre-commit'' s1 = (Inr h, s2)"
    and c2: "embed_ReadFile tfs ''templates/scripts/pre-commit'' = Inr bytes"
    and c3: "file_Write h bytes s2 = (None, s3)"
    and a3: "os_Chmod ''pre-commit'' perm_0700 s3 = (None, s')"
    unfolding createPreCommitHook_def by (simp split: prod.splits option.splits sum.splits)
  have a2: "createFile ''pre-commit'' tfs ''templates/scripts/pre-commit'' s1 = (None, s3)"
    using c1 c2 c3 by (simp add: createFile_def)
  note e1 = os_Chdir_effect[OF a1 simple_lits(9), unfolded comps_lits]
  from createFile_effect[OF a2 simple_lits(10), unfolded comps_lits] obtain b where
    b: "tfs ''templates/scripts/pre-commit'' = Some b"
    and e2: "fs s3 = (fs s1)(cwd s1 @ [''pre-commit''] \<mapsto>
                File (new_mode (fs s1) (cwd s1 @ [''pre-commit'']) (umask s1)) b)"
       "cwd s3 = cwd s1" "umask s3 = umask s1"
    by blast
  from os_Chmod_effect[OF a3 simple_lits(10), unfolded comps_lits] e2 have
    e3: "fs s' = (fs s1)(cwd s1 @ [''pre-commit''] \<mapsto> File perm_0700 b)" "umask s' = umask s1"
    by (auto simp: set_perm_def)
  show ?thesis using b e1 e3 by simp
qed

lemma new_mode_None: "f p = None \<Longrightarrow> new_mode f p um = perm_0666 AND NOT um"
  by (simp add: new_mode_def)

lemma own_area_simps:
  "own_area []" "own_area [''.golintci.yml'']" "own_area [''.gitignore'']" "own_area [''Makefile'']"
  "own_area [''.goreleaser.yml'']" "own_area [''scripts'']" "own_area (''scripts'' # r)"
  "own_area [''.github'']" "own_area (''.github'' # r)"
  by (simp_all add: own_area_def)

text \<open>The tree after the two external programs have run in the new, empty root.\<close>

lemma after_tools:
  assumes conf: "tools_confined ext" and fr: "fresh s n"
    and f3: "f3 = (fs s)(cwd s @ [n] \<mapsto> Dir d)"
    and f4: "f4 = snd (ext [''git'', ''init''] (cwd s @ [n]) f3)"
    and f5: "f5 = snd (ext [''go'', ''mod'', ''init'', nm] (cwd s @ [n]) f4)"
    and own: "own_area rel"
  shows "f5 (cwd s @ n # rel) = (if rel = [] then Some (Dir d) else None)"
proof -
  let ?p = "cwd s @ n # rel"
  have ne: "?p \<noteq> (cwd s @ [n]) @ [''go.mod'']" using own by (auto simp: own_area_def)
  have "f5 ?p = f4 ?p"
    using conf ne unfolding tools_confined_def f5 by blast
  moreover have np: "\<not> prefix ((cwd s @ [n]) @ [''.git'']) ?p" using own by (simp add: own_area_def)
  have "f4 ?p = f3 ?p"
    using conf np unfolding tools_confined_def f4 by blast
  moreover have "f3 ?p = (if rel = [] then Some (Dir d) else None)"
  proof (cases "rel = []")
    case True
    then show ?thesis by (simp add: f3)
  next
    case False
    have "prefix (cwd s @ [n]) ?p" by simp
    then have "fs s ?p = None" using fr unfolding fresh_def by blast
    then show ?thesis using False by (simp add: f3)
  qed
  ultimately show ?thesis by simp
qed

lemma main_inv:
  assumes "main ext tfs (Some n) s = (Exit0, s')"
  shows "\<exists>s1 s2 s3 s4 s5 s6 s7 s8 s9.
      exec_Run ext [''go'', ''version''] s = (None, s1) \<and> mkdir n s1 = (None, s2)
    \<and> os_Chdir n s2 = (None, s3) \<and> initRepo ext s3 = (None, s4) \<and> goModInit ext n s4 = (None, s5)
    \<and> createFile ''.golintci.yml'' tfs ''templates/.golangci.yml'' s5 = (None, s6)
    \<and> createFile ''.gitignore'' tfs ''templates/.gitignore'' s6 = (None, s7)
    \<and> createFile ''Makefile'' tfs ''templates/Makefile'' s7 = (None, s8)
    \<and> createScripts tfs s8 = (None, s9) \<and> createPreCommitHook tfs s9 = (None, s')"
proof -
  from assms obtain s1 s2 where a: "exec_Run ext [''go'', ''version''] s = (None, s1)"
    "mkdir n s1 = (None, s2)" and c: "createProjectFiles ext tfs n s2 = (None, s')"
    unfolding main_def flag_d_def by (simp split: prod.splits option.splits)
  from c show ?thesis
    using a unfolding createProjectFiles_def createProjectFiles_steps_def run_steps_Cons_None
    by (auto simp: fst_conv)
qed

lemma initRepo_effect:
  assumes "initRepo ext s = (None, s')"
  shows "fs s' = snd (ext [''git'', ''init''] (cwd s) (fs s)) \<and> cwd s' = cwd s \<and> umask s' = umask s"
proof -
  from assms obtain r where "exec_Run ext [''git'', ''init''] s = (r, s')"
    unfolding initRepo_def by (simp split: prod.splits option.splits)
  then show ?thesis by (rule exec_Run_effect)
qed

lemma goModInit_effect:
  assumes "goModInit ext name s = (None, s')"
  shows "\<exists>nm. fs s' = snd (ext [''go'', ''mod'', ''init'', nm] (cwd s) (fs s)) \<and> cwd s' = cwd s \<and> umask s' = umask s"
proof -
  from assms obtain al s1 r where g: "getAlias s = (al, s1)"
    and e: "exec_Run ext [''go'', ''mod'', ''init'', al @ name] s1 = (r, s')"
    unfolding goModInit_def by (simp add: Let_def split: prod.splits option.splits)
  show ?thesis using getAlias_effect[OF g] exec_Run_effect[OF e] by auto
qed

lemma main_scaffold:
  assumes pl: "plain n" and fr: "fresh s n" and conf: "tools_confined ext"
    and run: "main ext tfs (Some n) s = (Exit0, s')"
  shows "(\<exists>m. \<forall>rel. own_area rel \<longrightarrow> fs s' (cwd s @ n # rel) = map_of (scaffold tfs (umask s) m) rel)
         \<and> fs s' (cwd s @ [n, ''.git'', ''hooks'', ''pre-commit'']) =
             Some (File perm_0700 (template_of tfs ''templates/scripts/pre-commit''))
         \<and> (\<forall>k \<in> set [''templates/.golangci.yml'', ''templates/.gitignore'', ''templates/Makefile'',
                       ''templates/scripts/pre-commit'', ''templates/scripts/setup.sh'',
                       ''templates/scripts/cibuild.sh'']. tfs k \<noteq> None)"
proof -
  let ?root = "cwd s @ [n]"
  let ?um = "umask s"
  let ?d = "ModePerm AND NOT ?um"
  let ?m = "perm_0666 AND NOT ?um"
  from main_inv[OF run] obtain s1 s2 s3 s4 s5 s6 s7 s8 s9 where
    a1: "exec_Run ext [''go'', ''version''] s = (None, s1)" and a2: "mkdir n s1 = (None, s2)"
    and a3: "os_Chdir n s2 = (None, s3)" and a4: "initRepo ext s3 = (None, s4)"
    and a5: "goModInit ext n s4 = (None, s5)"
    and a6: "createFile ''.golintci.yml'' tfs ''templates/.golangci.yml'' s5 = (None, s6)"
    and a7: "createFile ''.gitignore'' tfs ''templates/.gitignore'' s6 = (None, s7)"
    and a8: "createFile ''Makefile'' tfs ''templates/Makefile'' s7 = (None, s8)"
    and a9: "createScripts tfs s8 = (None, s9)" and a10: "createPreCommitHook tfs s9 = (None, s')"
    by blast
  have e1: "fs s1 = fs s" "cwd s1 = cwd s" "umask s1 = ?um"
    using exec_Run_effect[OF a1] conf by (simp_all add: tools_confined_def)
  have e2: "fs s2 = (fs s)(?root \<mapsto> Dir ?d)" "cwd s2 = cwd s" "umask s2 = ?um"
    using mkdir_effect[OF a2 plain_simple[OF pl]] e1 by (simp_all add: comps_plain[OF pl])
  have e3: "fs s3 = (fs s)(?root \<mapsto> Dir ?d)" "cwd s3 = ?root" "umask s3 = ?um"
    using os_Chdir_effect[OF a3 plain_simple[OF pl]] e2 by (simp_all add: comps_plain[OF pl])
  have e4: "fs s4 = snd (ext [''git'', ''init''] ?root ((fs s)(?root \<mapsto> Dir ?d)))" "cwd s4 = ?root" "umask s4 = ?um"
    using initRepo_effect[OF a4] e3 by simp_all
  from goModInit_effect[OF a5] obtain nm where
    e5: "fs s5 = snd (ext [''go'', ''mod'', ''init'', nm] ?root (fs s4))" "cwd s5 = ?root" "umask s5 = ?um"
    using e4 by auto
  have G: "own_area rel \<Longrightarrow> fs s5 (cwd s @ n # rel) = (if rel = [] then Some (Dir ?d) else None)" for rel
    using after_tools[OF conf fr refl e4(1) e5(1)] by simp
  have G1: "fs s5 (?root @ [''.golintci.yml'']) = None" using G[OF own_area_simps(2)] by simp
  from createFile_effect[OF a6 simple_lits(1), unfolded comps_lits] obtain lint where
    t6: "tfs ''templates/.golangci.yml'' = Some lint"
    and e6: "fs s6 = (fs s5)(?root @ [''.golintci.yml''] \<mapsto> File ?m lint)" "cwd s6 = ?root" "umask s6 = ?um"
    using e5 G1 by (auto simp: new_mode_None)
  have G2: "fs s6 (?root @ [''.gitignore'']) = None" using G[OF own_area_simps(3)] e6 by simp
  from createFile_effect[OF a7 simple_lits(2), unfolded comps_lits] obtain ign where
    t7: "tfs ''templates/.gitignore'' = Some ign"
    and e7: "fs s7 = (fs s6)(?root @ [''.gitignore''] \<mapsto> File ?m ign)" "cwd s7 = ?root" "umask s7 = ?um"
    using e6 G2 by (auto simp: new_mode_None)
  have G3: "fs s7 (?root @ [''Makefile'']) = None" using G[OF own_area_simps(4)] e6 e7 by simp
  from createFile_effect[OF a8 simple_lits(3), unfolded comps_lits] obtain mk where
    t8: "tfs ''templates/Makefile'' = Some mk"
    and e8: "fs s8 = (fs s7)(?root @ [''Makefile''] \<mapsto> File ?m mk)" "cwd s8 = ?root" "umask s8 = ?um"
    using e7 G3 by (auto simp: new_mode_None)
  define m where "m = new_mode (fs s8) (?root @ [''scripts'', ''pre-commit'']) ?um"
  from createScripts_effect[OF a9] obtain b1 b2 b3 where
    t9: "tfs ''templates/scripts/pre-commit'' = Some b1" "tfs ''templates/scripts/setup.sh'' = Some b2"
        "tfs ''templates/scripts/cibuild.sh'' = Some b3"
    and e9: "fs s9 = (fs s8)(?root @ [''scripts''] \<mapsto> Dir ?d,
                          ?root @ [''scripts'', ''pre-commit''] \<mapsto> File m b1,
                          ?root @ [''scripts'', ''setup.sh''] \<mapsto> File perm_0700 b2,
                          ?root @ [''scripts'', ''cibuild.sh''] \<mapsto> File perm_0700 b3)"
       "cwd s9 = ?root" "umask s9 = ?um"
    using e8 unfolding m_def by auto
  from createPreCommitHook_effect[OF a10] obtain b where
    t10: "tfs ''templates/scripts/pre-commit'' = Some b"
    and e10: "fs s' = (fs s9)(?root @ [''.git'', ''hooks'', ''pre-commit''] \<mapsto> File perm_0700 b)"
    using e9 by auto
  have bb: "b = b1" using t9(1) t10 by simp
  have A: "\<forall>rel. own_area rel \<longrightarrow> fs s' (cwd s @ n # rel) = map_of (scaffold tfs ?um m) rel"
  proof (intro allI impI)
    fix rel assume own: "own_area rel"
    have nh: "rel \<noteq> [''.git'', ''hooks'', ''pre-commit'']" using own by (auto simp: own_area_def)
    show "fs s' (cwd s @ n # rel) = map_of (scaffold tfs ?um m) rel"
      using G[OF own] nh
      by (cases "rel = []") (simp_all add: e10 e9 e8 e7 e6 scaffold_def template_of_def t6 t7 t8 t9)
  qed
  have B: "fs s' (cwd s @ [n, ''.git'', ''hooks'', ''pre-commit'']) =
             Some (File perm_0700 (template_of tfs ''templates/scripts/pre-commit''))"
    by (simp add: e10 template_of_def t10)
  show ?thesis using A B t6 t7 t8 t9 by auto
qed

lemma run_steps_Nil_None: "run_steps [] s = (None, s') \<longleftrightarrow> s' = s"
  by auto

lemmas v3_names = GolintciTemplate_def GoreleaserTemplate_def GitignoreTemplate_def MakefileTemplate_def
  ReleaserTemplate_def PreCommitHookTemplate_def PreCommitScriptTemplate_def SetupScriptTemplate_def
  CIBuildScriptTemplate_def GolintciFile_def GoreleaserFile_def GitignoreFile_def GithubDir_def
  WorkflowsDir_def ReleaserFile_def GitHooksDir_def ScriptsDir_def PreCommitScriptFile_def
  SetupScriptFile_def CIBuildScriptFile_def PreCommitHookFile_def Makefile_def

lemma createScripts_v3_effect:
  assumes "createScripts_v3 tfs s = (None, s')"
  shows "\<exists>b1 b2 b3.
           tfs ''templates/scripts/pre-commit'' = Some b1 \<and> tfs ''templates/scripts/setup.sh'' = Some b2
         \<and> tfs ''templates/scripts/cibuild.sh'' = Some b3
         \<and> fs s' = (fs s)(cwd s @ [''scripts''] \<mapsto> Dir (ModePerm AND NOT (umask s)),
                          cwd s @ [''scripts'', ''pre-commit''] \<mapsto> File perm_0700 b1,
                          cwd s @ [''scripts'', ''setup.sh''] \<mapsto> File perm_0700 b2,
                          cwd s @ [''scripts'', ''cibuild.sh''] \<mapsto> File perm_0700 b3)
         \<and> cwd s' = cwd s \<and> umask s' = umask s"
proof -
  from assms obtain s1 where a1: "mkdir_v3 ''scripts'' s = (None, s1)"
    and r: "run_steps
       [(createExecutableFile ''scripts/pre-commit'' tfs ''templates/scripts/pre-commit'', ''error creating scripts/pre-commit: %w''),
        (createExecutableFile ''scripts/setup.sh'' tfs ''templates/scripts/setup.sh'', ''error creating scripts/setup.sh: %w''),
        (createExecutableFile ''scripts/cibuild.sh'' tfs ''templates/scripts/cibuild.sh'', ''error creating scripts/cibuild.sh: %w'')]
       s1 = (None, s')"
    unfolding createScripts_v3_def v3_names Let_def
    by (simp split: prod.splits option.splits del: run_steps.simps)
  from r obtain s2 s3 where
    a2: "createExecutableFile ''scripts/pre-commit'' tfs ''templates/scripts/pre-commit'' s1 = (None, s2)"
    and a3: "createExecutableFile ''scripts/setup.sh'' tfs ''templates/scripts/setup.sh'' s2 = (None, s3)"
    and a4: "createExecutableFile ''scripts/cibuild.sh'' tfs ''templates/scripts/cibuild.sh'' s3 = (None, s')"
    by (auto simp: run_steps_Cons_None run_steps_Nil_None fst_conv simp del: run_steps.simps)
  note e1 = mkdir_v3_effect[OF a1 simple_lits(5), unfolded comps_lits]
  from createExecutableFile_effect[OF a2 simple_lits(6), unfolded comps_lits] obtain b1 where
    b1: "tfs ''templates/scripts/pre-commit'' = Some b1"
    and e2: "fs s2 = (fs s1)(cwd s1 @ [''scripts'', ''pre-commit''] \<mapsto> File perm_0700 b1)"
       "cwd s2 = cwd s1" "umask s2 = umask s1"
    by blast
  from createExecutableFile_effect[OF a3 simple_lits(7), unfolded comps_lits] obtain b2 where
    b2: "tfs ''templates/scripts/setup.sh'' = Some b2"
    and e3: "fs s3 = (fs s2)(cwd s2 @ [''scripts'', ''setup.sh''] \<mapsto> File perm_0700 b2)"
       "cwd s3 = cwd s2" "umask s3 = umask s2"
    by blast
  from createExecutableFile_effect[OF a4 simple_lits(8), unfolded comps_lits] obtain b3 where
    b3: "tfs ''templates/scripts/cibuild.sh'' = Some b3"
    and e4: "fs s' = (fs s3)(cwd s3 @ [''scripts'', ''cibuild.sh''] \<mapsto> File perm_0700 b3)"
       "cwd s' = cwd s3" "umask s' = umask s3"
    by blast
  show ?thesis
    apply (rule exI[of _ b1], rule exI[of _ b2], rule exI[of _ b3])
    using b1 b2 b3 e1 e2 e3 e4 by simp
qed

lemma createGithubAction_effect:
  assumes "createGithubAction tfs s = (None, s')"
  shows "\<exists>b. tfs ''templates/releaser.yml'' = Some b
         \<and> fs s' = (fs s)(cwd s @ [''.github''] \<mapsto> Dir (ModePerm AND NOT (umask s)),
                          cwd s @ [''.github'', ''workflows''] \<mapsto> Dir (ModePerm AND NOT (umask s)),
                          cwd s @ [''.github'', ''workflows'', ''releaser.yml''] \<mapsto>
                            File (new_mode ((fs s)(cwd s @ [''.github''] \<mapsto> Dir (ModePerm AND NOT (umask s)),
                                                   cwd s @ [''.github'', ''workflows''] \<mapsto> Dir (ModePerm AND NOT (umask s))))
                                    (cwd s @ [''.github'', ''workflows'', ''releaser.yml'']) (umask s)) b)
         \<and> cwd s' = cwd s \<and> umask s' = umask s"
proof -
  from assms obtain s1 s2 where
    a1: "mkdir_v3 ''.github'' s = (None, s1)"
    and a2: "mkdir_v3 ''.github/workflows'' s1 = (None, s2)"
    and a3: "createFile ''.github/workflows/releaser.yml'' tfs ''templates/releaser.yml'' s2 = (None, s')"
    unfolding createGithubAction_def v3_names Let_def
    by (auto simp: run_steps_Cons_None run_steps_Nil_None fst_conv simp del: run_steps.simps)
  note e1 = mkdir_v3_effect[OF a1 simple_lits(11), unfolded comps_lits]
  note e2 = mkdir_v3_effect[OF a2 simple_lits(12), unfolded comps_lits]
  from createFile_effect[OF a3 simple_lits(13), unfolded comps_lits] obtain b where
    b: "tfs ''templates/releaser.yml'' = Some b"
    and e3: "fs s' = (fs s2)(cwd s2 @ [''.github'', ''workflows'', ''releaser.yml''] \<mapsto>
                File (new_mode (fs s2) (cwd s2 @ [''.github'', ''workflows'', ''releaser.yml'']) (umask s2)) b)"
       "cwd s' = cwd s2" "umask s' = umask s2"
    by blast
  show ?thesis using b e1 e2 e3 by simp
qed

lemma createPreCommitHook_v3_effect:
  assumes "createPreCommitHook_v3 tfs s = (None, s')"
  shows "\<exists>b. tfs ''templates/scripts/pre-commit'' = Some b
         \<and> fs s' = (fs s)(cwd s @ [''.git'', ''hooks'', ''pre-commit''] \<mapsto> File perm_0700 b)
         \<and> umask s' = umask s"
proof -
  from assms obtain s1 where
    a1: "os_Chdir ''.git/hooks'' s = (None, s1)"
    and a2: "createExecutableFile ''pre-commit'' tfs ''templates/scripts/pre-commit'' s1 = (None, s')"
    unfolding createPreCommitHook_v3_def v3_names
    by (auto simp: run_steps_Cons_None run_steps_Nil_None fst_conv simp del: run_steps.simps)
  note e1 = os_Chdir_effect[OF a1 simple_lits(9), unfolded comps_lits]
  from createExecutableFile_effect[OF a2 simple_lits(10), unfolded comps_lits] obtain b where
    b: "tfs ''templates/scripts/pre-commit'' = Some b"
    and e2: "fs s' = (fs s1)(cwd s1 @ [''pre-commit''] \<mapsto> File perm_0700 b)" "umask s' = umask s1"
    by blast
  show ?thesis using b e1 e2 by simp
qed

lemma goModInit_v3_effect:
  assumes "goModInit_v3 ext name s = (r, s')"
  shows "\<exists>nm. fs s' = snd (ext [''go'', ''mod'', ''init'', nm] (cwd s) (fs s)) \<and> cwd s' = cwd s \<and> umask s' = umask s"
proof -
  from assms obtain al s1 where g: "getAlias s = (al, s1)"
    and e: "exec_Run ext [''go'', ''mod'', ''init'', al @ name] s1 = (r, s')"
    unfolding goModInit_v3_def runCommand_def by (simp add: Let_def split: prod.splits)
  show ?thesis using getAlias_effect[OF g] exec_Run_effect[OF e] by auto
qed

lemma main_v3_inv:
  assumes "main_v3 ext tfs (Some n) s = (Exit0, s')"
  shows "\<exists>s1 s2 s3 s4 s5 s6 s7 s8 s9 s10 s11.
      exec_Run ext [''go'', ''version''] s = (None, s1) \<and> mkdir_v3 n s1 = (None, s2)
    \<and> os_Chdir n s2 = (None, s3) \<and> exec_Run ext [''git'', ''init''] s3 = (None, s4)
    \<and> goModInit_v3 ext n s4 = (None, s5)
    \<and> createFile ''.golintci.yml'' tfs ''templates/.golangci.yml'' s5 = (None, s6)
    \<and> createFile ''.goreleaser.yml'' tfs ''templates/.goreleaser.yml'' s6 = (None, s7)
    \<and> createFile ''.gitignore'' tfs ''templates/.gitignore'' s7 = (None, s8)
    \<and> createFile ''Makefile'' tfs ''templates/Makefile'' s8 = (None, s9)
    \<and> createScripts_v3 tfs s9 = (None, s10) \<and> createGithubAction tfs s10 = (None, s11)
    \<and> createPreCommitHook_v3 tfs s11 = (None, s')"
proof -
  from assms obtain s1 s2 where a: "exec_Run ext [''go'', ''version''] s = (None, s1)"
    "mkdir_v3 n s1 = (None, s2)" and c: "createProjectFiles_v3 ext tfs n s2 = (None, s')"
    unfolding main_v3_def flag_d_def isGoInstalled_def
    by (auto split: prod.splits option.splits bool.splits)
  from c show ?thesis
    using a unfolding createProjectFiles_v3_def createProjectFiles_v3_steps_def v3_names Let_def runCommand_def
    by (auto simp: run_steps_Cons_None run_steps_Nil_None fst_conv simp del: run_steps.simps)
qed

lemma created_not_executable: "(perm_0666 AND NOT um) AND any_exec = 0"
proof -
  have "(perm_0666 AND NOT um) AND any_exec = (perm_0666 AND any_exec) AND NOT um"
    by (simp add: ac_simps)
  also have "perm_0666 AND any_exec = 0" by (simp add: perm_0666_def any_exec_def)
  finally show ?thesis by simp
qed

lemma perm_0700_executable: "perm_0700 AND owner_exec = owner_exec \<and> owner_exec \<noteq> 0"
  by (simp add: perm_0700_def owner_exec_def)

lemma main_v3_scaffold:
  assumes pl: "plain n" and fr: "fresh s n" and conf: "tools_confined ext"
    and run: "main_v3 ext tfs (Some n) s = (Exit0, s')"
  shows "(\<forall>rel. own_area rel \<longrightarrow> fs s' (cwd s @ n # rel) = map_of (scaffold_v3 tfs (umask s)) rel)
         \<and> fs s' (cwd s @ [n, ''.git'', ''hooks'', ''pre-commit'']) =
             Some (File perm_0700 (template_of tfs ''templates/scripts/pre-commit''))
         \<and> (\<forall>k \<in> set [''templates/.golangci.yml'', ''templates/.goreleaser.yml'', ''templates/.gitignore'',
                       ''templates/Makefile'', ''templates/scripts/pre-commit'', ''templates/scripts/setup.sh'',
                       ''templates/scripts/cibuild.sh'', ''templates/releaser.yml'']. tfs k \<noteq> None)"
proof -
  let ?root = "cwd s @ [n]"
  let ?um = "umask s"
  let ?d = "ModePerm AND NOT ?um"
  let ?m = "perm_0666 AND NOT ?um"
  from main_v3_inv[OF run] obtain s1 s2 s3 s4 s5 s6 s7 s8 s9 s10 s11 where
    a1: "exec_Run ext [''go'', ''version''] s = (None, s1)" and a2: "mkdir_v3 n s1 = (None, s2)"
    and a3: "os_Chdir n s2 = (None, s3)" and a4: "exec_Run ext [''git'', ''init''] s3 = (None, s4)"
    and a5: "goModInit_v3 ext n s4 = (None, s5)"
    and a6: "createFile ''.golintci.yml'' tfs ''templates/.golangci.yml'' s5 = (None, s6)"
    and a7: "createFile ''.goreleaser.yml'' tfs ''templates/.goreleaser.yml'' s6 = (None, s7)"
    and a8: "createFile ''.gitignore'' tfs ''templates/.gitignore'' s7 = (None, s8)"
    and a9: "createFile ''Makefile'' tfs ''templates/Makefile'' s8 = (None, s9)"
    and a10: "createScripts_v3 tfs s9 = (None, s10)" and a11: "createGithubAction tfs s10 = (None, s11)"
    and a12: "createPreCommitHook_v3 tfs s11 = (None, s')"
    by blast
  have e1: "fs s1 = fs s" "cwd s1 = cwd s" "umask s1 = ?um"
    using exec_Run_effect[OF a1] conf by (simp_all add: tools_confined_def)
  have e2: "fs s2 = (fs s)(?root \<mapsto> Dir ?d)" "cwd s2 = cwd s" "umask s2 = ?um"
    using mkdir_v3_effect[OF a2 plain_simple[OF pl]] e1 by (simp_all add: comps_plain[OF pl])
  have e3: "fs s3 = (fs s)(?root \<mapsto> Dir ?d)" "cwd s3 = ?root" "umask s3 = ?um"
    using os_Chdir_effect[OF a3 plain_simple[OF pl]] e2 by (simp_all add: comps_plain[OF pl])
  have e4: "fs s4 = snd (ext [''git'', ''init''] ?root ((fs s)(?root \<mapsto> Dir ?d)))" "cwd s4 = ?root" "umask s4 = ?um"
    using exec_Run_effect[OF a4] e3 by simp_all
  from goModInit_v3_effect[OF a5] obtain nm where
    e5: "fs s5 = snd (ext [''go'', ''mod'', ''init'', nm] ?root (fs s4))" "cwd s5 = ?root" "umask s5 = ?um"
    using e4 by auto
  have G: "own_area rel \<Longrightarrow> fs s5 (cwd s @ n # rel) = (if rel = [] then Some (Dir ?d) else None)" for rel
    using after_tools[OF conf fr refl e4(1) e5(1)] by simp
  have G1: "fs s5 (?root @ [''.golintci.yml'']) = None" using G[OF own_area_simps(2)] by simp
  from createFile_effect[OF a6 simple_lits(1), unfolded comps_lits] obtain lint where
    t6: "tfs ''templates/.golangci.yml'' = Some lint"
    and e6: "fs s6 = (fs s5)(?root @ [''.golintci.yml''] \<mapsto> File ?m lint)" "cwd s6 = ?root" "umask s6 = ?um"
    using e5 G1 by (auto simp: new_mode_None)
  have G2: "fs s6 (?root @ [''.goreleaser.yml'']) = None" using G[OF own_area_simps(5)] e6 by simp
  from createFile_effect[OF a7 simple_lits(4), unfolded comps_lits] obtain rel where
    t7: "tfs ''templates/.goreleaser.yml'' = Some rel"
    and e7: "fs s7 = (fs s6)(?root @ [''.goreleaser.yml''] \<mapsto> File ?m rel)" "cwd s7 = ?root" "umask s7 = ?um"
    using e6 G2 by (auto simp: new_mode_None)
  have G3: "fs s7 (?root @ [''.gitignore'']) = None" using G[OF own_area_simps(3)] e6 e7 by simp
  from createFile_effect[OF a8 simple_lits(2), unfolded comps_lits] obtain ign where
    t8: "tfs ''templates/.gitignore'' = Some ign"
    and e8: "fs s8 = (fs s7)(?root @ [''.gitignore''] \<mapsto> File ?m ign)" "cwd s8 = ?root" "umask s8 = ?um"
    using e7 G3 by (auto simp: new_mode_None)
  have G4: "fs s8 (?root @ [''Makefile'']) = None" using G[OF own_area_simps(4)] e6 e7 e8 by simp
  from createFile_effect[OF a9 simple_lits(3), unfolded comps_lits] obtain mk where
    t9: "tfs ''templates/Makefile'' = Some mk"
    and e9: "fs s9 = (fs s8)(?root @ [''Makefile''] \<mapsto> File ?m mk)" "cwd s9 = ?root" "umask s9 = ?um"
    using e8 G4 by (auto simp: new_mode_None)
  from createScripts_v3_effect[OF a10] obtain b1 b2 b3 where
    t10: "tfs ''templates/scripts/pre-commit'' = Some b1" "tfs ''templates/scripts/setup.sh'' = Some b2"
        "tfs ''templates/scripts/cibuild.sh'' = Some b3"
    and e10: "fs s10 = (fs s9)(?root @ [''scripts''] \<mapsto> Dir ?d,
                          ?root @ [''scripts'', ''pre-commit''] \<mapsto> File perm_0700 b1,
                          ?root @ [''scripts'', ''setup.sh''] \<mapsto> File perm_0700 b2,
                          ?root @ [''scripts'', ''cibuild.sh''] \<mapsto> File perm_0700 b3)"
       "cwd s10 = ?root" "umask s10 = ?um"
    using e9 by auto
  have G5: "fs s10 (?root @ [''.github'', ''workflows'', ''releaser.yml'']) = None"
    using G[OF own_area_simps(9), of "[''workflows'', ''releaser.yml'']"] e6 e7 e8 e9 e10 by simp
  from createGithubAction_effect[OF a11] obtain wf where
    t11: "tfs ''templates/releaser.yml'' = Some wf"
    and e11: "fs s11 = (fs s10)(?root @ [''.github''] \<mapsto> Dir ?d,
                          ?root @ [''.github'', ''workflows''] \<mapsto> Dir ?d,
                          ?root @ [''.github'', ''workflows'', ''releaser.yml''] \<mapsto> File ?m wf)"
       "cwd s11 = ?root" "umask s11 = ?um"
    using e10 G5 by (auto simp: new_mode_None)
  from createPreCommitHook_v3_effect[OF a12] obtain b where
    t12: "tfs ''templates/scripts/pre-commit'' = Some b"
    and e12: "fs s' = (fs s11)(?root @ [''.git'', ''hooks'', ''pre-commit''] \<mapsto> File perm_0700 b)"
    using e11 by auto
  have A: "\<forall>rel. own_area rel \<longrightarrow> fs s' (cwd s @ n # rel) = map_of (scaffold_v3 tfs ?um) rel"
  proof (intro allI impI)
    fix rel assume own: "own_area rel"
    have nh: "rel \<noteq> [''.git'', ''hooks'', ''pre-commit'']" using own by (auto simp: own_area_def)
    show "fs s' (cwd s @ n # rel) = map_of (scaffold_v3 tfs ?um) rel"
      using G[OF own] nh
      by (cases "rel = []") (simp_all add: e12 e11 e10 e9 e8 e7 e6 scaffold_v3_def template_of_def t6 t7 t8 t9 t10 t11)
  qed
  have B: "fs s' (cwd s @ [n, ''.git'', ''hooks'', ''pre-commit'']) =
             Some (File perm_0700 (template_of tfs ''templates/scripts/pre-commit''))"
    by (simp add: e12 template_of_def t12)
  show ?thesis using A B t6 t7 t8 t9 t10 t11 by auto
qed

section \<open>What a successful run leaves\<close>

lemma createPreCommitHook_v1_effect:
  assumes "createPreCommitHook_v1 hook s = (None, s')"
  shows "\<exists>b. hook ''pre-commit.sh'' = Some b
         \<and> fs s' = (fs s)(cwd s @ [''.git'', ''hooks'', ''pre-commit''] \<mapsto> File perm_0700 b)
         \<and> umask s' = umask s"
proof -
  from assms obtain s1 h s2 bytes s3 where
    a1: "os_Chdir ''.git/hooks'' s = (None, s1)"
    and c1: "os_Create ''pre-commit'' s1 = (Inr h, s2)"
    and c2: "embed_ReadFile hook ''pre-commit.sh'' = Inr bytes"
    and c3: "file_Write h bytes s2 = (None, s3)"
    and a3: "os_Chmod ''pre-commit'' perm_0700 s3 = (None, s')"
    unfolding createPreCommitHook_v1_def by (simp split: prod.splits option.splits sum.splits)
  have a2: "createFile ''pre-commit'' hook ''pre-commit.sh'' s1 = (None, s3)"
    using c1 c2 c3 by (simp add: createFile_def)
  note e1 = os_Chdir_effect[OF a1 simple_lits(9), unfolded comps_lits]
  from createFile_effect[OF a2 simple_lits(10), unfolded comps_lits] obtain b where
    b: "hook ''pre-commit.sh'' = Some b"
    and e2: "fs s3 = (fs s1)(cwd s1 @ [''pre-commit''] \<mapsto>
                File (new_mode (fs s1) (cwd s1 @ [''pre-commit'']) (umask s1)) b)"
       "cwd s3 = cwd s1" "umask s3 = umask s1"
    by blast
  from os_Chmod_effect[OF a3 simple_lits(10), unfolded comps_lits] e2 have
    e3: "fs s' = (fs s1)(cwd s1 @ [''pre-commit''] \<mapsto> File perm_0700 b)" "umask s' = umask s1"
    by (auto simp: set_perm_def)
  show ?thesis using b e1 e3 by simp
qed

lemma goModInit_v1_effect:
  assumes "goModInit_v1 ext name s = (None, s')"
  shows "fs s' = snd (ext [''go'', ''mod'', ''init'', name] (cwd s) (fs s)) \<and> cwd s' = cwd s \<and> umask s' = umask s"
proof -
  from assms obtain r where "exec_Run ext [''go'', ''mod'', ''init'', name] s = (r, s')"
    unfolding goModInit_v1_def by (simp split: prod.splits option.splits)
  then show ?thesis by (rule exec_Run_effect)
qed

lemma main_v1_inv:
  assumes "main_v1 ext linting hook gitignore (Some n) s = (Exit0, s')"
  shows "\<exists>s2 s3 s4 s5 s6 s7.
      mkdir n s = (None, s2)
    \<and> os_Chdir n s2 = (None, s3) \<and> initRepo ext s3 = (None, s4) \<and> goModInit_v1 ext n s4 = (None, s5)
    \<and> createFile ''.golintci.yml'' linting ''.golangci.yml'' s5 = (None, s6)
    \<and> createFile ''.gitignore'' gitignore ''.gitignore'' s6 = (None, s7)
    \<and> createPreCommitHook_v1 hook s7 = (None, s')"
proof -
  from assms obtain s2 where a: "mkdir n s = (None, s2)"
    and c: "createProjectFiles_v1 ext linting hook gitignore n s2 = (None, s')"
    unfolding main_v1_def flag_d_def by (simp add: Let_def split: prod.splits option.splits)
  from c show ?thesis
    using a unfolding createProjectFiles_v1_def createProjectFiles_v1_steps_def
    by (auto simp: run_steps_Cons_None run_steps_Nil_None fst_conv simp del: run_steps.simps)
qed

lemma main_v1_scaffold:
  assumes pl: "plain n" and fr: "fresh s n" and conf: "tools_confined ext"
    and run: "main_v1 ext linting hook gitignore (Some n) s = (Exit0, s')"
  shows "(\<forall>rel. own_area rel \<longrightarrow> fs s' (cwd s @ n # rel) = map_of (scaffold_v1 linting gitignore (umask s)) rel)
         \<and> fs s' (cwd s @ [n, ''.git'', ''hooks'', ''pre-commit'']) =
             Some (File perm_0700 (template_of hook ''pre-commit.sh''))"
proof -
  let ?root = "cwd s @ [n]"
  let ?um = "umask s"
  let ?d = "ModePerm AND NOT ?um"
  let ?m = "perm_0666 AND NOT ?um"
  from main_v1_inv[OF run] obtain s2 s3 s4 s5 s6 s7 where
    a2: "mkdir n s = (None, s2)"
    and a3: "os_Chdir n s2 = (None, s3)" and a4: "initRepo ext s3 = (None, s4)"
    and a5: "goModInit_v1 ext n s4 = (None, s5)"
    and a6: "createFile ''.golintci.yml'' linting ''.golangci.yml'' s5 = (None, s6)"
    and a7: "createFile ''.gitignore'' gitignore ''.gitignore'' s6 = (None, s7)"
    and a8: "createPreCommitHook_v1 hook s7 = (None, s')"
    by blast
  have e2: "fs s2 = (fs s)(?root \<mapsto> Dir ?d)" "cwd s2 = cwd s" "umask s2 = ?um"
    using mkdir_effect[OF a2 plain_simple[OF pl]] by (simp_all add: comps_plain[OF pl])
  have e3: "fs s3 = (fs s)(?root \<mapsto> Dir ?d)" "cwd s3 = ?root" "umask s3 = ?um"
    using os_Chdir_effect[OF a3 plain_simple[OF pl]] e2 by (simp_all add: comps_plain[OF pl])
  have e4: "fs s4 = snd (ext [''git'', ''init''] ?root ((fs s)(?root \<mapsto> Dir ?d)))" "cwd s4 = ?root" "umask s4 = ?um"
    using initRepo_effect[OF a4] e3 by simp_all
  have e5: "fs s5 = snd (ext [''go'', ''mod'', ''init'', n] ?root (fs s4))" "cwd s5 = ?root" "umask s5 = ?um"
    using goModInit_v1_effect[OF a5] e4 by simp_all
  have G: "own_area rel \<Longrightarrow> fs s5 (cwd s @ n # rel) = (if rel = [] then Some (Dir ?d) else None)" for rel
    using after_tools[OF conf fr refl e4(1) e5(1)] by simp
  have G1: "fs s5 (?root @ [''.golintci.yml'']) = None" using G[OF own_area_simps(2)] by simp
  from createFile_effect[OF a6 simple_lits(1), unfolded comps_lits] obtain lint where
    t6: "linting ''.golangci.yml'' = Some lint"
    and e6: "fs s6 = (fs s5)(?root @ [''.golintci.yml''] \<mapsto> File ?m lint)" "cwd s6 = ?root" "umask s6 = ?um"
    using e5 G1 by (auto simp: new_mode_None)
  have G2: "fs s6 (?root @ [''.gitignore'']) = None" using G[OF own_area_simps(3)] e6 by simp
  from createFile_effect[OF a7 simple_lits(2), unfolded comps_lits] obtain ign where
    t7: "gitignore ''.gitignore'' = Some ign"
    and e7: "fs s7 = (fs s6)(?root @ [''.gitignore''] \<mapsto> File ?m ign)" "cwd s7 = ?root" "umask s7 = ?um"
    using e6 G2 by (auto simp: new_mode_None)
  from createPreCommitHook_v1_effect[OF a8] obtain b where
    t8: "hook ''pre-commit.sh'' = Some b"
    and e8: "fs s' = (fs s7)(?root @ [''.git'', ''hooks'', ''pre-commit''] \<mapsto> File perm_0700 b)"
    using e7 by auto
  have A: "\<forall>rel. own_area rel \<longrightarrow> fs s' (cwd s @ n # rel) = map_of (scaffold_v1 linting gitignore ?um) rel"
  proof (intro allI impI)
    fix rel assume own: "own_area rel"
    have nh: "rel \<noteq> [''.git'', ''hooks'', ''pre-commit'']" using own by (auto simp: own_area_def)
    show "fs s' (cwd s @ n # rel) = map_of (scaffold_v1 linting gitignore ?um) rel"
      using G[OF own] nh
      by (cases "rel = []") (simp_all add: e8 e7 e6 scaffold_v1_def template_of_def t6 t7)
  qed
  have B: "fs s' (cwd s @ [n, ''.git'', ''hooks'', ''pre-commit'']) =
             Some (File perm_0700 (template_of hook ''pre-commit.sh''))"
    by (simp add: e8 template_of_def t8)
  show ?thesis using A B by simp
qed

text \<open>
  Claim C1, amended. Let the name be one path component with nothing at or below it, let
  \<open>go version\<close> write nothing, \<open>git init\<close> write under \<open>.git\<close> only and \<open>go mod init\<close>
  write \<open>go.mod\<close> only, and let the run end with status 0. Outside \<open>.git\<close> and \<open>go.mod\<close>
  the tree under the name is then exactly: in \<open>part_000\<close>, the root, \<open>.golintci.yml\<close>,
  \<open>.gitignore\<close>, \<open>Makefile\<close> (mode 0666 less the umask), \<open>scripts\<close> with \<open>pre-commit\<close>,
  \<open>setup.sh\<close> and \<open>cibuild.sh\<close>, the last two with mode 0700; in the third program of
  \<open>main.go\<close>, the same with \<open>scripts/pre-commit\<close> at mode 0700 too, and with
  \<open>.goreleaser.yml\<close> and \<open>.github/workflows/releaser.yml\<close> (mode 0666 less the umask); in
  the first program of \<open>main.go\<close>, the root, \<open>.golintci.yml\<close> and \<open>.gitignore\<close> only. In
  all three, \<open>.git/hooks/pre-commit\<close> has mode 0700. Every file holds its template. Mode
  0700 has the owner's execute bit; mode 0666 less any umask has no execute bit. The
  mode of \<open>scripts/pre-commit\<close> in \<open>part_000\<close> is left open, and so is the second program
  of \<open>main.go\<close>.
\<close>

theorem scaffold_written:
  assumes "plain n" and "fresh s n" and "tools_confined ext"
  shows "(main ext tfs (Some n) s = (Exit0, s') \<longrightarrow>
            (\<exists>m. \<forall>rel. own_area rel \<longrightarrow> fs s' (cwd s @ n # rel) = map_of (scaffold tfs (umask s) m) rel)
          \<and> fs s' (cwd s @ [n, ''.git'', ''hooks'', ''pre-commit'']) =
              Some (File perm_0700 (template_of tfs ''templates/scripts/pre-commit''))
          \<and> (\<forall>k \<in> set [''templates/.golangci.yml'', ''templates/.gitignore'', ''templates/Makefile'',
                       ''templates/scripts/pre-commit'', ''templates/scripts/setup.sh'',
                       ''templates/scripts/cibuild.sh'']. tfs k \<noteq> None))
       \<and> (main_v3 ext tfs (Some n) s = (Exit0, s') \<longrightarrow>
            (\<forall>rel. own_area rel \<longrightarrow> fs s' (cwd s @ n # rel) = map_of (scaffold_v3 tfs (umask s)) rel)
          \<and> fs s' (cwd s @ [n, ''.git'', ''hooks'', ''pre-commit'']) =
              Some (File perm_0700 (template_of tfs ''templates/scripts/pre-commit''))
          \<and> (\<forall>k \<in> set [''templates/.golangci.yml'', ''templates/.goreleaser.yml'', ''templates/.gitignore'',
                       ''templates/Makefile'', ''templates/scripts/pre-commit'', ''templates/scripts/setup.sh'',
                       ''templates/scripts/cibuild.sh'', ''templates/releaser.yml'']. tfs k \<noteq> None))
       \<and> (main_v1 ext linting hook gitignore (Some n) s = (Exit0, s') \<longrightarrow>
            (\<forall>rel. own_area rel \<longrightarrow>
               fs s' (cwd s @ n # rel) = map_of (scaffold_v1 linting gitignore (umask s)) rel)
          \<and> fs s' (cwd s @ [n, ''.git'', ''hooks'', ''pre-commit'']) =
              Some (File perm_0700 (template_of hook ''pre-commit.sh'')))
       \<and> perm_0700 AND owner_exec = owner_exec \<and> owner_exec \<noteq> 0
       \<and> (perm_0666 AND NOT (umask s)) AND any_exec = 0"
proof (intro conjI impI)
  assume "main ext tfs (Some n) s = (Exit0, s')"
  from main_scaffold[OF assms this]
  show "\<exists>m. \<forall>rel. own_area rel \<longrightarrow> fs s' (cwd s @ n # rel) = map_of (scaffold tfs (umask s) m) rel"
    and "fs s' (cwd s @ [n, ''.git'', ''hooks'', ''pre-commit'']) =
              Some (File perm_0700 (template_of tfs ''templates/scripts/pre-commit''))"
    and "\<forall>k \<in> set [''templates/.golangci.yml'', ''templates/.gitignore'', ''templates/Makefile'',
                       ''templates/scripts/pre-commit'', ''templates/scripts/setup.sh'',
                       ''templates/scripts/cibuild.sh'']. tfs k \<noteq> None"
    by blast+
next
  assume "main_v3 ext tfs (Some n) s = (Exit0, s')"
  from main_v3_scaffold[OF assms this]
  show "\<forall>rel. own_area rel \<longrightarrow> fs s' (cwd s @ n # rel) = map_of (scaffold_v3 tfs (umask s)) rel"
    and "fs s' (cwd s @ [n, ''.git'', ''hooks'', ''pre-commit'']) =
              Some (File perm_0700 (template_of tfs ''templates/scripts/pre-commit''))"
    and "\<forall>k \<in> set [''templates/.golangci.yml'', ''templates/.goreleaser.yml'', ''templates/.gitignore'',
                       ''templates/Makefile'', ''templates/scripts/pre-commit'', ''templates/scripts/setup.sh'',
                       ''templates/scripts/cibuild.sh'', ''templates/releaser.yml'']. tfs k \<noteq> None"
    by blast+
next
  assume "main_v1 ext linting hook gitignore (Some n) s = (Exit0, s')"
  from main_v1_scaffold[OF assms this]
  show "\<forall>rel. own_area rel \<longrightarrow>
               fs s' (cwd s @ n # rel) = map_of (scaffold_v1 linting gitignore (umask s)) rel"
    and "fs s' (cwd s @ [n, ''.git'', ''hooks'', ''pre-commit'']) =
              Some (File perm_0700 (template_of hook ''pre-commit.sh''))"
    by blast+
qed (simp_all add: perm_0700_executable created_not_executable)

lemma demo_tools_confined: "tools_confined demo_tools"
  by (auto simp: tools_confined_def demo_tools_def)

lemma demo_fresh: "fresh demo_sys ''demo''"
  by (auto simp: fresh_def demo_sys_def)

theorem scaffold_written_witness:
  "plain ''demo'' \<and> fresh demo_sys ''demo'' \<and> tools_confined demo_tools
   \<and> fst (main demo_tools demo_tfs (Some ''demo'') demo_sys) = Exit0
   \<and> fs (snd (main demo_tools demo_tfs (Some ''demo'') demo_sys)) [''work'', ''demo'', ''Makefile'']
       = Some (File 420 ''make'')
   \<and> fs (snd (main demo_tools demo_tfs (Some ''demo'') demo_sys)) [''work'', ''demo'', ''scripts'', ''setup.sh'']
       = Some (File 448 ''setup'')
   \<and> fs (snd (main demo_tools demo_tfs (Some ''demo'') demo_sys)) [''work'', ''demo'', ''README.md''] = None
   \<and> fst (main_v3 demo_tools demo_tfs (Some ''demo'') demo_sys) = Exit0
   \<and> fs (snd (main_v3 demo_tools demo_tfs (Some ''demo'') demo_sys)) [''work'', ''demo'', ''scripts'', ''pre-commit'']
       = Some (File 448 ''hook'')
   \<and> fs (snd (main_v3 demo_tools demo_tfs (Some ''demo'') demo_sys))
        [''work'', ''demo'', ''.github'', ''workflows'', ''releaser.yml''] = Some (File 420 ''workflow'')
   \<and> fst (main_v1 demo_tools demo_linting demo_hook demo_gitignore (Some ''demo'') demo_sys) = Exit0
   \<and> fs (snd (main_v1 demo_tools demo_linting demo_hook demo_gitignore (Some ''demo'') demo_sys))
        [''work'', ''demo'', ''.git'', ''hooks'', ''pre-commit''] = Some (File 448 ''hook'')
   \<and> fs (snd (main_v1 demo_tools demo_linting demo_hook demo_gitignore (Some ''demo'') demo_sys))
        [''work'', ''demo'', ''scripts''] = None"
proof -
  let ?s0 = "snd (main demo_tools demo_tfs (Some ''demo'') demo_sys)"
  let ?s3 = "snd (main_v3 demo_tools demo_tfs (Some ''demo'') demo_sys)"
  have p: "plain ''demo''" by (simp add: plain_def)
  have r0a: "fst (main demo_tools demo_tfs (Some ''demo'') demo_sys) = Exit0" by code_simp
  have r0: "main demo_tools demo_tfs (Some ''demo'') demo_sys = (Exit0, ?s0)" using r0a by (rule pair_fstI)
  have r3a: "fst (main_v3 demo_tools demo_tfs (Some ''demo'') demo_sys) = Exit0" by code_simp
  have r3: "main_v3 demo_tools demo_tfs (Some ''demo'') demo_sys = (Exit0, ?s3)" using r3a by (rule pair_fstI)
  have c: "cwd demo_sys = [''work'']" "umask demo_sys = 18" by (simp_all add: demo_sys_def)
  note T0 = scaffold_written[OF p demo_fresh demo_tools_confined, of demo_tfs ?s0, THEN conjunct1, rule_format, OF r0]
  note T3 = scaffold_written[OF p demo_fresh demo_tools_confined, of demo_tfs ?s3, THEN conjunct2, THEN conjunct1, rule_format, OF r3]
  let ?s1 = "snd (main_v1 demo_tools demo_linting demo_hook demo_gitignore (Some ''demo'') demo_sys)"
  have r1a: "fst (main_v1 demo_tools demo_linting demo_hook demo_gitignore (Some ''demo'') demo_sys) = Exit0"
    by code_simp
  have r1: "main_v1 demo_tools demo_linting demo_hook demo_gitignore (Some ''demo'') demo_sys = (Exit0, ?s1)"
    using r1a by (rule pair_fstI)
  note T1 = scaffold_written[OF p demo_fresh demo_tools_confined, of _ ?s1 demo_linting demo_hook demo_gitignore,
      THEN conjunct2, THEN conjunct2, THEN conjunct1, rule_format, OF r1]
  have d1: "fs ?s1 [''work'', ''demo'', ''.git'', ''hooks'', ''pre-commit''] = Some (File 448 ''hook'')"
    using T1 by (simp add: c template_of_def demo_hook_def perm_0700_def)
  have d2: "fs ?s1 [''work'', ''demo'', ''scripts''] = None"
    using T1[THEN conjunct1, rule_format, of "[''scripts'']"]
    by (simp add: c own_area_def scaffold_v1_def)
  from T0 obtain m where
    A: "\<And>rel. own_area rel \<Longrightarrow> fs ?s0 (cwd demo_sys @ ''demo'' # rel) = map_of (scaffold demo_tfs (umask demo_sys) m) rel"
    by blast
  have w: "(438::perm) AND NOT 18 = 420" by simp
  have a1: "fs ?s0 [''work'', ''demo'', ''Makefile''] = Some (File 420 ''make'')"
    using A[of "[''Makefile'']"]
    by (simp add: c own_area_def scaffold_def template_of_def demo_tfs_def perm_0666_def w)
  have a2: "fs ?s0 [''work'', ''demo'', ''scripts'', ''setup.sh''] = Some (File 448 ''setup'')"
    using A[of "[''scripts'', ''setup.sh'']"]
    by (simp add: c own_area_def scaffold_def template_of_def demo_tfs_def perm_0700_def)
  have a3: "fs ?s0 [''work'', ''demo'', ''README.md''] = None"
    using A[of "[''README.md'']"]
    by (simp add: c own_area_def scaffold_def)
  from T3 have
    B: "\<And>rel. own_area rel \<Longrightarrow> fs ?s3 (cwd demo_sys @ ''demo'' # rel) = map_of (scaffold_v3 demo_tfs (umask demo_sys)) rel"
    by blast
  have b1: "fs ?s3 [''work'', ''demo'', ''scripts'', ''pre-commit''] = Some (File 448 ''hook'')"
    using B[of "[''scripts'', ''pre-commit'']"]
    by (simp add: c own_area_def scaffold_v3_def template_of_def demo_tfs_def perm_0700_def)
  have b2: "fs ?s3 [''work'', ''demo'', ''.github'', ''workflows'', ''releaser.yml''] = Some (File 420 ''workflow'')"
    using B[of "[''.github'', ''workflows'', ''releaser.yml'']"]
    by (simp add: c own_area_def scaffold_v3_def template_of_def demo_tfs_def perm_0666_def w)
  show ?thesis
    using p demo_fresh demo_tools_confined r0a a1 a2 a3 r3a b1 b2 r1a d1 d2 by simp
qed

theorem scaffold_counterexample:
  "fst (main_v3 demo_tools demo_tfs (Some ''demo'') demo_sys) = Exit0
   \<and> fs (snd (main_v3 demo_tools demo_tfs (Some ''demo'') demo_sys)) [''work'', ''demo'', ''.goreleaser.yml'']
       = Some (File 420 ''goreleaser'')
   \<and> fst (main demo_tools demo_tfs (Some ''demo'') demo_sys) = Exit0
   \<and> fs (snd (main demo_tools demo_tfs (Some ''demo'') demo_sys)) [''work'', ''demo'', ''scripts'', ''pre-commit'']
       = Some (File 420 ''hook'')
   \<and> (420 :: perm) AND owner_exec = 0
   \<and> fst (main_v2 demo_tools demo_linting demo_hook demo_gitignore (Some ''demo'') demo_sys) = Exit0
   \<and> fs (snd (main_v2 demo_tools demo_linting demo_hook demo_gitignore (Some ''demo'') demo_sys))
        [''work'', ''demo'', ''Makefile''] = None
   \<and> fs (snd (main_v2 demo_tools demo_linting demo_hook demo_gitignore (Some ''demo'') demo_sys))
        [''work'', ''demo'', ''scripts''] = None"
proof -
  have a: "fst (main_v3 demo_tools demo_tfs (Some ''demo'') demo_sys) = Exit0" by code_simp
  have b: "fs (snd (main_v3 demo_tools demo_tfs (Some ''demo'') demo_sys)) [''work'', ''demo'', ''.goreleaser.yml'']
       = Some (File 420 ''goreleaser'')" by code_simp
  have c: "fst (main demo_tools demo_tfs (Some ''demo'') demo_sys) = Exit0" by code_simp
  have d: "fs (snd (main demo_tools demo_tfs (Some ''demo'') demo_sys)) [''work'', ''demo'', ''scripts'', ''pre-commit'']
       = Some (File 420 ''hook'')" by code_simp
  have e: "(420 :: perm) AND owner_exec = 0" by (simp add: owner_exec_def)
  have f: "fst (main_v2 demo_tools demo_linting demo_hook demo_gitignore (Some ''demo'') demo_sys) = Exit0"
    by code_simp
  have g: "fs (snd (main_v2 demo_tools demo_linting demo_hook demo_gitignore (Some ''demo'') demo_sys))
        [''work'', ''demo'', ''Makefile''] = None" by code_simp
  have h: "fs (snd (main_v2 demo_tools demo_linting demo_hook demo_gitignore (Some ''demo'') demo_sys))
        [''work'', ''demo'', ''scripts''] = None" by code_simp
  show ?thesis using a b c d e f g h by simp
qed

section \<open>The scripts of \<open>part_000\<close>\<close>

text \<open>
  In \<open>part_000\<close>, \<open>createScripts\<close> makes \<open>scripts/setup.sh\<close> and \<open>scripts/cibuild.sh\<close>
  executable and leaves \<open>scripts/pre-commit\<close> as \<open>os.Create\<close> made it: when the file was
  not there before, its mode is 0666 less the umask, which has no execute bit.
\<close>

theorem createScripts_pre_commit_mode:
  assumes "createScripts tfs s = (None, s')"
      and "fs s (cwd s @ [''scripts'', ''pre-commit'']) = None"
  shows "\<exists>b1 b2 b3.
           fs s' (cwd s @ [''scripts'', ''pre-commit'']) = Some (File (perm_0666 AND NOT (umask s)) b1)
         \<and> fs s' (cwd s @ [''scripts'', ''setup.sh'']) = Some (File perm_0700 b2)
         \<and> fs s' (cwd s @ [''scripts'', ''cibuild.sh'']) = Some (File perm_0700 b3)
         \<and> (perm_0666 AND NOT (umask s)) AND any_exec = 0
         \<and> perm_0700 AND owner_exec = owner_exec"
proof -
  from createScripts_effect[OF assms(1)] obtain b1 b2 b3 where
    e: "fs s' = (fs s)(cwd s @ [''scripts''] \<mapsto> Dir (ModePerm AND NOT (umask s)),
                          cwd s @ [''scripts'', ''pre-commit''] \<mapsto>
                            File (new_mode (fs s) (cwd s @ [''scripts'', ''pre-commit'']) (umask s)) b1,
                          cwd s @ [''scripts'', ''setup.sh''] \<mapsto> File perm_0700 b2,
                          cwd s @ [''scripts'', ''cibuild.sh''] \<mapsto> File perm_0700 b3)"
    by blast
  have m: "new_mode (fs s) (cwd s @ [''scripts'', ''pre-commit'']) (umask s) = perm_0666 AND NOT (umask s)"
    using assms(2) by (rule new_mode_None)
  show ?thesis
    apply (rule exI[of _ b1], rule exI[of _ b2], rule exI[of _ b3])
    using e m created_not_executable[of "umask s"] perm_0700_executable by simp
qed

theorem createScripts_pre_commit_mode_witness:
  "fst (createScripts demo_tfs demo_sys) = None
   \<and> fs demo_sys (cwd demo_sys @ [''scripts'', ''pre-commit'']) = None
   \<and> fs (snd (createScripts demo_tfs demo_sys)) [''work'', ''scripts'', ''pre-commit''] = Some (File 420 ''hook'')
   \<and> fs (snd (createScripts demo_tfs demo_sys)) [''work'', ''scripts'', ''setup.sh''] = Some (File 448 ''setup'')"
proof -
  have r: "fst (createScripts demo_tfs demo_sys) = None" by code_simp
  have h1: "createScripts demo_tfs demo_sys = (None, snd (createScripts demo_tfs demo_sys))"
    using r by (rule pair_fstI)
  have h2: "fs demo_sys (cwd demo_sys @ [''scripts'', ''pre-commit'']) = None"
    by (simp add: demo_sys_def)
  have c: "cwd demo_sys = [''work'']" "umask demo_sys = 18" by (simp_all add: demo_sys_def)
  have w: "(438::perm) AND NOT 18 = 420" by simp
  have t: "demo_tfs ''templates/scripts/pre-commit'' = Some ''hook''"
    "demo_tfs ''templates/scripts/setup.sh'' = Some ''setup''"
    by (simp_all add: demo_tfs_def)
  from createScripts_pre_commit_mode[OF h1 h2] obtain b1 b2 where
    a: "fs (snd (createScripts demo_tfs demo_sys)) [''work'', ''scripts'', ''pre-commit''] = Some (File 420 b1)"
    and b: "fs (snd (createScripts demo_tfs demo_sys)) [''work'', ''scripts'', ''setup.sh''] = Some (File 448 b2)"
    by (auto simp: c perm_0666_def perm_0700_def w)
  have a': "fs (snd (createScripts demo_tfs demo_sys)) [''work'', ''scripts'', ''pre-commit''] = Some (File 420 ''hook'')"
    by code_simp
  have b': "fs (snd (createScripts demo_tfs demo_sys)) [''work'', ''scripts'', ''setup.sh''] = Some (File 448 ''setup'')"
    by code_simp
  show ?thesis using r h2 a a' b b' by simp
qed

end
